(* ===== verification/Rust_Prelude.thy ===== *)
theory Rust_Prelude
  imports Main "HOL-Library.Word" "HOL-Library.List_Lexorder" "HOL-Library.Char_ord"
begin

section \<open>Shared vocabulary of the development\<close>

text \<open>
  What every component theory uses: fixed-width unsigned integers with the saturating
  operations of the Rust standard library, byte strings with the few string methods the code
  calls, JSON values, tables of rows addressed by a primary key, and the interface locales the
  components are proved against.

  Rust \<open>Result<T, E>\<close> is the sum \<open>'e + 'a\<close> with \<open>Inl\<close> the error. A Rust \<open>String\<close> is its
  UTF-8 byte sequence, so \<open>length\<close> is \<open>str::len\<close>. A clock reading is an argument of the
  operation that takes it, an integer number of nanoseconds since the Unix epoch.
\<close>

subsection \<open>Fact collections\<close>

named_theorems table_simps "lookup laws of keyed tables"
named_theorems inv_intros "operations that keep a component invariant"
named_theorems eval_simps "definitions unfolded to evaluate the model on a concrete input"

subsection \<open>Machine integers\<close>

type_synonym u8 = "8 word"
type_synonym u16 = "16 word"
type_synonym u32 = "32 word"
type_synonym u64 = "64 word"
type_synonym usize = "64 word"
type_synonym timestamp = int

text \<open>\<open>saturating_add\<close> and \<open>saturating_sub\<close> of the unsigned types.\<close>

definition saturating_add :: "'a::len word \<Rightarrow> 'a word \<Rightarrow> 'a word" where
  "saturating_add a b = (if unat a + unat b < 2 ^ LENGTH('a) then a + b else - 1)"

definition saturating_sub :: "'a::len word \<Rightarrow> 'a word \<Rightarrow> 'a word" where
  "saturating_sub a b = (if b \<le> a then a - b else 0)"

lemma unat_saturating_add:
  "unat (saturating_add a (b :: 'a::len word)) = min (unat a + unat b) (2 ^ LENGTH('a) - 1)"
proof (cases "unat a + unat b < 2 ^ LENGTH('a)")
  case True
  then show ?thesis by (simp add: saturating_add_def unat_word_ariths)
next
  case False
  then show ?thesis
    by (simp add: saturating_add_def unsigned_minus_1_eq_mask mask_eq_exp_minus_1)
qed

lemma saturating_add_ge: "a \<le> saturating_add a (b :: 'a::len word)"
proof -
  have "unat a < 2 ^ LENGTH('a)" by (rule unsigned_less)
  then have "unat a \<le> min (unat a + unat b) (2 ^ LENGTH('a) - 1)" by linarith
  then show ?thesis by (simp add: word_le_nat_alt unat_saturating_add)
qed

lemma uint_saturating_add_1:
  assumes "saturating_add w 1 \<noteq> (w :: 'a::len word)"
  shows "uint (saturating_add w 1) = uint w + 1"
proof -
  have "unat (saturating_add w 1) \<noteq> unat w"
    using assms unsigned_word_eqI [of "saturating_add w 1" w] by blast
  moreover have "unat w < 2 ^ LENGTH('a)" by (rule unsigned_less)
  moreover have "unat (saturating_add w 1) = min (unat w + 1) (2 ^ LENGTH('a) - 1)"
    by (simp add: unat_saturating_add)
  ultimately have "unat (saturating_add w 1) = unat w + 1" by linarith
  then have "int (unat (saturating_add w 1)) = int (unat w + 1)" by (simp only:)
  then show ?thesis by simp
qed

lemma unat_saturating_sub: "unat (saturating_sub a (b :: 'a::len word)) = unat a - unat b"
  by (auto simp: saturating_sub_def unat_sub word_le_nat_alt)

lemma uint_less_power: "unat w < 2 ^ k \<Longrightarrow> uint (w :: 'a::len word) < 2 ^ k"
  by (metis of_nat_less_iff of_nat_numeral of_nat_power uint_nat)

subsection \<open>Strings\<close>

text \<open>The UTF-8 encodings of the code points \<open>char::is_whitespace\<close> accepts.\<close>

definition ascii_ws :: "char \<Rightarrow> bool" where
  "ascii_ws c = (c \<in> {CHR 0x09, CHR 0x0A, CHR 0x0B, CHR 0x0C, CHR 0x0D, CHR 0x20})"

definition ws2 :: "char \<Rightarrow> char \<Rightarrow> bool" where
  "ws2 a b = (a = CHR 0xC2 \<and> b \<in> {CHR 0x85, CHR 0xA0})"

definition ws3 :: "char \<Rightarrow> char \<Rightarrow> char \<Rightarrow> bool" where
  "ws3 a b c =
     ((a = CHR 0xE1 \<and> b = CHR 0x9A \<and> c = CHR 0x80) \<or>
      (a = CHR 0xE2 \<and> b = CHR 0x80 \<and>
         c \<in> {CHR 0x80, CHR 0x81, CHR 0x82, CHR 0x83, CHR 0x84, CHR 0x85, CHR 0x86, CHR 0x87,
               CHR 0x88, CHR 0x89, CHR 0x8A, CHR 0xA8, CHR 0xA9, CHR 0xAF}) \<or>
      (a = CHR 0xE2 \<and> b = CHR 0x81 \<and> c = CHR 0x9F) \<or>
      (a = CHR 0xE3 \<and> b = CHR 0x80 \<and> c = CHR 0x80))"

fun trim_start :: "string \<Rightarrow> string" where
  "trim_start (a # b # c # s) =
     (if ascii_ws a then trim_start (b # c # s)
      else if ws2 a b then trim_start (c # s)
      else if ws3 a b c then trim_start s
      else a # b # c # s)"
| "trim_start [a, b] = (if ascii_ws a then trim_start [b] else if ws2 a b then [] else [a, b])"
| "trim_start [a] = (if ascii_ws a then [] else [a])"
| "trim_start [] = []"

text \<open>\<open>trim_end\<close>, on the reversed string.\<close>

fun trim_end_rev :: "string \<Rightarrow> string" where
  "trim_end_rev (c # b # a # s) =
     (if ascii_ws c then trim_end_rev (b # a # s)
      else if ws2 b c then trim_end_rev (a # s)
      else if ws3 a b c then trim_end_rev s
      else c # b # a # s)"
| "trim_end_rev [c, b] =
     (if ascii_ws c then trim_end_rev [b] else if ws2 b c then [] else [c, b])"
| "trim_end_rev [c] = (if ascii_ws c then [] else [c])"
| "trim_end_rev [] = []"

definition trim :: "string \<Rightarrow> string" where
  "trim s = rev (trim_end_rev (rev (trim_start s)))"

text \<open>\<open>str::split\<close> on a character, and \<open>str::lines\<close>.\<close>

fun split_char :: "char \<Rightarrow> string \<Rightarrow> string list" where
  "split_char c [] = [[]]"
| "split_char c (x # xs) =
     (if x = c then [] # split_char c xs
      else case split_char c xs of [] \<Rightarrow> [[x]] | w # ws \<Rightarrow> (x # w) # ws)"

definition str_lines :: "string \<Rightarrow> string list" where
  "str_lines s =
     (let ls = split_char (CHR 0x0A) s; ls = (if last ls = [] then butlast ls else ls)
      in map (\<lambda>l. if l \<noteq> [] \<and> last l = CHR 0x0D then butlast l else l) ls)"

definition starts_with :: "string \<Rightarrow> string \<Rightarrow> bool" where
  "starts_with p s = (take (length p) s = p)"

definition ends_with :: "string \<Rightarrow> string \<Rightarrow> bool" where
  "ends_with p s = (length p \<le> length s \<and> drop (length s - length p) s = p)"

definition is_ascii_digit :: "char \<Rightarrow> bool" where
  "is_ascii_digit c = (CHR ''0'' \<le> c \<and> c \<le> CHR ''9'')"

definition is_ascii_upper :: "char \<Rightarrow> bool" where
  "is_ascii_upper c = (CHR ''A'' \<le> c \<and> c \<le> CHR ''Z'')"

definition is_ascii_alphanumeric :: "char \<Rightarrow> bool" where
  "is_ascii_alphanumeric c =
     (is_ascii_digit c \<or> is_ascii_upper c \<or> (CHR ''a'' \<le> c \<and> c \<le> CHR ''z''))"

definition to_ascii_lowercase :: "string \<Rightarrow> string" where
  "to_ascii_lowercase =
     List.map (\<lambda>c. if is_ascii_upper c then char_of (of_char c + (32::nat)) else c)"

declare trim_def [eval_simps] ascii_ws_def [eval_simps] ws2_def [eval_simps] ws3_def [eval_simps]
  starts_with_def [eval_simps] ends_with_def [eval_simps]
  is_ascii_digit_def [eval_simps] is_ascii_upper_def [eval_simps]
  is_ascii_alphanumeric_def [eval_simps] to_ascii_lowercase_def [eval_simps]
  less_eq_char_def [eval_simps] less_char_def [eval_simps]
  saturating_add_def [eval_simps] saturating_sub_def [eval_simps]

text \<open>\<open>str::replace\<close> for a non-empty pattern.\<close>

function replace_str :: "string \<Rightarrow> string \<Rightarrow> string \<Rightarrow> string" where
  "replace_str p q s =
     (if p = [] then s
      else case s of
        [] \<Rightarrow> []
      | c # cs \<Rightarrow> if starts_with p s then q @ replace_str p q (drop (length p) s) else c # replace_str p q cs)"
  by pat_completeness auto
termination
  by (relation "measure (\<lambda>(p, q, s). length s)") auto

declare replace_str.simps [simp del]

text \<open>\<open>str::split_once\<close> at a character, and \<open>trim_start_matches\<close> and \<open>trim_end_matches\<close> of a character.\<close>

definition split_once :: "char \<Rightarrow> string \<Rightarrow> (string \<times> string) option" where
  "split_once c s = (if c \<in> set s then Some (takeWhile ((\<noteq>) c) s, tl (dropWhile ((\<noteq>) c) s)) else None)"

definition trim_start_char :: "char \<Rightarrow> string \<Rightarrow> string" where
  "trim_start_char c s = dropWhile ((=) c) s"

definition trim_end_char :: "char \<Rightarrow> string \<Rightarrow> string" where
  "trim_end_char c s = rev (dropWhile ((=) c) (rev s))"

text \<open>\<open>str::contains\<close> of a string pattern.\<close>

fun contains_str :: "string \<Rightarrow> string \<Rightarrow> bool" where
  "contains_str p [] = (p = [])"
| "contains_str p (c # s) = (starts_with p (c # s) \<or> contains_str p s)"

text \<open>\<open>slice::join\<close>.\<close>

fun join_str :: "string \<Rightarrow> string list \<Rightarrow> string" where
  "join_str sep [] = []"
| "join_str sep [x] = x"
| "join_str sep (x # y # xs) = x @ sep @ join_str sep (y # xs)"

text \<open>\<open>Path::join\<close>: an absolute second path replaces the first.\<close>

definition path_join :: "string \<Rightarrow> string \<Rightarrow> string" where
  "path_join base p =
     (if starts_with ''/'' p then p
      else if base = [] \<or> ends_with ''/'' base then base @ p
      else base @ ''/'' @ p)"

lemma starts_with_append [simp]: "starts_with p (p @ s)"
  by (simp add: starts_with_def)

lemma ends_with_append [simp]: "ends_with p (s @ p)"
  by (simp add: ends_with_def)

lemma ends_with_iff: "ends_with p s \<longleftrightarrow> (\<exists>t. s = t @ p)"
  by (auto simp: ends_with_def) (metis append_take_drop_id)

lemma trim_end_rev_append:
  "\<exists>w. s = w @ trim_end_rev s"
  by (induction s rule: trim_end_rev.induct) (auto, (metis append_Cons)+)

text \<open>Decimal rendering of \<open>u64\<close> and \<open>usize\<close> values (\<open>Display\<close>).\<close>

fun digits :: "nat \<Rightarrow> string" where
  "digits n = (if n < 10 then [char_of (48 + n)] else digits (n div 10) @ [char_of (48 + n mod 10)])"

declare digits.simps [simp del]

text \<open>\<open>i64::to_string\<close> and \<open>str::parse::<i64>\<close>: an optional sign, then decimal digits, within range.\<close>

definition i64_to_string :: "int \<Rightarrow> string" where
  "i64_to_string z = (if z < 0 then CHR ''-'' # digits (nat (- z)) else digits (nat z))"

definition digits_value :: "string \<Rightarrow> nat" where
  "digits_value ds = foldl (\<lambda>n d. 10 * n + (of_char d - 48)) 0 ds"

definition parse_i64 :: "string \<Rightarrow> int option" where
  "parse_i64 s =
     (let (negative, ds) = (case s of c # cs \<Rightarrow> if c = CHR ''-'' then (True, cs)
                                                else if c = CHR ''+'' then (False, cs) else (False, s)
                            | [] \<Rightarrow> (False, []))
      in if ds = [] \<or> \<not> list_all is_ascii_digit ds then None
         else let v = (if negative then - int (digits_value ds) else int (digits_value ds))
              in if - (2 ^ 63) \<le> v \<and> v < 2 ^ 63 then Some v else None)"

lemma digit_char: "n < 10 \<Longrightarrow> is_ascii_digit (char_of (48 + n)) \<and> of_char (char_of (48 + n)) - 48 = n"
  for n :: nat
  by (simp add: is_ascii_digit_def less_eq_char_def take_bit_eq_mod)

lemma digits_value_append: "digits_value (xs @ [d]) = 10 * digits_value xs + (of_char d - 48)"
  by (simp add: digits_value_def)

text \<open>\<open>digits n\<close> is decimal and denotes \<open>n\<close>: every step appends the last digit of \<open>n\<close>.\<close>

lemma digits_snoc: "\<exists>front. digits n = front @ [char_of (48 + n mod 10)] \<and> front = (if n < 10 then [] else digits (n div 10))"
  by (simp add: digits.simps [of n])

lemma digits_ok: "digits n \<noteq> [] \<and> list_all is_ascii_digit (digits n) \<and> digits_value (digits n) = n"
proof (induction n rule: less_induct)
  case (less m)
  obtain front where m: "digits m = front @ [char_of (48 + m mod 10)]" "front = (if m < 10 then [] else digits (m div 10))"
    using digits_snoc by blast
  have "list_all is_ascii_digit front \<and> digits_value front = m div 10"
    using less [of "m div 10"] m(2) by (simp add: digits_value_def)
  with m(1) digit_char [of "m mod 10"] show ?case by (simp add: digits_value_append)
qed

lemma parse_i64_to_string: "- (2 ^ 63) \<le> z \<Longrightarrow> z < 2 ^ 63 \<Longrightarrow> parse_i64 (i64_to_string z) = Some z"
proof -
  assume z: "- (2 ^ 63) \<le> z" "z < 2 ^ 63"
  obtain c cs where c: "digits (nat z) = c # cs" "is_ascii_digit c"
    using digits_ok [of "nat z"] by (cases "digits (nat z)") auto
  have "c \<noteq> CHR ''-''" "c \<noteq> CHR ''+''"
    using c(2) by (auto simp: is_ascii_digit_def less_eq_char_def)
  then show ?thesis
    using z c digits_ok [of "nat z"] digits_ok [of "nat (- z)"]
    by (auto simp: parse_i64_def i64_to_string_def)
qed

subsection \<open>JSON values\<close>

text \<open>
  \<open>serde_json::Value\<close>. A float is kept as its IEEE bit pattern: no component computes with one
  inside a JSON document.
\<close>

datatype json =
    JNull
  | JBool bool
  | JInt int
  | JFloat "64 word"
  | JStr string
  | JArr "json list"
  | JObj "(string \<times> json) list"

text \<open>\<open>serde_json::to_string\<close> and \<open>serde_json::from_str\<close> on values, as parameters.\<close>

record json_codec =
  json_to_string :: "json \<Rightarrow> string option"
  json_from_str :: "string \<Rightarrow> json option"

definition json_roundtrip :: "json_codec \<Rightarrow> bool" where
  "json_roundtrip cd \<longleftrightarrow> (\<forall>v s. json_to_string cd v = Some s \<longrightarrow> json_from_str cd s = Some v)"

text \<open>A concrete codec for finitely many values: a value is written as its position in the list.\<close>

definition table_codec :: "json list \<Rightarrow> json_codec" where
  "table_codec vs =
     \<lparr>json_to_string = (\<lambda>v. if v \<in> set vs then Some (replicate (length (takeWhile (\<lambda>w. w \<noteq> v) vs)) (CHR ''x'')) else None),
      json_from_str = (\<lambda>s. if length s < length vs then Some (vs ! length s) else None)\<rparr>"

lemma table_codec_roundtrip: "json_roundtrip (table_codec vs)"
proof -
  have less: "length (takeWhile (\<lambda>w. w \<noteq> v) vs) < length vs" if "v \<in> set vs" for v
    using that by (metis (mono_tags, lifting) length_takeWhile_le le_neq_implies_less takeWhile_eq_all_conv takeWhile_eq_take take_all_iff order_refl)
  then have "vs ! length (takeWhile (\<lambda>w. w \<noteq> v) vs) = v" if "v \<in> set vs" for v
    using that nth_length_takeWhile by fastforce
  with less show ?thesis
    by (auto simp: json_roundtrip_def table_codec_def)
qed

definition jget :: "string \<Rightarrow> json \<Rightarrow> json option" where
  "jget k v = (case v of JObj kvs \<Rightarrow> map_of kvs k | _ \<Rightarrow> None)"

text \<open>\<open>Map::insert\<close> and \<open>Map::remove\<close>; the map is ordered by key.\<close>

fun jinsert :: "string \<Rightarrow> json \<Rightarrow> (string \<times> json) list \<Rightarrow> (string \<times> json) list" where
  "jinsert k v [] = [(k, v)]"
| "jinsert k v ((k', v') # m) =
     (if k = k' then (k, v) # m else if k < k' then (k, v) # (k', v') # m else (k', v') # jinsert k v m)"

definition jremove :: "string \<Rightarrow> (string \<times> json) list \<Rightarrow> (string \<times> json) list" where
  "jremove k m = filter (\<lambda>(k', _). k' \<noteq> k) m"

lemma map_of_jinsert [simp]: "map_of (jinsert k v m) k' = (if k' = k then Some v else map_of m k')"
  by (induction k v m rule: jinsert.induct) auto

lemma map_of_jremove [simp]: "map_of (jremove k m) k' = (if k' = k then None else map_of m k')"
  by (induction m) (auto simp: jremove_def)

text \<open>
  The \<open>json!\<close> object literal, and the assignment \<open>value[key] = v\<close>, which turns \<open>null\<close> into an
  object and panics on any other value that is not an object.
\<close>

definition jobj :: "(string \<times> json) list \<Rightarrow> json" where
  "jobj kvs = JObj (foldl (\<lambda>m (k, v). jinsert k v m) [] kvs)"

definition jset :: "string \<Rightarrow> json \<Rightarrow> json \<Rightarrow> json option" where
  "jset k v j = (case j of JObj m \<Rightarrow> Some (JObj (jinsert k v m)) | JNull \<Rightarrow> Some (JObj [(k, v)]) | _ \<Rightarrow> None)"

lemma jget_jset: "jset k v j = Some j' \<Longrightarrow> jget k' j' = (if k' = k then Some v else jget k' j)"
  by (auto simp: jset_def jget_def split: json.splits)

lemma map_of_jinsert_fold:
  "map_of (foldl (\<lambda>m (k, v). jinsert k v m) m kvs) k = (case map_of (rev kvs) k of Some v \<Rightarrow> Some v | None \<Rightarrow> map_of m k)"
proof (induction kvs arbitrary: m)
  case (Cons kv kvs)
  then show ?case by (cases kv) (auto simp: map_add_def split: option.splits)
qed simp

lemma jget_jobj: "jget k (jobj kvs) = map_of (rev kvs) k"
  by (simp add: jget_def jobj_def map_of_jinsert_fold split: option.splits)

declare jget_def [eval_simps] jobj_def [eval_simps] jset_def [eval_simps]

subsection \<open>Results\<close>

text \<open>The question-mark operator on \<open>Result\<close>, and its lifting to optional values (\<open>transpose\<close>).\<close>

type_synonym ('ok, 'err) Result = "'err + 'ok"

definition and_then :: "('a, 'e) Result \<Rightarrow> ('a \<Rightarrow> ('b, 'e) Result) \<Rightarrow> ('b, 'e) Result" where
  "and_then m f = (case m of Inl e \<Rightarrow> Inl e | Inr x \<Rightarrow> f x)"

definition ok_or :: "'e \<Rightarrow> 'a option \<Rightarrow> 'e + 'a" where
  "ok_or e x = (case x of None \<Rightarrow> Inl e | Some y \<Rightarrow> Inr y)"

definition transpose_opt :: "('e + 'a) option \<Rightarrow> 'e + 'a option" where
  "transpose_opt x = (case x of None \<Rightarrow> Inr None | Some (Inl e) \<Rightarrow> Inl e | Some (Inr y) \<Rightarrow> Inr (Some y))"

fun collect :: "('a \<Rightarrow> ('b, 'e) Result) \<Rightarrow> 'a list \<Rightarrow> ('b list, 'e) Result" where
  "collect f [] = Inr []"
| "collect f (x # xs) = and_then (f x) (\<lambda>y. and_then (collect f xs) (\<lambda>ys. Inr (y # ys)))"

lemma and_then_simps [simp]: "and_then (Inr x) f = f x" "and_then (Inl e) f = Inl e"
  by (simp_all add: and_then_def)

lemma and_then_Inr: "and_then m f = Inr y \<longleftrightarrow> (\<exists>x. m = Inr x \<and> f x = Inr y)"
  by (cases m) auto

lemma and_then_Inl: "and_then m f = Inl e \<longleftrightarrow> m = Inl e \<or> (\<exists>x. m = Inr x \<and> f x = Inl e)"
  by (cases m) auto

lemma map_sum_Inr: "map_sum f id x = Inr y \<longleftrightarrow> x = Inr y"
  by (cases x) auto

lemma ok_or_simps [simp]: "ok_or e None = Inl e" "ok_or e (Some x) = Inr x" "ok_or e z = Inr y \<longleftrightarrow> z = Some y"
  by (auto simp: ok_or_def split: option.splits)

lemma transpose_opt_simps [simp]:
  "transpose_opt None = Inr None" "transpose_opt (Some (Inl e)) = Inl e"
  "transpose_opt (Some (Inr y)) = Inr (Some y)"
  by (simp_all add: transpose_opt_def)

lemma transpose_opt_Inr:
  "transpose_opt z = Inr y \<longleftrightarrow> (case z of None \<Rightarrow> y = None | Some r \<Rightarrow> \<exists>x. r = Inr x \<and> y = Some x)"
  by (auto simp: transpose_opt_def split: option.splits sum.splits)

lemma collect_all_ok: "(\<And>x. x \<in> set xs \<Longrightarrow> f x = Inr (g x)) \<Longrightarrow> collect f xs = Inr (map g xs)"
  by (induction xs) auto

declare ok_or_def [eval_simps] transpose_opt_def [eval_simps]

subsection \<open>In-place update of the first matching element\<close>

text \<open>\<open>iter_mut().find(p)\<close> followed by an assignment through the returned reference.\<close>

fun update_first :: "('a \<Rightarrow> bool) \<Rightarrow> ('a \<Rightarrow> 'a) \<Rightarrow> 'a list \<Rightarrow> 'a list" where
  "update_first p f [] = []"
| "update_first p f (x # xs) = (if p x then f x # xs else x # update_first p f xs)"

lemma length_update_first [simp]: "length (update_first p f xs) = length xs"
  by (induction xs) auto

lemma update_first_none: "\<not> (\<exists>x \<in> set xs. p x) \<Longrightarrow> update_first p f xs = xs"
  by (induction xs) auto

lemma map_update_first:
  "(\<And>x. p x \<Longrightarrow> g (f x) = g x) \<Longrightarrow> map g (update_first p f xs) = map g xs"
  by (induction xs) auto

lemma set_update_first:
  "set (update_first p f xs) \<subseteq> set xs \<union> f ` {x \<in> set xs. p x}"
  by (induction xs) auto

lemma update_first_ballI:
  assumes "\<And>x. x \<in> set xs \<Longrightarrow> P x" and "\<And>x. x \<in> set xs \<Longrightarrow> p x \<Longrightarrow> List.find p xs = Some x \<Longrightarrow> P (f x)"
  shows "\<And>y. y \<in> set (update_first p f xs) \<Longrightarrow> P y"
  using assms by (induction xs) (auto split: if_splits)

lemma update_first_map:
  assumes "distinct (map k xs)" and "\<And>x. p x \<longleftrightarrow> k x = key"
  shows "update_first p f xs = map (\<lambda>x. if k x = key then f x else x) xs"
  using assms
proof (induction xs)
  case (Cons x xs)
  have "map (\<lambda>x. if k x = key then f x else x) xs = xs" if "k x = key"
  proof (rule map_idI)
    fix y assume "y \<in> set xs"
    moreover from Cons.prems(1) that have "key \<notin> k ` set xs" by auto
    ultimately have "k y \<noteq> key" by blast
    then show "(if k y = key then f y else y) = y" by simp
  qed
  with Cons show ?case by auto
qed simp

lemma find_update_first_other:
  assumes "\<And>x. p x \<Longrightarrow> \<not> q x" and "\<And>x. p x \<Longrightarrow> \<not> q (f x)"
  shows "List.find q (update_first p f xs) = List.find q xs"
  using assms by (induction xs) auto

lemma find_update_first_same:
  assumes "\<And>x. p x \<Longrightarrow> p (f x)"
  shows "List.find p (update_first p f xs) = map_option f (List.find p xs)"
  using assms by (induction xs) auto

lemma find_Some_set: "List.find p xs = Some x \<Longrightarrow> x \<in> set xs \<and> p x"
  by (induction xs) (auto split: if_splits)

lemma find_None_iff': "List.find p xs = None \<longleftrightarrow> (\<forall>x \<in> set xs. \<not> p x)"
  by (induction xs) auto

lemma find_key_distinct:
  assumes "distinct (map k xs)" and "x \<in> set xs"
  shows "List.find (\<lambda>y. k y = k x) xs = Some x"
  using assms by (induction xs) (auto split: if_splits)

lemma sorted_wrt_take_drop: "sorted_wrt P xs \<Longrightarrow> a \<in> set (take n xs) \<Longrightarrow> b \<in> set (drop n xs) \<Longrightarrow> P a b"
  by (metis append_take_drop_id sorted_wrt_append)

lemma find_append:
  "List.find p (xs @ ys) = (case List.find p xs of Some x \<Rightarrow> Some x | None \<Rightarrow> List.find p ys)"
  by (induction xs) auto

subsection \<open>Tables with a primary key\<close>

text \<open>
  A database table is the list of its rows in insertion order. \<open>tbl_get\<close> is a point query on
  the primary key, \<open>tbl_update\<close> an \<open>UPDATE ... WHERE key = k\<close>, \<open>tbl_delete\<close> a
  \<open>DELETE ... WHERE p\<close>, and an insertion appends. \<open>key_unique\<close> is the primary-key constraint.
\<close>

definition tbl_get :: "('r \<Rightarrow> 'k) \<Rightarrow> 'k \<Rightarrow> 'r list \<Rightarrow> 'r option" where
  "tbl_get key k t = List.find (\<lambda>r. key r = k) t"

definition tbl_update :: "('r \<Rightarrow> 'k) \<Rightarrow> 'k \<Rightarrow> ('r \<Rightarrow> 'r) \<Rightarrow> 'r list \<Rightarrow> 'r list" where
  "tbl_update key k f t = map (\<lambda>r. if key r = k then f r else r) t"

definition tbl_delete :: "('r \<Rightarrow> bool) \<Rightarrow> 'r list \<Rightarrow> 'r list" where
  "tbl_delete p t = filter (\<lambda>r. \<not> p r) t"

text \<open>\<open>UPDATE ... WHERE p\<close> and the number of rows it changes.\<close>

definition sql_update :: "('r \<Rightarrow> bool) \<Rightarrow> ('r \<Rightarrow> 'r) \<Rightarrow> 'r list \<Rightarrow> 'r list" where
  "sql_update p f t = map (\<lambda>r. if p r then f r else r) t"

definition sql_changes :: "('r \<Rightarrow> bool) \<Rightarrow> 'r list \<Rightarrow> nat" where
  "sql_changes p t = length (filter p t)"

text \<open>
  \<open>INTEGER\<close> columns are signed 64-bit: \<open>rusqlite\<close> refuses to bind an unsigned value above
  \<open>i64::MAX\<close> and to read a negative value as unsigned.
\<close>

definition u64_to_sql :: "u64 \<Rightarrow> int option" where
  "u64_to_sql w = (if uint w < 2 ^ 63 then Some (uint w) else None)"

definition u64_from_sql :: "int \<Rightarrow> u64 option" where
  "u64_from_sql i = (if 0 \<le> i then Some (word_of_int i) else None)"

definition key_unique :: "('r \<Rightarrow> 'k) \<Rightarrow> 'r list \<Rightarrow> bool" where
  "key_unique key t = distinct (map key t)"

declare tbl_get_def [eval_simps] tbl_update_def [eval_simps] tbl_delete_def [eval_simps]
  sql_update_def [eval_simps] sql_changes_def [eval_simps] u64_to_sql_def [eval_simps]
  u64_from_sql_def [eval_simps]

lemma u64_sql_roundtrip: "u64_to_sql w = Some i \<Longrightarrow> u64_from_sql i = Some w"
  by (auto simp: u64_to_sql_def u64_from_sql_def split: if_splits)

lemma u64_to_sql_Some: "u64_to_sql w = Some i \<Longrightarrow> i = uint w"
  by (auto simp: u64_to_sql_def split: if_splits)

lemma u64_to_sql_bounds: "u64_to_sql w = Some i \<Longrightarrow> 0 \<le> i \<and> i < 9223372036854775808"
  by (auto simp: u64_to_sql_def split: if_splits)

lemma u64_from_sql_Some: "u64_from_sql i = Some w \<Longrightarrow> i < 9223372036854775808 \<Longrightarrow> uint w = i"
  by (auto simp: u64_from_sql_def uint_word_of_int split: if_splits)

lemma tbl_get_sql_update [table_simps]:
  assumes "\<And>r. key (f r) = key r"
  shows "tbl_get key k (sql_update p f t) = map_option (\<lambda>r. if p r then f r else r) (tbl_get key k t)"
  using assms by (induction t) (auto simp: tbl_get_def sql_update_def)

lemma key_unique_sql_update:
  assumes "\<And>r. key (f r) = key r" and "key_unique key t"
  shows "key_unique key (sql_update p f t)"
proof -
  have "map key (sql_update p f t) = map key t"
    using assms(1) by (simp add: sql_update_def)
  with assms(2) show ?thesis by (simp add: key_unique_def)
qed

lemma sql_changes_key:
  assumes "key_unique key t"
  shows "sql_changes (\<lambda>r. key r = k \<and> q r) t =
     (case tbl_get key k t of Some r \<Rightarrow> if q r then 1 else 0 | None \<Rightarrow> 0)"
  using assms
proof (induction t)
  case (Cons a t)
  have "List.find (\<lambda>r. key r = key a) t = None"
    using Cons.prems by (auto simp: key_unique_def find_None_iff' image_iff dest: sym)
  with Cons show ?case
    by (auto simp: sql_changes_def tbl_get_def key_unique_def)
qed (simp add: sql_changes_def tbl_get_def)

lemma sql_update_none: "sql_changes p t = 0 \<Longrightarrow> sql_update p f t = t"
  by (auto simp: sql_changes_def sql_update_def filter_empty_conv intro: map_idI)

lemma set_sql_updateE:
  assumes "r \<in> set (sql_update p f t)"
  obtains x where "x \<in> set t" "r = (if p x then f x else x)"
  using assms by (auto simp: sql_update_def)

lemma sql_update_ball:
  assumes "\<forall>r \<in> set t. R r" and "\<And>r. R r \<Longrightarrow> p r \<Longrightarrow> R (f r)"
  shows "\<forall>r \<in> set (sql_update p f t). R r"
  using assms by (auto simp: sql_update_def)

lemma tbl_get_Nil [simp]: "tbl_get key k [] = None"
  by (simp add: tbl_get_def)

lemma tbl_get_None: "tbl_get key k t = None \<longleftrightarrow> k \<notin> key ` set t"
  by (auto simp: tbl_get_def find_None_iff')

lemma tbl_get_SomeD: "tbl_get key k t = Some r \<Longrightarrow> r \<in> set t \<and> key r = k"
  by (auto simp: tbl_get_def dest: find_Some_set)

lemma tbl_get_SomeI: "key_unique key t \<Longrightarrow> r \<in> set t \<Longrightarrow> tbl_get key (key r) t = Some r"
  by (simp add: tbl_get_def key_unique_def find_key_distinct)

lemma tbl_get_insert [table_simps]:
  "tbl_get key k (t @ [r]) = (case tbl_get key k t of Some x \<Rightarrow> Some x
     | None \<Rightarrow> if key r = k then Some r else None)"
  by (auto simp: tbl_get_def find_append split: option.splits)

lemma tbl_get_update [table_simps]:
  assumes "\<And>r. key (f r) = key r"
  shows "tbl_get key k (tbl_update key k' f t) =
     (if k = k' then map_option f (tbl_get key k t) else tbl_get key k t)"
  using assms by (induction t) (auto simp: tbl_get_def tbl_update_def)

lemma tbl_get_delete_key [table_simps]:
  "tbl_get key k (tbl_delete (\<lambda>r. key r = k') t) = (if k = k' then None else tbl_get key k t)"
  by (induction t) (auto simp: tbl_get_def tbl_delete_def)

lemma key_unique_Nil [simp]: "key_unique key []"
  by (simp add: key_unique_def)

lemma key_unique_insert:
  "key_unique key t \<Longrightarrow> tbl_get key (key r) t = None \<Longrightarrow> key_unique key (t @ [r])"
  by (auto simp: key_unique_def tbl_get_None)

lemma key_unique_update:
  assumes "\<And>r. key (f r) = key r" and "key_unique key t"
  shows "key_unique key (tbl_update key k f t)"
proof -
  have "map key (tbl_update key k f t) = map key t"
    using assms(1) by (simp add: tbl_update_def)
  with assms(2) show ?thesis by (simp add: key_unique_def)
qed

lemma key_unique_delete: "key_unique key t \<Longrightarrow> key_unique key (tbl_delete p t)"
  by (simp add: key_unique_def tbl_delete_def distinct_map_filter)

lemma set_tbl_update: "set (tbl_update key k f t) = (\<lambda>r. if key r = k then f r else r) ` set t"
  by (simp add: tbl_update_def)

lemma set_tbl_updateE:
  assumes "r \<in> set (tbl_update key k f t)"
  obtains x where "x \<in> set t" "r = (if key x = k then f x else x)"
  using assms by (auto simp: tbl_update_def)

lemma image_key_tbl_update:
  assumes "\<And>r. key' (f r) = key' r"
  shows "key' ` set (tbl_update key k f t) = key' ` set t"
  using assms by (induction t) (simp_all add: tbl_update_def)

lemma image_key_sql_update:
  assumes "\<And>r. key (f r) = key r"
  shows "key ` set (sql_update p f t) = key ` set t"
  using assms by (induction t) (simp_all add: sql_update_def)

lemma key_unique_tbl_update_other:
  assumes "\<And>r. key' (f r) = key' r" and "key_unique key' t"
  shows "key_unique key' (tbl_update key k f t)"
proof -
  have "map key' (tbl_update key k f t) = map key' t"
    using assms(1) by (simp add: tbl_update_def)
  with assms(2) show ?thesis by (simp add: key_unique_def)
qed

lemma set_tbl_delete [simp]: "set (tbl_delete p t) = {r \<in> set t. \<not> p r}"
  by (auto simp: tbl_delete_def)

lemma tbl_get_delete:
  assumes "key_unique key t"
  shows "tbl_get key k (tbl_delete p t) =
    (case tbl_get key k t of Some r \<Rightarrow> if p r then None else Some r | None \<Rightarrow> None)"
proof (cases "tbl_get key k t")
  case None
  then have "k \<notin> key ` set (tbl_delete p t)" by (auto simp: tbl_get_None)
  then have "tbl_get key k (tbl_delete p t) = None" by (simp only: tbl_get_None) simp
  with None show ?thesis by simp
next
  case (Some r)
  have r: "r \<in> set t" "key r = k" using Some by (auto dest: tbl_get_SomeD)
  show ?thesis
  proof (cases "p r")
    case True
    have "k \<notin> key ` set (tbl_delete p t)"
    proof
      assume "k \<in> key ` set (tbl_delete p t)"
      then obtain x where "x \<in> set t" "\<not> p x" "key x = k" by auto
      with tbl_get_SomeI [OF assms, of x] Some True show False by simp
    qed
    with True Some show ?thesis by (simp add: tbl_get_None)
  next
    case False
    with r tbl_get_SomeI [OF key_unique_delete [OF assms], of r p] Some show ?thesis by simp
  qed
qed

lemma find_refined:
  assumes "key_unique key t" and "tbl_get key k t = Some r"
  shows "List.find (\<lambda>x. key x = k \<and> q x) t = (if q r then Some r else None)"
  using assms
proof (induction t)
  case (Cons a t)
  have "List.find (\<lambda>x. key x = k \<and> q x) t = None" if "key a = k"
    using Cons.prems(1) that by (auto simp: key_unique_def find_None_iff' image_iff dest: sym)
  with Cons show ?case by (auto simp: tbl_get_def key_unique_def split: if_splits)
qed simp

lemmas key_unique_intros = key_unique_insert key_unique_sql_update key_unique_update key_unique_delete

subsection \<open>Interfaces: systems driven by a sequence of operations\<close>

text \<open>
  \<open>run step s ops\<close> is the state after the operations \<open>ops\<close>, and \<open>grants\<close> the keys that an
  operation of the run was granted, in order.
\<close>

abbreviation run :: "('s \<Rightarrow> 'op \<Rightarrow> 's) \<Rightarrow> 's \<Rightarrow> 'op list \<Rightarrow> 's" where
  "run step s ops \<equiv> foldl step s ops"

fun grants :: "('s \<Rightarrow> 'op \<Rightarrow> 's) \<Rightarrow> ('s \<Rightarrow> 'op \<Rightarrow> 'k option) \<Rightarrow> 's \<Rightarrow> 'op list \<Rightarrow> 'k list" where
  "grants step g s [] = []"
| "grants step g s (op # ops) =
     (case g s op of None \<Rightarrow> [] | Some k \<Rightarrow> [k]) @ grants step g (step s op) ops"

lemma distinct_count_list: "distinct xs \<Longrightarrow> count_list xs k = (if k \<in> set xs then 1 else 0)"
  by (induction xs) (auto simp: count_list_0_iff)

text \<open>A component whose operations all keep an invariant.\<close>

locale op_system =
  fixes step :: "'s \<Rightarrow> 'op \<Rightarrow> 's"
    and inv :: "'s \<Rightarrow> bool"
  assumes inv_step: "inv s \<Longrightarrow> inv (step s op)"
begin

lemma inv_run: "inv s \<Longrightarrow> inv (run step s ops)"
  by (induction ops arbitrary: s) (auto intro: inv_step)

lemma inv_run_rel:
  assumes "inv s" and "P s"
    and "\<And>s op. inv s \<Longrightarrow> P s \<Longrightarrow> P (step s op)"
  shows "P (run step s ops)"
  using assms(1,2) by (induction ops arbitrary: s) (auto intro: inv_step assms(3))

end

text \<open>
  Admission control: an operation may be granted a key, a granted key was free before and is
  taken afterwards, and no operation frees a key. Then no run grants a key twice.
\<close>

locale at_most_once = op_system step inv
  for step :: "'s \<Rightarrow> 'op \<Rightarrow> 's" and inv :: "'s \<Rightarrow> bool" +
  fixes granted :: "'s \<Rightarrow> 'op \<Rightarrow> 'k option"
    and used :: "'s \<Rightarrow> 'k \<Rightarrow> bool"
  assumes granted_fresh: "inv s \<Longrightarrow> granted s op = Some k \<Longrightarrow> \<not> used s k"
    and granted_used: "inv s \<Longrightarrow> granted s op = Some k \<Longrightarrow> used (step s op) k"
    and used_mono: "inv s \<Longrightarrow> used s k \<Longrightarrow> used (step s op) k"
begin

lemma used_not_granted: "inv s \<Longrightarrow> used s k \<Longrightarrow> k \<notin> set (grants step granted s ops)"
proof (induction ops arbitrary: s)
  case (Cons op ops)
  then have "k \<notin> set (grants step granted (step s op) ops)"
    by (blast intro: inv_step used_mono)
  moreover have "granted s op \<noteq> Some k"
    using Cons.prems granted_fresh by blast
  ultimately show ?case by (auto split: option.splits)
qed simp

lemma grants_distinct: "inv s \<Longrightarrow> distinct (grants step granted s ops)"
proof (induction ops arbitrary: s)
  case (Cons op ops)
  then have "distinct (grants step granted (step s op) ops)"
    by (blast intro: inv_step)
  moreover have "k \<notin> set (grants step granted (step s op) ops)" if "granted s op = Some k" for k
    using used_not_granted [OF inv_step granted_used] that Cons.prems by blast
  ultimately show ?case by (auto split: option.splits)
qed simp

end

text \<open>Outcomes that no later operation may change.\<close>

locale final_outcomes = op_system step inv
  for step :: "'s \<Rightarrow> 'op \<Rightarrow> 's" and inv :: "'s \<Rightarrow> bool" +
  fixes outcome :: "'s \<Rightarrow> 'k \<Rightarrow> 'v option"
  assumes outcome_kept: "inv s \<Longrightarrow> outcome s k = Some v \<Longrightarrow> outcome (step s op) k = Some v"
begin

lemma outcome_run: "inv s \<Longrightarrow> outcome s k = Some v \<Longrightarrow> outcome (run step s ops) k = Some v"
  by (rule inv_run_rel [where P = "\<lambda>s. outcome s k = Some v"]) (auto intro: outcome_kept)

end

text \<open>A transition table with terminal states.\<close>

locale lifecycle =
  fixes can :: "'st \<Rightarrow> 'st \<Rightarrow> bool"
    and terminal :: "'st \<Rightarrow> bool"
    and rank :: "'st \<Rightarrow> nat"
  assumes terminal_stuck: "terminal s \<Longrightarrow> \<not> can s t"
    and progress: "\<not> terminal s \<Longrightarrow> \<exists>t. can s t"
    and can_rank: "can s t \<Longrightarrow> rank s < rank t"
begin

lemma terminal_iff: "terminal s \<longleftrightarrow> (\<forall>t. \<not> can s t)"
  using terminal_stuck progress by blast

lemma terminal_reach: "can\<^sup>*\<^sup>* s t \<Longrightarrow> terminal s \<Longrightarrow> t = s"
  by (induction rule: converse_rtranclp_induct) (auto dest: terminal_stuck)

lemma reach_rank: "can\<^sup>*\<^sup>* s t \<Longrightarrow> s \<noteq> t \<Longrightarrow> rank s < rank t"
proof (induction rule: rtranclp_induct)
  case (step y z)
  then show ?case using can_rank [of y z] by (cases "s = y") auto
qed simp

lemma reach_antisym: "can\<^sup>*\<^sup>* s t \<Longrightarrow> can\<^sup>*\<^sup>* t s \<Longrightarrow> s = t"
  by (metis less_asym reach_rank)

end

end
