(* ===== verification/Instance_Cell.thy ===== *)
theory Instance_Cell
  imports Rust_Prelude
begin

section \<open>The durable instance cell (\<open>management/src/celld/model.rs\<close>)\<close>

text \<open>
  An \<open>InstanceCell\<close> is the coordination record of one logical instance: its desired lifecycle
  state, its generation, the effects accepted for it and an event history. The operations are
  those of \<open>impl InstanceCell\<close>; each returns the error of the source or the updated cell.

  RFC 8785 canonicalisation, SHA-256 and timestamp rendering are library code: the record
  \<open>cell_env\<close> carries them as parameters. A \<open>stamp\<close> is the UUID and the clock reading that
  \<open>record_event\<close> takes; an operation that records several events takes them from a sequence.
\<close>

subsection \<open>Data\<close>

definition MAX_EFFECTS :: nat where "MAX_EFFECTS = 1000"
definition MAX_HISTORY :: nat where "MAX_HISTORY = 10000"

datatype LifecycleState =
    Requested | Provisioning | Enrolling | Ready | Stopping | Stopped | Failed | Unknown | Destroyed

datatype CellAction = Provision | Start | Stop | Destroy | Observe | Repair

datatype EffectStatus = Pending | Dispatched | Unknown | Succeeded | Failed | Rejected

fun is_terminal :: "EffectStatus \<Rightarrow> bool" where
  "is_terminal Succeeded = True"
| "is_terminal EffectStatus.Failed = True"
| "is_terminal Rejected = True"
| "is_terminal _ = False"

text \<open>The serde names (\<open>rename_all = "snake_case"\<close>) used inside JSON evidence.\<close>

fun action_json :: "CellAction \<Rightarrow> json" where
  "action_json Provision = JStr ''provision''"
| "action_json Start = JStr ''start''"
| "action_json Stop = JStr ''stop''"
| "action_json Destroy = JStr ''destroy''"
| "action_json Observe = JStr ''observe''"
| "action_json Repair = JStr ''repair''"

fun status_json :: "EffectStatus \<Rightarrow> json" where
  "status_json Pending = JStr ''pending''"
| "status_json Dispatched = JStr ''dispatched''"
| "status_json EffectStatus.Unknown = JStr ''unknown''"
| "status_json Succeeded = JStr ''succeeded''"
| "status_json EffectStatus.Failed = JStr ''failed''"
| "status_json Rejected = JStr ''rejected''"

record CellCommand =
  cmd_document_type :: string
  cmd_schema_version :: string
  cmd_operation_id :: string
  cmd_instance_id :: string
  cmd_generation :: u64
  cmd_action :: CellAction
  cmd_request_hash :: string
  cmd_issued_at :: timestamp
  cmd_payload :: "(string \<times> json) list"

record ManagementObservation =
  obs_generation :: u64
  obs_runtime_state :: string
  obs_agent_state :: string
  obs_runtime_id :: "string option"
  obs_provider :: "string option"
  obs_observed_at :: timestamp

record EffectRecord =
  eff_operation_id :: string
  eff_request_hash :: string
  eff_action :: CellAction
  eff_generation :: u64
  eff_payload :: "(string \<times> json) list"
  eff_status :: EffectStatus
  eff_attempts :: u32
  eff_retry_at :: "timestamp option"
  eff_terminal_code :: "string option"
  eff_management_operation_id :: "string option"

datatype CellEventKind =
    CommandAccepted | EffectDispatched | EffectUnknown | EffectTerminal
  | ObservationRecorded | DivergenceDetected | RepairApplied | Tombstoned

record CellEvent =
  ev_document_type :: string
  ev_schema_version :: string
  ev_event_id :: string
  ev_instance_id :: string
  ev_operation_id :: "string option"
  ev_generation :: u64
  ev_sequence :: u64
  ev_kind :: CellEventKind
  ev_from_state :: "LifecycleState option"
  ev_to_state :: "LifecycleState option"
  ev_code :: "string option"
  ev_recorded_at :: timestamp
  ev_evidence :: "(string \<times> json) list"

record InstanceCell =
  document_type :: string
  schema_version :: string
  instance_id :: string
  generation :: u64
  desired_state :: LifecycleState
  observation :: "ManagementObservation option"
  effects :: "EffectRecord list"
  history_sequence :: u64
  tombstone_until :: "timestamp option"
  updated_at :: timestamp
  history :: "CellEvent list"

datatype CommandDisposition = Accepted | Replayed EffectStatus

datatype ReconcileClassification =
    Converged | EffectPending | OutcomeUnknown | DesiredObservedDivergence
  | CellGenerationStale | ObservationStale | Tombstoned

record ReconcileResult =
  res_classification :: ReconcileClassification
  res_instance_id :: string
  res_generation :: u64
  res_desired_state :: LifecycleState
  res_observed_runtime_state :: "string option"
  res_outstanding_operations :: "string list"
  res_repair :: "string option"

datatype CellError =
    MissingInstanceId
  | MissingOperationId
  | InvalidGeneration
  | InstanceMismatch
  | StaleGeneration u64 u64
  | FutureGeneration u64 u64
  | OperationCollision
  | RequestHashMismatch
  | PayloadNotObject
  | Canonicalization string
  | InvalidTransition LifecycleState CellAction
  | OperationNotFound string
  | OperationTerminal string
  | EffectGenerationFenced string u64 u64
  | EffectLimit
  | StaleObservation

record cell_env =
  env_jcs :: "json \<Rightarrow> string + string"
  env_sha256_hex :: "string \<Rightarrow> string"
  env_ts :: "timestamp \<Rightarrow> string"

type_synonym stamp = "string \<times> timestamp"

abbreviation days30 :: int where "days30 \<equiv> 30 * 86400 * 10 ^ 9"

subsection \<open>Commands\<close>

definition canonical_request_hash ::
  "cell_env \<Rightarrow> string \<Rightarrow> string \<Rightarrow> u64 \<Rightarrow> CellAction \<Rightarrow> (string \<times> json) list \<Rightarrow> CellError + string" where
  "canonical_request_hash env op inst gen action payload =
     (case env_jcs env (JObj [(''action'', action_json action),
                              (''generation'', JInt (uint gen)),
                              (''instance_id'', JStr inst),
                              (''operation_id'', JStr op),
                              (''payload'', JObj payload)]) of
        Inl err \<Rightarrow> Inl (Canonicalization err)
      | Inr canonical \<Rightarrow> Inr (env_sha256_hex env canonical))"

definition CellCommand_new ::
  "cell_env \<Rightarrow> timestamp \<Rightarrow> string \<Rightarrow> string \<Rightarrow> u64 \<Rightarrow> CellAction \<Rightarrow> json \<Rightarrow> CellError + CellCommand" where
  "CellCommand_new env now op inst gen action payload =
     (case payload of
        JObj obj \<Rightarrow>
          (case canonical_request_hash env op inst gen action obj of
             Inl e \<Rightarrow> Inl e
           | Inr hash \<Rightarrow> Inr \<lparr>cmd_document_type = ''instance-cell-command'', cmd_schema_version = ''1'',
               cmd_operation_id = op, cmd_instance_id = inst, cmd_generation = gen,
               cmd_action = action, cmd_request_hash = hash, cmd_issued_at = now,
               cmd_payload = obj\<rparr>)
      | _ \<Rightarrow> Inl PayloadNotObject)"

definition verify_hash :: "cell_env \<Rightarrow> CellCommand \<Rightarrow> CellError + unit" where
  "verify_hash env cmd =
     (case canonical_request_hash env (cmd_operation_id cmd) (cmd_instance_id cmd)
             (cmd_generation cmd) (cmd_action cmd) (cmd_payload cmd) of
        Inl e \<Rightarrow> Inl e
      | Inr actual \<Rightarrow> if actual \<noteq> cmd_request_hash cmd then Inl RequestHashMismatch else Inr ())"

definition validate_identifier :: "string \<Rightarrow> bool" where
  "validate_identifier v =
     (v \<noteq> [] \<and> length v \<le> 128 \<and> is_ascii_alphanumeric (hd v) \<and>
      list_all (\<lambda>b. is_ascii_alphanumeric b \<or> b \<in> {CHR ''.'', CHR ''_'', CHR '':'', CHR ''-''}) v)"

definition command_validate :: "cell_env \<Rightarrow> CellCommand \<Rightarrow> CellError + unit" where
  "command_validate env cmd =
     (if \<not> validate_identifier (cmd_operation_id cmd) then Inl MissingOperationId
      else if \<not> validate_identifier (cmd_instance_id cmd) then Inl MissingInstanceId
      else if cmd_generation cmd = 0 then Inl InvalidGeneration
      else verify_hash env cmd)"

definition to_command :: "cell_env \<Rightarrow> timestamp \<Rightarrow> EffectRecord \<Rightarrow> string \<Rightarrow> CellError + CellCommand" where
  "to_command env now eff inst =
     (let command = \<lparr>cmd_document_type = ''instance-cell-command'', cmd_schema_version = ''1'',
            cmd_operation_id = eff_operation_id eff, cmd_instance_id = inst,
            cmd_generation = eff_generation eff, cmd_action = eff_action eff,
            cmd_request_hash = eff_request_hash eff, cmd_issued_at = now,
            cmd_payload = eff_payload eff\<rparr>
      in case verify_hash env command of Inl e \<Rightarrow> Inl e | Inr _ \<Rightarrow> Inr command)"

subsection \<open>Desired state\<close>

fun next_desired_state :: "LifecycleState \<Rightarrow> CellAction \<Rightarrow> CellError + LifecycleState" where
  "next_desired_state current action =
     (case action of
        Provision \<Rightarrow> if current \<in> {Requested, Stopped, LifecycleState.Failed} then Inr Provisioning
                     else Inl (InvalidTransition current action)
      | Start \<Rightarrow> if current \<in> {Stopped, LifecycleState.Failed} then Inr Provisioning
                 else Inl (InvalidTransition current action)
      | Stop \<Rightarrow> if current \<in> {Provisioning, Enrolling, Ready, LifecycleState.Unknown} then Inr Stopping
                else Inl (InvalidTransition current action)
      | Destroy \<Rightarrow> if current \<noteq> Destroyed then Inr Stopping else Inl (InvalidTransition current action)
      | Observe \<Rightarrow> Inr current
      | Repair \<Rightarrow> if current \<noteq> Destroyed then Inr LifecycleState.Unknown
                  else Inl (InvalidTransition current action))"

fun terminal_desired_state :: "CellAction \<Rightarrow> EffectStatus \<Rightarrow> LifecycleState \<Rightarrow> LifecycleState" where
  "terminal_desired_state action status current =
     (if action \<in> {Provision, Start} \<and> status = Succeeded then Enrolling
      else if action = Stop \<and> status = Succeeded then Stopped
      else if action = Destroy \<and> status = Succeeded then Destroyed
      else if status \<in> {EffectStatus.Failed, Rejected} then LifecycleState.Failed
      else current)"

definition observation_matches_desired :: "LifecycleState \<Rightarrow> ManagementObservation option \<Rightarrow> bool" where
  "observation_matches_desired desired obs =
     (case obs of
        None \<Rightarrow> desired = Requested
      | Some ob \<Rightarrow>
          (case desired of
             Requested \<Rightarrow> obs_runtime_state ob = ''absent''
           | Provisioning \<Rightarrow> obs_runtime_state ob \<in> {''pending'', ''provisioning''}
           | Enrolling \<Rightarrow> obs_runtime_state ob = ''ready'' \<and> obs_agent_state ob \<noteq> ''ready''
           | Ready \<Rightarrow> obs_runtime_state ob = ''ready'' \<and> obs_agent_state ob = ''ready''
           | Stopping \<Rightarrow> obs_runtime_state ob = ''stopping''
           | Stopped \<Rightarrow> obs_runtime_state ob = ''stopped''
           | LifecycleState.Failed \<Rightarrow> obs_runtime_state ob = ''failed''
           | LifecycleState.Unknown \<Rightarrow> False
           | Destroyed \<Rightarrow> obs_runtime_state ob = ''destroyed''))"

subsection \<open>Operations of the cell\<close>

definition InstanceCell_new :: "timestamp \<Rightarrow> string \<Rightarrow> u64 \<Rightarrow> CellError + InstanceCell" where
  "InstanceCell_new now inst gen =
     (if trim inst = [] then Inl MissingInstanceId
      else if gen = 0 then Inl InvalidGeneration
      else Inr \<lparr>document_type = ''instance-cell-state'', schema_version = ''1'', instance_id = inst,
             generation = gen, desired_state = Requested, observation = None, effects = [],
             history_sequence = 0, tombstone_until = None, updated_at = now, history = []\<rparr>)"

definition record_event ::
  "stamp \<Rightarrow> InstanceCell \<Rightarrow> string option \<Rightarrow> CellEventKind \<Rightarrow> LifecycleState option \<Rightarrow>
   LifecycleState option \<Rightarrow> string option \<Rightarrow> json \<Rightarrow> InstanceCell" where
  "record_event st c op kind from to code evidence =
     (let seq = saturating_add (history_sequence c) 1;
          ev = \<lparr>ev_document_type = ''instance-cell-event'', ev_schema_version = ''1'',
                ev_event_id = ''evt_'' @ fst st, ev_instance_id = instance_id c,
                ev_operation_id = op, ev_generation = generation c, ev_sequence = seq,
                ev_kind = kind, ev_from_state = from, ev_to_state = to, ev_code = code,
                ev_recorded_at = snd st,
                ev_evidence = (case evidence of JObj kvs \<Rightarrow> kvs | _ \<Rightarrow> [])\<rparr>;
          h = history c @ [ev]
      in c\<lparr>history_sequence := seq, updated_at := snd st,
           history := (if length h > MAX_HISTORY then drop (length h - MAX_HISTORY) h else h)\<rparr>)"

definition find_effect :: "string \<Rightarrow> InstanceCell \<Rightarrow> EffectRecord option" where
  "find_effect op c = List.find (\<lambda>e. eff_operation_id e = op) (effects c)"

text \<open>\<open>effect_mut\<close> followed by an assignment to the effect it returns.\<close>

definition effect_mut :: "string \<Rightarrow> (EffectRecord \<Rightarrow> EffectRecord) \<Rightarrow> InstanceCell \<Rightarrow> InstanceCell" where
  "effect_mut op f c = c\<lparr>effects := update_first (\<lambda>e. eff_operation_id e = op) f (effects c)\<rparr>"

definition accept ::
  "cell_env \<Rightarrow> stamp \<Rightarrow> InstanceCell \<Rightarrow> CellCommand \<Rightarrow> CellError + CommandDisposition \<times> InstanceCell" where
  "accept env st c cmd =
     (case command_validate env cmd of Inl e \<Rightarrow> Inl e | Inr _ \<Rightarrow>
      if cmd_instance_id cmd \<noteq> instance_id c then Inl InstanceMismatch
      else if cmd_generation cmd < generation c
        then Inl (StaleGeneration (cmd_generation cmd) (generation c))
      else if cmd_generation cmd > generation c
        then Inl (FutureGeneration (cmd_generation cmd) (generation c))
      else (case find_effect (cmd_operation_id cmd) c of
        Some eff \<Rightarrow>
          if eff_request_hash eff \<noteq> cmd_request_hash cmd then Inl OperationCollision
          else Inr (Replayed (eff_status eff), c)
      | None \<Rightarrow>
          if length (effects c) \<ge> MAX_EFFECTS then Inl EffectLimit
          else (case next_desired_state (desired_state c) (cmd_action cmd) of
            Inl e \<Rightarrow> Inl e
          | Inr next_state \<Rightarrow>
              let previous = desired_state c;
                  eff = \<lparr>eff_operation_id = cmd_operation_id cmd,
                         eff_request_hash = cmd_request_hash cmd, eff_action = cmd_action cmd,
                         eff_generation = cmd_generation cmd, eff_payload = cmd_payload cmd,
                         eff_status = Pending, eff_attempts = 0, eff_retry_at = None,
                         eff_terminal_code = None, eff_management_operation_id = None\<rparr>
              in Inr (Accepted,
                   record_event st
                     (c\<lparr>desired_state := next_state, effects := effects c @ [eff]\<rparr>)
                     (Some (cmd_operation_id cmd)) CommandAccepted (Some previous) (Some next_state)
                     None
                     (JObj [(''action'', action_json (cmd_action cmd)),
                            (''request_hash'', JStr (cmd_request_hash cmd))])))))"

definition record_dispatched ::
  "stamp \<Rightarrow> InstanceCell \<Rightarrow> string \<Rightarrow> string option \<Rightarrow> CellError + InstanceCell" where
  "record_dispatched st c op mgmt =
     (case find_effect op c of
        None \<Rightarrow> Inl (OperationNotFound op)
      | Some eff \<Rightarrow>
          if eff_generation eff < generation c
            then Inl (EffectGenerationFenced op (eff_generation eff) (generation c))
          else if is_terminal (eff_status eff) then Inl (OperationTerminal op)
          else Inr (record_event st
                 (effect_mut op (\<lambda>e. e\<lparr>eff_status := Dispatched,
                    eff_attempts := saturating_add (eff_attempts e) 1,
                    eff_management_operation_id := mgmt, eff_retry_at := None\<rparr>) c)
                 (Some op) EffectDispatched None None None JNull))"

definition record_unknown ::
  "cell_env \<Rightarrow> timestamp \<Rightarrow> stamp \<Rightarrow> InstanceCell \<Rightarrow> string \<Rightarrow> int \<Rightarrow> string \<Rightarrow>
   CellError + InstanceCell" where
  "record_unknown env now st c op retry_after code =
     (let retry_at = now + retry_after in
      case find_effect op c of
        None \<Rightarrow> Inl (OperationNotFound op)
      | Some eff \<Rightarrow>
          if eff_generation eff < generation c
            then Inl (EffectGenerationFenced op (eff_generation eff) (generation c))
          else if is_terminal (eff_status eff) then Inl (OperationTerminal op)
          else Inr (record_event st
                 ((effect_mut op (\<lambda>e. e\<lparr>eff_status := EffectStatus.Unknown,
                     eff_retry_at := Some retry_at\<rparr>) c)\<lparr>desired_state := LifecycleState.Unknown\<rparr>)
                 (Some op) EffectUnknown None (Some LifecycleState.Unknown) (Some code)
                 (JObj [(''retry_at'', JStr (env_ts env retry_at))])))"

definition record_terminal ::
  "timestamp \<Rightarrow> stamp \<Rightarrow> InstanceCell \<Rightarrow> string \<Rightarrow> EffectStatus \<Rightarrow> string option \<Rightarrow>
   CellError + InstanceCell" where
  "record_terminal now st c op status code =
     (if \<not> is_terminal status then Inl (InvalidTransition (desired_state c) Repair)
      else case find_effect op c of
        None \<Rightarrow> Inl (OperationNotFound op)
      | Some eff \<Rightarrow>
          if is_terminal (eff_status eff) then
            (if eff_status eff = status \<and> eff_terminal_code eff = code then Inr c
             else Inl (OperationTerminal op))
          else
            let previous = desired_state c;
                c1 = effect_mut op (\<lambda>e. e\<lparr>eff_status := status, eff_retry_at := None,
                       eff_terminal_code := code\<rparr>) c;
                next_state = terminal_desired_state (eff_action eff) status (desired_state c1);
                c2 = c1\<lparr>desired_state := next_state\<rparr>;
                c3 = (if next_state = Destroyed then c2\<lparr>tombstone_until := Some (now + days30)\<rparr> else c2)
            in Inr (record_event st c3 (Some op)
                 (if desired_state c3 = Destroyed then CellEventKind.Tombstoned else EffectTerminal)
                 (Some previous) (Some (desired_state c3)) code
                 (JObj [(''status'', status_json status)])))"

text \<open>The effects that a newer management generation fences, and their rejection.\<close>

definition fence_pred :: "u64 \<Rightarrow> EffectRecord \<Rightarrow> bool" where
  "fence_pred new_generation e = (eff_generation e < new_generation \<and> \<not> is_terminal (eff_status e))"

definition fence_effect :: "EffectRecord \<Rightarrow> EffectRecord" where
  "fence_effect e = e\<lparr>eff_status := Rejected, eff_retry_at := None,
     eff_terminal_code := Some ''celld.stale_generation_fenced''\<rparr>"

fun record_fenced ::
  "(nat \<Rightarrow> stamp) \<Rightarrow> nat \<Rightarrow> u64 \<Rightarrow> (string \<times> u64) list \<Rightarrow> InstanceCell \<Rightarrow> InstanceCell" where
  "record_fenced st i new_generation [] c = c"
| "record_fenced st i new_generation ((op, g) # rest) c =
     record_fenced st (Suc i) new_generation rest
       (record_event (st i) c (Some op) EffectTerminal None (Some LifecycleState.Unknown)
          (Some ''celld.stale_generation_fenced'')
          (JObj [(''effect_generation'', JInt (uint g)),
                 (''observed_generation'', JInt (uint new_generation)),
                 (''status'', status_json Rejected)]))"

definition observe ::
  "timestamp \<Rightarrow> (nat \<Rightarrow> stamp) \<Rightarrow> InstanceCell \<Rightarrow> ManagementObservation \<Rightarrow> CellError + InstanceCell" where
  "observe now st c ob =
     (if obs_generation ob < generation c then Inl StaleObservation
      else
        let previous = desired_state c;
            new_generation = obs_generation ob;
            fenced = map (\<lambda>e. (eff_operation_id e, eff_generation e))
                       (filter (fence_pred new_generation) (effects c));
            c1 = (if new_generation > generation c then
                    record_fenced st 0 new_generation fenced
                      (c\<lparr>effects := map (\<lambda>e. if fence_pred new_generation e then fence_effect e else e)
                                     (effects c),
                         generation := new_generation,
                         desired_state := LifecycleState.Unknown\<rparr>)
                  else if obs_runtime_state ob = ''ready'' \<and> obs_agent_state ob = ''ready'' then
                    c\<lparr>desired_state := Ready\<rparr>
                  else if obs_runtime_state ob = ''stopped'' \<and>
                          desired_state c \<in> {Stopping, LifecycleState.Unknown} then
                    c\<lparr>desired_state := Stopped\<rparr>
                  else if obs_runtime_state ob = ''destroyed'' then
                    c\<lparr>desired_state := Destroyed,
                       tombstone_until := (case tombstone_until c of
                          None \<Rightarrow> Some (now + days30) | Some t \<Rightarrow> Some t)\<rparr>
                  else c)
        in Inr (record_event (st (length fenced)) (c1\<lparr>observation := Some ob\<rparr>) None
             ObservationRecorded (Some previous) (Some (desired_state c1)) None
             (JObj [(''agent_state'', JStr (obs_agent_state ob)),
                    (''observed_generation'', JInt (uint new_generation)),
                    (''runtime_state'', JStr (obs_runtime_state ob))])))"

text \<open>\<open>format!("{classification:?}")\<close>: the derived \<open>Debug\<close> name of the variant.\<close>

fun classification_debug :: "ReconcileClassification \<Rightarrow> string" where
  "classification_debug Converged = ''Converged''"
| "classification_debug EffectPending = ''EffectPending''"
| "classification_debug OutcomeUnknown = ''OutcomeUnknown''"
| "classification_debug DesiredObservedDivergence = ''DesiredObservedDivergence''"
| "classification_debug CellGenerationStale = ''CellGenerationStale''"
| "classification_debug ObservationStale = ''ObservationStale''"
| "classification_debug ReconcileClassification.Tombstoned = ''Tombstoned''"

definition outstanding :: "InstanceCell \<Rightarrow> string list" where
  "outstanding c = map eff_operation_id
     (filter (\<lambda>e. eff_generation e = generation c \<and> \<not> is_terminal (eff_status e)) (effects c))"

definition classify :: "InstanceCell \<Rightarrow> u64 \<Rightarrow> ReconcileClassification \<times> string option" where
  "classify c management_generation =
     (if desired_state c = Destroyed then (ReconcileClassification.Tombstoned, None)
      else if generation c < management_generation then
        (CellGenerationStale, Some ''refresh_cell_binding_from_management'')
      else if generation c > management_generation then
        (ObservationStale, Some ''refresh_management_inventory_without_effect'')
      else if list_ex (\<lambda>e. eff_generation e = generation c \<and> eff_status e = EffectStatus.Unknown)
                (effects c) then
        (OutcomeUnknown, Some ''lookup_original_operations_and_inventory'')
      else if outstanding c \<noteq> [] then
        (EffectPending, Some ''dispatch_pending_effects_by_original_operation_id'')
      else if observation_matches_desired (desired_state c) (observation c) then (Converged, None)
      else (DesiredObservedDivergence, Some ''apply_generation_safe_repair_operation''))"

definition reconcile :: "stamp \<Rightarrow> InstanceCell \<Rightarrow> u64 \<Rightarrow> ReconcileResult \<times> InstanceCell" where
  "reconcile st c management_generation =
     (let (classification, repair) = classify c management_generation;
          c' = (if classification \<noteq> Converged then
                  record_event st c None DivergenceDetected None None
                    (Some (to_ascii_lowercase (classification_debug classification)))
                    (JObj [(''management_generation'', JInt (uint management_generation))])
                else c)
      in (\<lparr>res_classification = classification, res_instance_id = instance_id c,
           res_generation = generation c, res_desired_state = desired_state c,
           res_observed_runtime_state = map_option obs_runtime_state (observation c),
           res_outstanding_operations = outstanding c, res_repair = repair\<rparr>, c'))"

text \<open>\<open>validate_invariants\<close>: the loop over the effects with the set of identifiers seen so far.\<close>

fun check_effects :: "u64 \<Rightarrow> string list \<Rightarrow> EffectRecord list \<Rightarrow> CellError + unit" where
  "check_effects gen ids [] = Inr ()"
| "check_effects gen ids (e # es) =
     (if eff_operation_id e \<in> set ids then Inl OperationCollision
      else if eff_generation e > gen then Inl (FutureGeneration (eff_generation e) gen)
      else check_effects gen (eff_operation_id e # ids) es)"

definition validate_invariants :: "InstanceCell \<Rightarrow> CellError + unit" where
  "validate_invariants c =
     (if trim (instance_id c) = [] then Inl MissingInstanceId
      else if generation c = 0 then Inl InvalidGeneration
      else case check_effects (generation c) [] (effects c) of
        Inl e \<Rightarrow> Inl e
      | Inr _ \<Rightarrow>
          if desired_state c = Destroyed \<and> tombstone_until c = None
          then Inl (InvalidTransition (desired_state c) Destroy) else Inr ())"

text \<open>The operations as one alphabet; an operation that returns an error leaves the cell as it is.\<close>

datatype cell_op =
    OpAccept stamp CellCommand
  | OpDispatched stamp string "string option"
  | OpUnknown timestamp stamp string int string
  | OpTerminal timestamp stamp string EffectStatus "string option"
  | OpObserve timestamp "nat \<Rightarrow> stamp" ManagementObservation
  | OpReconcile stamp u64

fun cell_step :: "cell_env \<Rightarrow> InstanceCell \<Rightarrow> cell_op \<Rightarrow> InstanceCell" where
  "cell_step env c (OpAccept st cmd) = (case accept env st c cmd of Inl _ \<Rightarrow> c | Inr (_, c') \<Rightarrow> c')"
| "cell_step env c (OpDispatched st op m) =
     (case record_dispatched st c op m of Inl _ \<Rightarrow> c | Inr c' \<Rightarrow> c')"
| "cell_step env c (OpUnknown now st op d code) =
     (case record_unknown env now st c op d code of Inl _ \<Rightarrow> c | Inr c' \<Rightarrow> c')"
| "cell_step env c (OpTerminal now st op status code) =
     (case record_terminal now st c op status code of Inl _ \<Rightarrow> c | Inr c' \<Rightarrow> c')"
| "cell_step env c (OpObserve now st ob) = (case observe now st c ob of Inl _ \<Rightarrow> c | Inr c' \<Rightarrow> c')"
| "cell_step env c (OpReconcile st g) = snd (reconcile st c g)"

subsection \<open>What each operation changes\<close>

lemma record_event_sel [simp]:
  "document_type (record_event st c op k f t cd ev) = document_type c"
  "instance_id (record_event st c op k f t cd ev) = instance_id c"
  "generation (record_event st c op k f t cd ev) = generation c"
  "desired_state (record_event st c op k f t cd ev) = desired_state c"
  "observation (record_event st c op k f t cd ev) = observation c"
  "effects (record_event st c op k f t cd ev) = effects c"
  "tombstone_until (record_event st c op k f t cd ev) = tombstone_until c"
  by (simp_all add: record_event_def Let_def)

lemma record_fenced_sel [simp]:
  "instance_id (record_fenced st i g fs c) = instance_id c"
  "generation (record_fenced st i g fs c) = generation c"
  "desired_state (record_fenced st i g fs c) = desired_state c"
  "effects (record_fenced st i g fs c) = effects c"
  "tombstone_until (record_fenced st i g fs c) = tombstone_until c"
  by (induction st i g fs c rule: record_fenced.induct) simp_all

lemma effect_mut_sel [simp]:
  "instance_id (effect_mut op f c) = instance_id c"
  "generation (effect_mut op f c) = generation c"
  "desired_state (effect_mut op f c) = desired_state c"
  "tombstone_until (effect_mut op f c) = tombstone_until c"
  "effects (effect_mut op f c) = update_first (\<lambda>e. eff_operation_id e = op) f (effects c)"
  by (simp_all add: effect_mut_def)

lemma accept_Inr:
  assumes "accept env st c cmd = Inr (d, c')"
  shows "command_validate env cmd = Inr ()"
    and "cmd_instance_id cmd = instance_id c" and "cmd_generation cmd = generation c"
    and "(\<exists>eff. find_effect (cmd_operation_id cmd) c = Some eff \<and>
             eff_request_hash eff = cmd_request_hash cmd \<and> d = Replayed (eff_status eff) \<and> c' = c) \<or>
         (\<exists>nxt. find_effect (cmd_operation_id cmd) c = None \<and> d = Accepted \<and>
             length (effects c) < MAX_EFFECTS \<and>
             next_desired_state (desired_state c) (cmd_action cmd) = Inr nxt \<and>
             desired_state c' = nxt \<and> generation c' = generation c \<and>
             instance_id c' = instance_id c \<and> tombstone_until c' = tombstone_until c \<and>
             effects c' = effects c @ [\<lparr>eff_operation_id = cmd_operation_id cmd,
                eff_request_hash = cmd_request_hash cmd, eff_action = cmd_action cmd,
                eff_generation = cmd_generation cmd, eff_payload = cmd_payload cmd,
                eff_status = Pending, eff_attempts = 0, eff_retry_at = None,
                eff_terminal_code = None, eff_management_operation_id = None\<rparr>])"
  using assms unfolding accept_def
  by (auto simp: Let_def not_le simp del: next_desired_state.simps
      split: sum.splits if_splits option.splits)

lemma record_dispatched_Inr:
  assumes "record_dispatched st c op m = Inr c'"
  obtains eff where "find_effect op c = Some eff" "\<not> eff_generation eff < generation c"
    "\<not> is_terminal (eff_status eff)" "desired_state c' = desired_state c"
    "generation c' = generation c" "instance_id c' = instance_id c"
    "tombstone_until c' = tombstone_until c"
    "effects c' = update_first (\<lambda>e. eff_operation_id e = op) (\<lambda>e. e\<lparr>eff_status := Dispatched,
       eff_attempts := saturating_add (eff_attempts e) 1, eff_management_operation_id := m,
       eff_retry_at := None\<rparr>) (effects c)"
  using assms by (auto simp: record_dispatched_def split: option.splits if_splits)

lemma record_unknown_Inr:
  assumes "record_unknown env now st c op d code = Inr c'"
  obtains eff where "find_effect op c = Some eff" "\<not> eff_generation eff < generation c"
    "\<not> is_terminal (eff_status eff)" "desired_state c' = LifecycleState.Unknown"
    "generation c' = generation c" "instance_id c' = instance_id c"
    "tombstone_until c' = tombstone_until c"
    "effects c' = update_first (\<lambda>e. eff_operation_id e = op)
       (\<lambda>e. e\<lparr>eff_status := EffectStatus.Unknown, eff_retry_at := Some (now + d)\<rparr>) (effects c)"
  using assms by (auto simp: record_unknown_def Let_def split: option.splits if_splits)

lemma record_terminal_Inr:
  assumes "record_terminal now st c op status code = Inr c'"
  obtains (replay) eff where "find_effect op c = Some eff" "eff_status eff = status"
      "eff_terminal_code eff = code" "is_terminal status" "c' = c"
  | (finish) eff where "find_effect op c = Some eff" "\<not> is_terminal (eff_status eff)"
      "is_terminal status"
      "desired_state c' = terminal_desired_state (eff_action eff) status (desired_state c)"
      "generation c' = generation c" "instance_id c' = instance_id c"
      "tombstone_until c' = (if desired_state c' = Destroyed then Some (now + days30)
                             else tombstone_until c)"
      "effects c' = update_first (\<lambda>e. eff_operation_id e = op)
         (\<lambda>e. e\<lparr>eff_status := status, eff_retry_at := None, eff_terminal_code := code\<rparr>) (effects c)"
proof (cases "find_effect op c")
  case None
  with assms show ?thesis by (auto simp: record_terminal_def split: if_splits)
next
  case (Some eff)
  show ?thesis
  proof (cases "is_terminal (eff_status eff)")
    case True
    with assms Some show ?thesis
      by (auto simp: record_terminal_def split: if_splits intro: replay)
  next
    case False
    show ?thesis
      by (rule finish [OF Some False])
        (use assms Some False in \<open>auto simp: record_terminal_def Let_def
           simp del: terminal_desired_state.simps split: if_splits\<close>)
  qed
qed

lemma observe_Inr:
  assumes "observe now st c ob = Inr c'"
  obtains (newer) "generation c < obs_generation ob" "generation c' = obs_generation ob"
      "instance_id c' = instance_id c" "desired_state c' = LifecycleState.Unknown"
      "tombstone_until c' = tombstone_until c"
      "effects c' = map (\<lambda>e. if fence_pred (obs_generation ob) e then fence_effect e else e) (effects c)"
  | (same) "obs_generation ob = generation c" "generation c' = generation c"
      "instance_id c' = instance_id c" "effects c' = effects c"
      "tombstone_until c \<noteq> None \<Longrightarrow> tombstone_until c' = tombstone_until c"
      "desired_state c' = Destroyed \<Longrightarrow> desired_state c = Destroyed \<or> tombstone_until c' \<noteq> None"
proof (cases "generation c < obs_generation ob")
  case True
  show ?thesis
    by (rule newer [OF True]) (use assms True in \<open>auto simp: observe_def Let_def split: if_splits\<close>)
next
  case False
  with assms have eq: "obs_generation ob = generation c"
    by (auto simp: observe_def split: if_splits)
  show ?thesis
    by (rule same [OF eq])
      (use assms False in \<open>auto simp: observe_def Let_def split: if_splits option.splits\<close>)
qed

lemma reconcile_sel [simp]:
  "generation (snd (reconcile st c g)) = generation c"
  "instance_id (snd (reconcile st c g)) = instance_id c"
  "desired_state (snd (reconcile st c g)) = desired_state c"
  "tombstone_until (snd (reconcile st c g)) = tombstone_until c"
  "effects (snd (reconcile st c g)) = effects c"
  by (simp_all add: reconcile_def Let_def split: prod.splits)

subsection \<open>The invariant\<close>

lemma check_effects_iff:
  "check_effects gen ids es = Inr () \<longleftrightarrow>
     distinct (map eff_operation_id es) \<and> set (map eff_operation_id es) \<inter> set ids = {} \<and>
     (\<forall>e \<in> set es. eff_generation e \<le> gen)"
  by (induction gen ids es rule: check_effects.induct) (auto simp: not_less)

definition effects_ok :: "u64 \<Rightarrow> EffectRecord list \<Rightarrow> bool" where
  "effects_ok gen es \<longleftrightarrow> distinct (map eff_operation_id es) \<and> (\<forall>e \<in> set es. eff_generation e \<le> gen)"

lemma validate_iff:
  "validate_invariants c = Inr () \<longleftrightarrow>
     trim (instance_id c) \<noteq> [] \<and> generation c \<noteq> 0 \<and> effects_ok (generation c) (effects c) \<and>
     (desired_state c = Destroyed \<longrightarrow> tombstone_until c \<noteq> None)"
  using check_effects_iff [of "generation c" "[]" "effects c"]
  by (auto simp: validate_invariants_def effects_ok_def split: sum.splits)

lemma effects_ok_snoc:
  assumes "effects_ok g es" and "List.find (\<lambda>e. eff_operation_id e = op) es = None"
    and "eff_operation_id x = op" and "eff_generation x = g"
  shows "effects_ok g (es @ [x])"
  using assms by (auto simp: effects_ok_def find_None_iff')

lemma effects_ok_update:
  assumes "effects_ok g es"
    and "\<And>e. eff_operation_id (f e) = eff_operation_id e" and "\<And>e. eff_generation (f e) = eff_generation e"
  shows "effects_ok g (update_first p f es)"
proof -
  have "map eff_operation_id (update_first p f es) = map eff_operation_id es"
    by (rule map_update_first) (rule assms(2))
  moreover have "\<forall>e \<in> set (update_first p f es). eff_generation e \<le> g"
    using assms(1,3) set_update_first [of p f es] by (fastforce simp: effects_ok_def)
  ultimately show ?thesis using assms(1) by (simp add: effects_ok_def)
qed

lemma effects_ok_fence:
  assumes "effects_ok g es" and "g < g'"
  shows "effects_ok g' (map (\<lambda>e. if fence_pred g' e then fence_effect e else e) es)"
proof -
  have "map eff_operation_id (map (\<lambda>e. if fence_pred g' e then fence_effect e else e) es)
      = map eff_operation_id es"
    by (simp add: fence_effect_def)
  with assms show ?thesis
    by (fastforce simp: effects_ok_def fence_effect_def simp del: map_map)
qed

lemma next_not_destroyed:
  "next_desired_state s a = Inr t \<Longrightarrow> t = Destroyed \<Longrightarrow> s = Destroyed"
  by (cases a) (auto split: if_splits)

lemma accept_valid:
  assumes "validate_invariants c = Inr ()" and "accept env st c cmd = Inr (d, c')"
  shows "validate_invariants c' = Inr ()"
  using assms(1) accept_Inr [OF assms(2)]
  by (auto simp: validate_iff find_effect_def dest: next_not_destroyed
      intro!: effects_ok_snoc simp del: next_desired_state.simps)

lemma record_dispatched_valid:
  assumes "validate_invariants c = Inr ()" and "record_dispatched st c op m = Inr c'"
  shows "validate_invariants c' = Inr ()"
  by (rule record_dispatched_Inr [OF assms(2)])
    (use assms(1) in \<open>auto simp: validate_iff intro: effects_ok_update\<close>)

lemma record_unknown_valid:
  assumes "validate_invariants c = Inr ()" and "record_unknown env now st c op d code = Inr c'"
  shows "validate_invariants c' = Inr ()"
  by (rule record_unknown_Inr [OF assms(2)])
    (use assms(1) in \<open>auto simp: validate_iff intro: effects_ok_update\<close>)

lemma record_terminal_valid:
  assumes "validate_invariants c = Inr ()" and "record_terminal now st c op status code = Inr c'"
  shows "validate_invariants c' = Inr ()"
  using assms(2)
proof (cases rule: record_terminal_Inr)
  case (finish eff)
  then show ?thesis
    using assms(1) by (auto simp: validate_iff intro: effects_ok_update simp del: terminal_desired_state.simps)
qed (use assms(1) in simp)

lemma observe_valid:
  assumes "validate_invariants c = Inr ()" and "observe now st c ob = Inr c'"
  shows "validate_invariants c' = Inr ()"
  using assms(2)
proof (cases rule: observe_Inr)
  case newer
  have "obs_generation ob \<noteq> 0" using newer(1) by auto
  with newer assms(1) show ?thesis by (auto simp: validate_iff intro: effects_ok_fence)
next
  case same
  then show ?thesis using assms(1) by (auto simp: validate_iff)
qed

lemma reconcile_valid:
  "validate_invariants c = Inr () \<Longrightarrow> validate_invariants (snd (reconcile st c g)) = Inr ()"
  by (simp add: validate_iff)

lemmas cell_op_valid = accept_valid record_dispatched_valid record_unknown_valid
  record_terminal_valid observe_valid reconcile_valid

lemma cell_step_valid:
  assumes "validate_invariants c = Inr ()"
  shows "validate_invariants (cell_step env c op) = Inr ()"
  using assms by (cases op) (auto split: sum.splits intro: cell_op_valid)

interpretation cell_ops: op_system "cell_step env" "\<lambda>c. validate_invariants c = Inr ()" for env
  by unfold_locales (rule cell_step_valid)

subsection \<open>Effects across a step\<close>

lemma find_map_same:
  assumes "\<And>x. p (f x) = p x"
  shows "List.find p (map f xs) = map_option f (List.find p xs)"
  using assms by (induction xs) auto

text \<open>
  Every step keeps the effects it finds up to their status fields, and keeps a terminal effect
  unchanged; only \<open>accept\<close> adds one.
\<close>

definition eff_ident :: "EffectRecord \<Rightarrow> string \<times> string \<times> CellAction \<times> u64 \<times> (string \<times> json) list" where
  "eff_ident e = (eff_operation_id e, eff_request_hash e, eff_action e, eff_generation e, eff_payload e)"

definition eff_follows :: "EffectRecord option \<Rightarrow> EffectRecord option \<Rightarrow> bool" where
  "eff_follows old new =
     (case old of None \<Rightarrow> True
      | Some e \<Rightarrow> (\<exists>e'. new = Some e' \<and> eff_ident e' = eff_ident e \<and>
                       (is_terminal (eff_status e) \<longrightarrow> e' = e)))"

lemma eff_follows_refl [simp]: "eff_follows x x"
  by (simp add: eff_follows_def split: option.splits)

lemma eff_follows_trans: "eff_follows x y \<Longrightarrow> eff_follows y z \<Longrightarrow> eff_follows x z"
  by (fastforce simp: eff_follows_def split: option.splits)

lemma eff_follows_update:
  assumes "List.find (\<lambda>e. eff_operation_id e = op) es = Some x" and "\<not> is_terminal (eff_status x)"
    and "\<And>e. eff_ident (f e) = eff_ident e"
  shows "eff_follows (List.find (\<lambda>e. eff_operation_id e = k) es)
           (List.find (\<lambda>e. eff_operation_id e = k) (update_first (\<lambda>e. eff_operation_id e = op) f es))"
proof (cases "k = op")
  case True
  have "List.find (\<lambda>e. eff_operation_id e = op) (update_first (\<lambda>e. eff_operation_id e = op) f es) = Some (f x)"
    using assms(1,3) by (subst find_update_first_same) (auto simp: eff_ident_def)
  with True assms show ?thesis by (simp add: eff_follows_def)
next
  case False
  then have "List.find (\<lambda>e. eff_operation_id e = k) (update_first (\<lambda>e. eff_operation_id e = op) f es)
      = List.find (\<lambda>e. eff_operation_id e = k) es"
    using assms(3) by (intro find_update_first_other) (auto simp: eff_ident_def)
  then show ?thesis by simp
qed

lemma cell_step_effect: "eff_follows (find_effect k c) (find_effect k (cell_step env c op))"
proof (cases op)
  case (OpAccept st cmd)
  show ?thesis
  proof (cases "accept env st c cmd")
    case (Inr dc)
    obtain d c' where "dc = (d, c')" by (cases dc)
    with Inr accept_Inr(4) [of env st c cmd d c'] OpAccept show ?thesis
      by (auto simp: find_effect_def find_append eff_follows_def split: option.splits)
  qed (simp add: OpAccept)
next
  case (OpDispatched st x m)
  show ?thesis
  proof (cases "record_dispatched st c x m")
    case (Inr c')
    then show ?thesis
      by (rule record_dispatched_Inr)
        (auto simp: OpDispatched Inr find_effect_def eff_ident_def intro!: eff_follows_update)
  qed (simp add: OpDispatched)
next
  case (OpUnknown now st x d code)
  show ?thesis
  proof (cases "record_unknown env now st c x d code")
    case (Inr c')
    then show ?thesis
      by (rule record_unknown_Inr)
        (auto simp: OpUnknown Inr find_effect_def eff_ident_def intro!: eff_follows_update)
  qed (simp add: OpUnknown)
next
  case (OpTerminal now st x status code)
  show ?thesis
  proof (cases "record_terminal now st c x status code")
    case (Inr c')
    then show ?thesis
      by (rule record_terminal_Inr)
        (auto simp: OpTerminal Inr find_effect_def eff_ident_def intro!: eff_follows_update)
  qed (simp add: OpTerminal)
next
  case (OpObserve now st ob)
  show ?thesis
  proof (cases "observe now st c ob")
    case (Inr c')
    have "eff_follows (find_effect k c) (find_effect k c')"
      using Inr
    proof (cases rule: observe_Inr)
      case newer
      then show ?thesis
        by (auto simp: find_effect_def find_map_same fence_effect_def fence_pred_def eff_follows_def
            eff_ident_def split: option.splits)
    qed (simp add: find_effect_def)
    with Inr show ?thesis by (simp add: OpObserve)
  qed (simp add: OpObserve)
next
  case (OpReconcile st g)
  then show ?thesis by (simp add: find_effect_def)
qed

lemma cell_run_effect: "eff_follows (find_effect k c) (find_effect k (run (cell_step env) c ops))"
  by (induction ops arbitrary: c) (auto intro: eff_follows_trans cell_step_effect)

text \<open>Admission: the operation identifier an \<open>accept\<close> binds for the first time.\<close>

definition accepted :: "cell_env \<Rightarrow> InstanceCell \<Rightarrow> cell_op \<Rightarrow> string option" where
  "accepted env c op =
     (case op of OpAccept st cmd \<Rightarrow>
        (case accept env st c cmd of Inr (Accepted, _) \<Rightarrow> Some (cmd_operation_id cmd) | _ \<Rightarrow> None)
      | _ \<Rightarrow> None)"

definition bound :: "InstanceCell \<Rightarrow> string \<Rightarrow> bool" where
  "bound c op = (find_effect op c \<noteq> None)"

definition final :: "InstanceCell \<Rightarrow> string \<Rightarrow> (EffectStatus \<times> string option) option" where
  "final c op = (case find_effect op c of
      Some e \<Rightarrow> if is_terminal (eff_status e) then Some (eff_status e, eff_terminal_code e) else None
    | None \<Rightarrow> None)"

lemma accepted_Some:
  assumes "accepted env c op = Some k"
  obtains st cmd c' where "op = OpAccept st cmd" "accept env st c cmd = Inr (Accepted, c')"
    "k = cmd_operation_id cmd" "find_effect k c = None" "find_effect k c' \<noteq> None"
proof -
  from assms obtain st cmd c' where a: "op = OpAccept st cmd"
    "accept env st c cmd = Inr (Accepted, c')" "k = cmd_operation_id cmd"
    by (auto simp: accepted_def split: cell_op.splits sum.splits CommandDisposition.splits)
  from accept_Inr(4) [OF a(2)] have "find_effect k c = None" and "find_effect k c' \<noteq> None"
    by (auto simp: a(3) find_effect_def find_append)
  with a show ?thesis by (rule that)
qed

interpretation cell_admission:
  at_most_once "cell_step env" "\<lambda>c. validate_invariants c = Inr ()" "accepted env" bound for env
proof unfold_locales
  fix s op k
  assume "accepted env s op = Some k"
  then show "\<not> bound s k" and "bound (cell_step env s op) k"
    by (auto elim!: accepted_Some simp: bound_def)
next
  fix s k op
  assume "bound s k"
  then show "bound (cell_step env s op) k"
    using cell_step_effect [of k s env op] by (auto simp: bound_def eff_follows_def)
qed

interpretation cell_outcomes:
  final_outcomes "cell_step env" "\<lambda>c. validate_invariants c = Inr ()" final for env
proof unfold_locales
  fix s k v op
  assume "final s k = Some v"
  then show "final (cell_step env s op) k = Some v"
    using cell_step_effect [of k s env op]
    by (auto simp: final_def eff_follows_def split: option.splits if_splits)
qed

subsection \<open>Generations and fencing\<close>

lemma cell_step_frame:
  "generation c \<le> generation (cell_step env c op) \<and> instance_id (cell_step env c op) = instance_id c"
proof (cases op)
  case (OpAccept st cmd)
  then show ?thesis using accept_Inr(4) [of env st c cmd] by (auto split: sum.splits)
next
  case (OpDispatched st x m)
  then show ?thesis by (auto split: sum.splits elim: record_dispatched_Inr)
next
  case (OpUnknown now st x d code)
  then show ?thesis by (auto split: sum.splits elim: record_unknown_Inr)
next
  case (OpTerminal now st x status code)
  then show ?thesis by (auto split: sum.splits elim: record_terminal_Inr)
next
  case (OpObserve now st ob)
  then show ?thesis by (auto split: sum.splits elim: observe_Inr)
qed simp

lemma cell_run_generation: "generation c \<le> generation (run (cell_step env) c ops)"
  by (induction ops arbitrary: c) (auto intro: order_trans cell_step_frame [THEN conjunct1])

lemma cell_run_instance: "instance_id (run (cell_step env) c ops) = instance_id c"
  by (induction ops arbitrary: c) (simp_all add: cell_step_frame)

definition fenced_below :: "u64 \<Rightarrow> EffectRecord list \<Rightarrow> bool" where
  "fenced_below g es \<longleftrightarrow> (\<forall>e \<in> set es. eff_generation e < g \<longrightarrow> is_terminal (eff_status e))"

definition fenced_ok :: "InstanceCell \<Rightarrow> bool" where
  "fenced_ok c \<longleftrightarrow> fenced_below (generation c) (effects c)"

lemma fenced_update:
  assumes "fenced_below g es" "List.find p es = Some x"
    and "eff_generation (f x) < g \<Longrightarrow> is_terminal (eff_status (f x))"
  shows "fenced_below g (update_first p f es)"
  unfolding fenced_below_def
proof
  fix e assume "e \<in> set (update_first p f es)"
  then show "eff_generation e < g \<longrightarrow> is_terminal (eff_status e)"
    by (rule update_first_ballI [rotated 2]) (use assms in \<open>auto simp: fenced_below_def\<close>)
qed

lemma cell_step_fenced:
  assumes "fenced_ok c"
  shows "fenced_ok (cell_step env c op)"
proof (cases op)
  case (OpAccept st cmd)
  then show ?thesis
    using assms accept_Inr [of env st c cmd] by (fastforce simp: fenced_ok_def fenced_below_def split: sum.splits)
next
  case (OpDispatched st x m)
  show ?thesis
  proof (cases "record_dispatched st c x m")
    case (Inr c')
    then show ?thesis
      by (rule record_dispatched_Inr)
        (use assms in \<open>auto simp: OpDispatched Inr fenced_ok_def find_effect_def intro!: fenced_update\<close>)
  qed (simp add: OpDispatched assms)
next
  case (OpUnknown now st x d code)
  show ?thesis
  proof (cases "record_unknown env now st c x d code")
    case (Inr c')
    then show ?thesis
      by (rule record_unknown_Inr)
        (use assms in \<open>auto simp: OpUnknown Inr fenced_ok_def find_effect_def intro!: fenced_update\<close>)
  qed (simp add: OpUnknown assms)
next
  case (OpTerminal now st x status code)
  show ?thesis
  proof (cases "record_terminal now st c x status code")
    case (Inr c')
    then show ?thesis
      by (rule record_terminal_Inr)
        (use assms in \<open>auto simp: OpTerminal Inr fenced_ok_def find_effect_def intro!: fenced_update\<close>)
  qed (simp add: OpTerminal assms)
next
  case (OpObserve now st ob)
  show ?thesis
  proof (cases "observe now st c ob")
    case (Inr c')
    then show ?thesis
      by (rule observe_Inr)
        (use assms in \<open>auto simp: OpObserve Inr fenced_ok_def fenced_below_def fence_pred_def fence_effect_def\<close>)
  qed (simp add: OpObserve assms)
qed (use assms in \<open>simp add: fenced_ok_def\<close>)

interpretation cell_fence: op_system "cell_step env" fenced_ok for env
  by unfold_locales (rule cell_step_fenced)

subsection \<open>The event history\<close>

text \<open>
  The history holds the most recent events, numbered consecutively up to \<open>history_sequence\<close>;
  the numbering is only promised while the counter has not saturated.
\<close>

definition history_ok :: "InstanceCell \<Rightarrow> bool" where
  "history_ok c \<longleftrightarrow> length (history c) \<le> MAX_HISTORY \<and>
     (unat (history_sequence c) < 2 ^ 64 - 1 \<longrightarrow>
        length (history c) = min MAX_HISTORY (unat (history_sequence c)) \<and>
        map (\<lambda>e. unat (ev_sequence e)) (history c)
          = [Suc (unat (history_sequence c)) - length (history c) ..< Suc (unat (history_sequence c))])"

lemma drop_upt': "drop k [a ..< b] = [a + k ..< b]"
  by simp

lemma record_event_history_ok:
  assumes "history_ok c"
  shows "history_ok (record_event st c op k f t cd ev)"
proof -
  let ?c = "record_event st c op k f t cd ev"
  have len: "length (history ?c) = min MAX_HISTORY (Suc (length (history c)))"
    using assms by (auto simp: record_event_def Let_def history_ok_def MAX_HISTORY_def)
  have seq: "unat (history_sequence ?c) = min (Suc (unat (history_sequence c))) (2 ^ 64 - 1)"
    by (simp add: record_event_def Let_def unat_saturating_add)
  show ?thesis
  proof (cases "unat (history_sequence ?c) < 2 ^ 64 - 1")
    case False
    with len show ?thesis by (simp add: history_ok_def)
  next
    case True
    let ?n = "unat (history_sequence c)" and ?l = "length (history c)"
    from True seq have n: "?n < 2 ^ 64 - 1" and n': "unat (history_sequence ?c) = Suc ?n"
      by simp_all
    from n assms have l: "?l = min MAX_HISTORY ?n"
      and m: "map (\<lambda>e. unat (ev_sequence e)) (history c) = [Suc ?n - ?l ..< Suc ?n]"
      by (simp_all add: history_ok_def)
    have "map (\<lambda>e. unat (ev_sequence e)) (history ?c)
        = drop (Suc ?l - MAX_HISTORY) ([Suc ?n - ?l ..< Suc ?n] @ [Suc ?n])"
      using n' unfolding m [symmetric] by (simp add: record_event_def Let_def flip: drop_map)
    also have "[Suc ?n - ?l ..< Suc ?n] @ [Suc ?n] = [Suc ?n - ?l ..< Suc (Suc ?n)]"
      using l by simp
    also have "drop (Suc ?l - MAX_HISTORY) \<dots> = [Suc (Suc ?n) - length (history ?c) ..< Suc (Suc ?n)]"
      using l len by (auto simp: drop_upt' MAX_HISTORY_def min_def)
    finally show ?thesis using len l n' by (auto simp: history_ok_def)
  qed
qed

lemma history_ok_cong:
  "history_ok (c\<lparr>desired_state := d\<rparr>) = history_ok c"
  "history_ok (c\<lparr>effects := es\<rparr>) = history_ok c"
  "history_ok (c\<lparr>generation := g\<rparr>) = history_ok c"
  "history_ok (c\<lparr>observation := ob\<rparr>) = history_ok c"
  "history_ok (c\<lparr>tombstone_until := t\<rparr>) = history_ok c"
  "history_ok (effect_mut x f c) = history_ok c"
  by (simp_all add: history_ok_def effect_mut_def)

lemma record_fenced_history_ok: "history_ok c \<Longrightarrow> history_ok (record_fenced st i g fs c)"
  by (induction st i g fs c rule: record_fenced.induct) (simp_all add: record_event_history_ok)

lemmas history_ok_intros = record_event_history_ok record_fenced_history_ok

lemma cell_step_history_ok: "history_ok c \<Longrightarrow> history_ok (cell_step env c op)"
  by (cases op)
    (auto simp: accept_def record_dispatched_def record_unknown_def record_terminal_def observe_def
      reconcile_def Let_def history_ok_cong
      simp del: next_desired_state.simps terminal_desired_state.simps
      split: sum.splits option.splits prod.splits intro!: history_ok_intros)

interpretation cell_history: op_system "cell_step env" history_ok for env
  by unfold_locales (rule cell_step_history_ok)

subsection \<open>Properties of the cell\<close>

lemma InstanceCell_new_ok:
  assumes "InstanceCell_new now inst g = Inr c"
  shows "validate_invariants c = Inr ()" "fenced_ok c" "history_ok c" "generation c = g"
  using assms
  by (auto simp: InstanceCell_new_def validate_iff effects_ok_def fenced_ok_def fenced_below_def
      history_ok_def split: if_splits)

lemmas cell_reachable = cell_ops.inv_run [OF InstanceCell_new_ok(1)]
  cell_fence.inv_run [OF InstanceCell_new_ok(2)] cell_history.inv_run [OF InstanceCell_new_ok(3)]

declare find_effect_def [eval_simps] effect_mut_def [eval_simps] record_event_def [eval_simps]
  accept_def [eval_simps] record_dispatched_def [eval_simps] record_unknown_def [eval_simps]
  record_terminal_def [eval_simps] observe_def [eval_simps] reconcile_def [eval_simps]
  classify_def [eval_simps] outstanding_def [eval_simps] accepted_def [eval_simps]
  command_validate_def [eval_simps] verify_hash_def [eval_simps] validate_identifier_def [eval_simps]
  canonical_request_hash_def [eval_simps] fence_pred_def [eval_simps] fence_effect_def [eval_simps]
  MAX_EFFECTS_def [eval_simps] MAX_HISTORY_def [eval_simps]

text \<open>A concrete environment, cell and command for the witnesses.\<close>

definition demo_env :: cell_env where
  "demo_env = \<lparr>env_jcs = (\<lambda>_. Inr ''{}''), env_sha256_hex = (\<lambda>_. ''h''), env_ts = (\<lambda>_. ''t'')\<rparr>"

definition demo_cell :: InstanceCell where
  "demo_cell = \<lparr>document_type = ''instance-cell-state'', schema_version = ''1'', instance_id = ''i1'',
     generation = 1, desired_state = Requested, observation = None, effects = [],
     history_sequence = 0, tombstone_until = None, updated_at = 0, history = []\<rparr>"

definition demo_command :: "CellAction \<Rightarrow> string \<Rightarrow> CellCommand" where
  "demo_command a op = \<lparr>cmd_document_type = ''instance-cell-command'', cmd_schema_version = ''1'',
     cmd_operation_id = op, cmd_instance_id = ''i1'', cmd_generation = 1, cmd_action = a,
     cmd_request_hash = ''h'', cmd_issued_at = 0, cmd_payload = []\<rparr>"

definition demo_ops :: "cell_op list" where
  "demo_ops = [OpAccept (''u'', 1) (demo_command Provision ''o1''), OpDispatched (''u'', 2) ''o1'' None,
     OpAccept (''u'', 3) (demo_command Provision ''o1''),
     OpTerminal 4 (''u'', 4) ''o1'' Succeeded None,
     OpObserve 5 (\<lambda>_. (''u'', 5)) \<lparr>obs_generation = 2, obs_runtime_state = ''ready'',
       obs_agent_state = ''ready'', obs_runtime_id = None, obs_provider = None, obs_observed_at = 5\<rparr>]"

lemma demo_cell_new: "InstanceCell_new 0 ''i1'' 1 = Inr demo_cell"
  by (simp add: InstanceCell_new_def demo_cell_def eval_simps)

lemmas demo_defs = demo_env_def demo_cell_def demo_command_def demo_ops_def

text \<open>
  C1. Whatever sequence of commands, dispatch reports, terminal reports, observations and
  reconciliations a freshly created cell goes through, \<open>validate_invariants\<close> accepts it:
  operation identifiers stay unique, no effect is ahead of the cell's generation, and a destroyed
  cell carries its tombstone.
\<close>

theorem cell_invariants_always_hold:
  assumes "InstanceCell_new now inst g = Inr c"
  shows "validate_invariants (run (cell_step env) c ops) = Inr ()"
  by (rule cell_reachable(1) [OF assms])

theorem cell_invariants_always_hold_witness:
  "InstanceCell_new 0 ''i1'' 1 = Inr demo_cell \<and>
   validate_invariants (run (cell_step demo_env) demo_cell demo_ops) = Inr ()"
  using cell_invariants_always_hold [OF demo_cell_new] demo_cell_new by simp

text \<open>
  C2. A cell admits an operation identifier at most once: over any run from a new cell, the
  identifiers whose command was answered \<open>Accepted\<close> are pairwise different, so retransmitted
  commands never create a second effect.
\<close>

theorem cell_accepts_at_most_once:
  assumes "InstanceCell_new now inst g = Inr c"
  shows "distinct (grants (cell_step env) (accepted env) c ops)"
  by (rule cell_admission.grants_distinct [OF InstanceCell_new_ok(1) [OF assms]])

theorem cell_accepts_at_most_once_witness:
  "InstanceCell_new 0 ''i1'' 1 = Inr demo_cell \<and>
   distinct (grants (cell_step demo_env) (accepted demo_env) demo_cell demo_ops) \<and>
   grants (cell_step demo_env) (accepted demo_env) demo_cell demo_ops = [''o1'']"
proof -
  have "grants (cell_step demo_env) (accepted demo_env) demo_cell demo_ops = [''o1'']"
    by (simp add: demo_defs eval_simps)
  with cell_accepts_at_most_once [OF demo_cell_new] demo_cell_new show ?thesis by simp
qed

text \<open>
  C3. The terminal outcome of an effect is final: once an operation has ended as succeeded, failed
  or rejected with some code, no later sequence of operations on the cell changes that status or
  code.
\<close>

theorem cell_terminal_outcome_final:
  assumes "validate_invariants c = Inr ()" and "final c op = Some v"
  shows "final (run (cell_step env) c ops) op = Some v"
  by (rule cell_outcomes.outcome_run [OF assms])

definition demo_late_ops :: "cell_op list" where
  "demo_late_ops = [OpTerminal 9 (''u'', 9) ''o1'' EffectStatus.Failed (Some ''late''),
     OpDispatched (''u'', 9) ''o1'' None, OpUnknown 9 (''u'', 9) ''o1'' 5 ''lost'']"

theorem cell_terminal_outcome_final_witness:
  "final (run (cell_step demo_env) (run (cell_step demo_env) demo_cell demo_ops) demo_late_ops) ''o1''
     = Some (Succeeded, None)"
proof -
  have "final (run (cell_step demo_env) demo_cell demo_ops) ''o1'' = Some (Succeeded, None)"
    by (simp add: demo_defs final_def eval_simps)
  with cell_terminal_outcome_final [OF cell_reachable(1) [OF demo_cell_new]] show ?thesis by blast
qed

text \<open>
  C17. Generation fencing: in every cell reached from a new one, an effect of an earlier generation
  is terminal, and the cell refuses to dispatch it again or to mark its outcome unknown, whatever
  the caller reports.
\<close>

theorem cell_old_generations_fenced:
  assumes "InstanceCell_new now inst g = Inr c\<^sub>0" and "c = run (cell_step env) c\<^sub>0 ops"
    and "find_effect op c = Some e" and "eff_generation e < generation c"
  shows "is_terminal (eff_status e) \<and>
    record_dispatched st c op m = Inl (EffectGenerationFenced op (eff_generation e) (generation c)) \<and>
    record_unknown env t st c op d code = Inl (EffectGenerationFenced op (eff_generation e) (generation c))"
proof -
  have "e \<in> set (effects c)" using assms(3) find_Some_set by (fastforce simp: find_effect_def)
  moreover have "fenced_ok c" unfolding assms(2) by (rule cell_reachable(2) [OF assms(1)])
  ultimately show ?thesis
    using assms(3,4)
    by (simp add: fenced_ok_def fenced_below_def record_dispatched_def record_unknown_def)
qed

theorem cell_old_generations_fenced_witness:
  "\<exists>e. find_effect ''o1'' (run (cell_step demo_env) demo_cell demo_ops) = Some e \<and>
       is_terminal (eff_status e)"
proof -
  let ?c = "run (cell_step demo_env) demo_cell demo_ops"
  obtain e where "find_effect ''o1'' ?c = Some e" "eff_generation e < generation ?c"
    by (simp add: demo_defs eval_simps)
  with cell_old_generations_fenced [OF demo_cell_new refl] show ?thesis by blast
qed

text \<open>
  C18. The event history of a reachable cell never exceeds \<open>MAX_HISTORY\<close> entries, and until the
  64-bit counter saturates it holds exactly the latest events, numbered consecutively up to
  \<open>history_sequence\<close>: trimming loses old events but never a recent one.
\<close>

theorem cell_history_bounded_and_contiguous:
  assumes "InstanceCell_new now inst g = Inr c\<^sub>0" and "c = run (cell_step env) c\<^sub>0 ops"
  shows "length (history c) \<le> MAX_HISTORY \<and>
          (unat (history_sequence c) < 2 ^ 64 - 1 \<longrightarrow>
           length (history c) = min MAX_HISTORY (unat (history_sequence c)) \<and>
           map (\<lambda>e. unat (ev_sequence e)) (history c)
             = [Suc (unat (history_sequence c)) - length (history c) ..< Suc (unat (history_sequence c))])"
  using cell_reachable(3) [OF assms(1), of env ops] by (simp add: history_ok_def assms(2))

theorem cell_history_bounded_and_contiguous_witness:
  "length (history (run (cell_step demo_env) demo_cell demo_ops)) \<le> MAX_HISTORY \<and>
   map (\<lambda>e. unat (ev_sequence e)) (history (run (cell_step demo_env) demo_cell demo_ops)) = [1, 2, 3, 4]"
proof -
  let ?c = "run (cell_step demo_env) demo_cell demo_ops"
  have "history_sequence ?c = 4" by (simp add: demo_defs eval_simps)
  then have "unat (history_sequence ?c) = 4" by simp
  moreover have "[Suc 4 - 4 ..< Suc 4] = [1, 2, 3, 4::nat]" by (simp add: upt_rec)
  ultimately show ?thesis
    using cell_history_bounded_and_contiguous [OF demo_cell_new refl, of demo_env demo_ops]
    by (simp add: MAX_HISTORY_def)
qed

lemma accept_find:
  assumes "accept env st c cmd = Inr (d, c')"
  obtains e where "find_effect (cmd_operation_id cmd) c' = Some e"
    "eff_request_hash e = cmd_request_hash cmd" "instance_id c' = cmd_instance_id cmd"
    "generation c' = cmd_generation cmd"
  using accept_Inr [OF assms] by (auto simp: find_effect_def find_append)

text \<open>
  C19. Retransmission is idempotent: once a command has been taken, the same command sent again
  after any further operations changes nothing. It is answered \<open>Replayed\<close> with the current
  status of its effect, or refused as stale when management has advanced the generation.
\<close>

theorem cell_retransmission_idempotent:
  assumes "accept env st c cmd = Inr (d, c\<^sub>1)" and "c\<^sub>2 = run (cell_step env) c\<^sub>1 ops"
  shows "accept env st' c\<^sub>2 cmd =
     (if generation c\<^sub>2 = cmd_generation cmd
      then Inr (Replayed (eff_status (the (find_effect (cmd_operation_id cmd) c\<^sub>2))), c\<^sub>2)
      else Inl (StaleGeneration (cmd_generation cmd) (generation c\<^sub>2)))"
proof -
  obtain e where e: "find_effect (cmd_operation_id cmd) c\<^sub>1 = Some e"
    "eff_request_hash e = cmd_request_hash cmd" "instance_id c\<^sub>1 = cmd_instance_id cmd"
    "generation c\<^sub>1 = cmd_generation cmd"
    using assms(1) by (rule accept_find)
  have "eff_follows (Some e) (find_effect (cmd_operation_id cmd) c\<^sub>2)"
    using cell_run_effect [of "cmd_operation_id cmd" c\<^sub>1 env ops] by (simp add: e(1) assms(2))
  then obtain e' where "find_effect (cmd_operation_id cmd) c\<^sub>2 = Some e'"
    "eff_request_hash e' = cmd_request_hash cmd"
    using e(2) by (auto simp: eff_follows_def eff_ident_def)
  moreover have "cmd_generation cmd \<le> generation c\<^sub>2" "instance_id c\<^sub>2 = cmd_instance_id cmd"
    using cell_run_generation [of c\<^sub>1 env ops] cell_run_instance [of env c\<^sub>1 ops] e(3,4)
    by (simp_all add: assms(2))
  ultimately show ?thesis using accept_Inr(1) [OF assms(1)] by (auto simp: accept_def)
qed

theorem cell_retransmission_idempotent_witness:
  "\<exists>c\<^sub>1. accept demo_env (''u'', 1) demo_cell (demo_command Provision ''o1'') = Inr (Accepted, c\<^sub>1) \<and>
     accept demo_env (''u'', 7) (cell_step demo_env c\<^sub>1 (OpTerminal 4 (''u'', 4) ''o1'' Succeeded None))
         (demo_command Provision ''o1'')
       = Inr (Replayed Succeeded, cell_step demo_env c\<^sub>1 (OpTerminal 4 (''u'', 4) ''o1'' Succeeded None))"
proof -
  let ?ops = "[OpTerminal 4 (''u'', 4) ''o1'' Succeeded None]"
  obtain c\<^sub>1 where c: "accept demo_env (''u'', 1) demo_cell (demo_command Provision ''o1'') = Inr (Accepted, c\<^sub>1)"
    by (simp add: demo_defs eval_simps)
  moreover have "generation (run (cell_step demo_env) c\<^sub>1 ?ops) = 1"
    "eff_status (the (find_effect ''o1'' (run (cell_step demo_env) c\<^sub>1 ?ops))) = Succeeded"
    using c by (auto simp: demo_defs eval_simps)
  ultimately show ?thesis
    using cell_retransmission_idempotent [OF c refl, of "(''u'', 7)" ?ops]
    by (auto simp: demo_command_def)
qed

text \<open>
  Reconciliation reports \<open>Converged\<close> exactly when the cell is not destroyed, its generation
  is the one of management, no effect of that generation is outstanding and the last observation
  matches the desired state; it then leaves the cell untouched, and otherwise only appends one
  divergence event.
\<close>

theorem reconcile_converged_iff:
  "(res_classification (fst (reconcile st c g)) = Converged \<longleftrightarrow>
      desired_state c \<noteq> Destroyed \<and> generation c = g \<and> outstanding c = [] \<and>
      observation_matches_desired (desired_state c) (observation c)) \<and>
   (if res_classification (fst (reconcile st c g)) = Converged then snd (reconcile st c g) = c
    else effects (snd (reconcile st c g)) = effects c \<and> desired_state (snd (reconcile st c g)) = desired_state c \<and>
      history_sequence (snd (reconcile st c g)) = saturating_add (history_sequence c) 1)"
proof -
  have "\<not> list_ex (\<lambda>e. eff_generation e = generation c \<and> eff_status e = EffectStatus.Unknown) (effects c)"
    if "outstanding c = []"
    using that by (auto simp: outstanding_def list_ex_iff filter_empty_conv)
  then show ?thesis
    by (auto simp: reconcile_def classify_def Let_def record_event_def split: prod.splits if_splits)
qed

text \<open>
  A destroyed cell takes no command that would change the instance: of all commands only
  \<open>Observe\<close> is accepted, and it leaves the cell destroyed with its tombstone.
\<close>

theorem destroyed_accepts_only_observe:
  assumes "desired_state c = Destroyed" and "accept env st c cmd = Inr (Accepted, c')"
  shows "cmd_action cmd = Observe \<and> desired_state c' = Destroyed \<and>
         tombstone_until c' = tombstone_until c"
  using accept_Inr(4) [OF assms(2)] assms(1) by (cases "cmd_action cmd") auto

theorem destroyed_accepts_only_observe_witness:
  "\<exists>c'. accept demo_env (''u'', 1) (demo_cell\<lparr>desired_state := Destroyed, tombstone_until := Some 3\<rparr>)
          (demo_command Observe ''o2'') = Inr (Accepted, c') \<and>
        desired_state c' = Destroyed \<and> tombstone_until c' = Some 3"
proof -
  let ?c = "demo_cell\<lparr>desired_state := Destroyed, tombstone_until := Some 3\<rparr>"
  obtain c' where c: "accept demo_env (''u'', 1) ?c (demo_command Observe ''o2'') = Inr (Accepted, c')"
    by (simp add: demo_defs eval_simps)
  with destroyed_accepts_only_observe [OF _ c] show ?thesis by simp
qed

text \<open>
  The tombstone is not absorbing for observations: a late \<open>ready\<close> report of the same generation
  moves a destroyed cell back to \<open>Ready\<close>.
\<close>

lemma observe_revives_destroyed:
  assumes "desired_state c = Destroyed" and "obs_generation ob = generation c"
    and "obs_runtime_state ob = ''ready''" and "obs_agent_state ob = ''ready''"
  shows "\<exists>c'. observe now st c ob = Inr c' \<and> desired_state c' = Ready"
  using assms by (simp add: observe_def Let_def)

end
