(* ===== verification/Effect_Ledger.thy ===== *)
theory Effect_Ledger
  imports Instance_Cell
begin

section \<open>The effect ledger (\<open>management/src/celld/effect_ledger.rs\<close>)\<close>

text \<open>
  The management server persists every celld effect in two SQLite tables: \<open>celld_effects\<close>, keyed
  by the operation identifier, and \<open>celld_instance_generations\<close>, keyed by the instance. The model
  keeps the columns as the tables have them (actions and statuses as text, integers signed) and
  the statements as the code issues them; the connection mutex makes each operation atomic, and a
  transaction that is not committed leaves the tables as they were. Clock readings arrive rendered
  (\<open>now\<close>), and JSON printing and parsing are the parameters of a \<open>json_codec\<close>.
\<close>

subsection \<open>Data\<close>

datatype EffectClaim = Acquired | Replayed EffectStatus

record EffectLedgerRecord =
  rec_operation_id :: string
  rec_instance_id :: string
  rec_generation :: u64
  rec_action :: CellAction
  rec_status :: EffectStatus
  rec_provider_dispatch_count :: u64
  rec_management_operation_id :: "string option"
  rec_terminal_code :: "string option"
  rec_result :: "json option"

datatype sql_error = ToSqlConversionFailure | IntegralValueOutOfRange | QueryReturnedNoRows

datatype EffectLedgerError =
    Database sql_error
  | Io
  | InsecurePermissions
  | Collision
  | StaleGeneration u64 u64
  | FutureGeneration u64 u64
  | UnknownOperation string
  | UnknownInstance string
  | GenerationAdvanceNotAllowed
  | ManagementOperationConflict
  | CorruptRecord string
  | TerminalConflict string EffectStatus EffectStatus

record effect_row =
  fx_operation_id :: string
  fx_request_hash :: string
  fx_instance_id :: string
  fx_generation :: int
  fx_action :: string
  fx_status :: string
  fx_provider_dispatch_count :: int
  fx_management_operation_id :: "string option"
  fx_terminal_code :: "string option"
  fx_result_json :: "string option"
  fx_updated_at :: string

record generation_row =
  gn_instance_id :: string
  gn_generation :: int
  gn_state :: string
  gn_updated_at :: string

record EffectLedger =
  celld_effects :: "effect_row list"
  celld_instance_generations :: "generation_row list"

fun action_name :: "CellAction \<Rightarrow> string" where
  "action_name Provision = ''provision''"
| "action_name Start = ''start''"
| "action_name Stop = ''stop''"
| "action_name Destroy = ''destroy''"
| "action_name Observe = ''observe''"
| "action_name Repair = ''repair''"

definition parse_action :: "string \<Rightarrow> CellAction option" where
  "parse_action v =
     (if v = ''provision'' then Some Provision
      else if v = ''start'' then Some Start
      else if v = ''stop'' then Some Stop
      else if v = ''destroy'' then Some Destroy
      else if v = ''observe'' then Some Observe
      else if v = ''repair'' then Some Repair
      else None)"

fun status_name :: "EffectStatus \<Rightarrow> string" where
  "status_name Pending = ''pending''"
| "status_name Dispatched = ''dispatched''"
| "status_name EffectStatus.Unknown = ''unknown''"
| "status_name Succeeded = ''succeeded''"
| "status_name EffectStatus.Failed = ''failed''"
| "status_name Rejected = ''rejected''"

definition parse_status :: "string \<Rightarrow> EffectStatus option" where
  "parse_status v =
     (if v = ''pending'' then Some Pending
      else if v = ''dispatched'' then Some Dispatched
      else if v = ''unknown'' then Some EffectStatus.Unknown
      else if v = ''succeeded'' then Some Succeeded
      else if v = ''failed'' then Some EffectStatus.Failed
      else if v = ''rejected'' then Some Rejected
      else None)"

subsection \<open>Opening the ledger\<close>

text \<open>
  The database file as \<open>open\<close> finds it: its permission bits, the columns of its effects table
  and its rows. A row of a table that predates a column reads as the column's default.
\<close>

record ledger_file =
  lf_mode :: u32
  lf_columns :: "string list"
  lf_ledger :: EffectLedger

definition base_columns :: "string list" where
  "base_columns = [''operation_id'', ''request_hash'', ''instance_id'', ''generation'', ''action'',
     ''status'', ''provider_dispatch_count'', ''management_operation_id'', ''terminal_code'',
     ''result_json'', ''updated_at'']"

definition verify_existing_permissions :: "ledger_file option \<Rightarrow> EffectLedgerError + unit" where
  "verify_existing_permissions file =
     (case file of
        None \<Rightarrow> Inr ()
      | Some f \<Rightarrow> if and (lf_mode f) 63 \<noteq> 0 then Inl InsecurePermissions else Inr ())"

definition add_column :: "string \<Rightarrow> string list \<Rightarrow> string list" where
  "add_column c cols = (if c \<in> set cols then cols else cols @ [c])"

definition ledger_open :: "ledger_file option \<Rightarrow> EffectLedgerError + ledger_file" where
  "ledger_open file =
     (case verify_existing_permissions file of
        Inl e \<Rightarrow> Inl e
      | Inr _ \<Rightarrow>
          let f = (case file of Some f \<Rightarrow> f
                   | None \<Rightarrow> \<lparr>lf_mode = 420, lf_columns = base_columns,
                       lf_ledger = \<lparr>celld_effects = [], celld_instance_generations = []\<rparr>\<rparr>)
          in Inr (f\<lparr>lf_mode := 384,
                    lf_columns := add_column ''provider_dispatch_count''
                      (add_column ''terminal_code''
                        (add_column ''management_operation_id'' (lf_columns f)))\<rparr>))"

subsection \<open>Claims\<close>

definition effect_at :: "EffectLedger \<Rightarrow> string \<Rightarrow> effect_row option" where
  "effect_at l op = tbl_get fx_operation_id op (celld_effects l)"

definition generation_at :: "EffectLedger \<Rightarrow> string \<Rightarrow> generation_row option" where
  "generation_at l inst = tbl_get gn_instance_id inst (celld_instance_generations l)"

definition claim_on_connection ::
  "string \<Rightarrow> EffectLedger \<Rightarrow> CellCommand \<Rightarrow> EffectLedgerError + EffectClaim \<times> EffectLedger" where
  "claim_on_connection now l cmd =
     (case u64_to_sql (cmd_generation cmd) of
        None \<Rightarrow> Inl (Database ToSqlConversionFailure)
      | Some gen \<Rightarrow>
          (case effect_at l (cmd_operation_id cmd) of
             None \<Rightarrow> Inr (Acquired, l\<lparr>celld_effects := celld_effects l @
               [\<lparr>fx_operation_id = cmd_operation_id cmd, fx_request_hash = cmd_request_hash cmd,
                 fx_instance_id = cmd_instance_id cmd, fx_generation = gen,
                 fx_action = action_name (cmd_action cmd), fx_status = ''pending'',
                 fx_provider_dispatch_count = 0, fx_management_operation_id = None,
                 fx_terminal_code = None, fx_result_json = None, fx_updated_at = now\<rparr>]\<rparr>)
           | Some row \<Rightarrow>
               if fx_request_hash row \<noteq> cmd_request_hash cmd then Inl Collision
               else (case parse_status (fx_status row) of
                       None \<Rightarrow> Inl (CorruptRecord ''status'')
                     | Some status \<Rightarrow> Inr (Replayed status, l))))"

definition claim ::
  "string \<Rightarrow> EffectLedger \<Rightarrow> CellCommand \<Rightarrow> u64 \<Rightarrow> EffectLedgerError + EffectClaim \<times> EffectLedger" where
  "claim now l cmd management_generation =
     (if cmd_generation cmd < management_generation
        then Inl (StaleGeneration (cmd_generation cmd) management_generation)
      else if cmd_generation cmd > management_generation
        then Inl (FutureGeneration (cmd_generation cmd) management_generation)
      else claim_on_connection now l cmd)"

text \<open>The generation binding that \<open>claim_managed\<close> checks and advances before it claims.\<close>

definition bind_generation ::
  "string \<Rightarrow> EffectLedger \<Rightarrow> CellCommand \<Rightarrow> EffectLedgerError + EffectLedger" where
  "bind_generation now l cmd =
     (case generation_at l (cmd_instance_id cmd) of
        None \<Rightarrow>
          if cmd_action cmd = Provision then
            (case u64_to_sql (cmd_generation cmd) of
               None \<Rightarrow> Inl (Database ToSqlConversionFailure)
             | Some gen \<Rightarrow> Inr (l\<lparr>celld_instance_generations := celld_instance_generations l @
                 [\<lparr>gn_instance_id = cmd_instance_id cmd, gn_generation = gen,
                   gn_state = ''provisioning'', gn_updated_at = now\<rparr>]\<rparr>))
          else Inl (UnknownInstance (cmd_instance_id cmd))
      | Some row \<Rightarrow>
          (case u64_from_sql (gn_generation row) of
             None \<Rightarrow> Inl (Database IntegralValueOutOfRange)
           | Some current \<Rightarrow>
               if cmd_generation cmd < current
                 then Inl (StaleGeneration (cmd_generation cmd) current)
               else if cmd_generation cmd = current then Inr l
               else if cmd_action cmd = Provision \<and> gn_state row = ''destroyed'' \<and>
                       cmd_generation cmd = saturating_add current 1 then
                 (case u64_to_sql (cmd_generation cmd) of
                    None \<Rightarrow> Inl (Database ToSqlConversionFailure)
                  | Some gen \<Rightarrow> Inr (l\<lparr>celld_instance_generations :=
                      sql_update (\<lambda>r. gn_instance_id r = cmd_instance_id cmd)
                        (\<lambda>r. r\<lparr>gn_generation := gen, gn_state := ''provisioning'',
                                gn_updated_at := now\<rparr>)
                        (celld_instance_generations l)\<rparr>))
               else if cmd_generation cmd > saturating_add current 1
                 then Inl (FutureGeneration (cmd_generation cmd) current)
               else Inl GenerationAdvanceNotAllowed))"

definition claim_managed ::
  "string \<Rightarrow> EffectLedger \<Rightarrow> CellCommand \<Rightarrow> EffectLedgerError + EffectClaim \<times> EffectLedger" where
  "claim_managed now l cmd =
     (case bind_generation now l cmd of
        Inl e \<Rightarrow> Inl e
      | Inr l' \<Rightarrow> claim_on_connection now l' cmd)"

subsection \<open>Dispatch and completion\<close>

definition begin_dispatch :: "string \<Rightarrow> EffectLedger \<Rightarrow> string \<Rightarrow> EffectLedgerError + bool \<times> EffectLedger" where
  "begin_dispatch now l op =
     (let p = (\<lambda>r. fx_operation_id r = op \<and> fx_status r = ''pending'');
          changed = sql_changes p (celld_effects l);
          l' = l\<lparr>celld_effects := sql_update p
                 (\<lambda>r. r\<lparr>fx_status := ''dispatched'',
                         fx_provider_dispatch_count := fx_provider_dispatch_count r + 1,
                         fx_updated_at := now\<rparr>) (celld_effects l)\<rparr>
      in if changed = 1 then Inr (True, l')
         else if effect_at l' op = None then Inl (UnknownOperation op)
         else Inr (False, l'))"

definition record_locked ::
  "json_codec \<Rightarrow> EffectLedger \<Rightarrow> string \<Rightarrow> EffectLedgerError + EffectLedgerRecord option" where
  "record_locked cd l op =
     (case effect_at l op of
        None \<Rightarrow> Inr None
      | Some r \<Rightarrow>
          (case (u64_from_sql (fx_generation r), u64_from_sql (fx_provider_dispatch_count r)) of
             (Some gen, Some count) \<Rightarrow>
               (case parse_action (fx_action r) of
                  None \<Rightarrow> Inl (CorruptRecord ''action'')
                | Some action \<Rightarrow>
                    (case parse_status (fx_status r) of
                       None \<Rightarrow> Inl (CorruptRecord ''status'')
                     | Some status \<Rightarrow>
                         let mk = (\<lambda>res. \<lparr>rec_operation_id = fx_operation_id r,
                               rec_instance_id = fx_instance_id r, rec_generation = gen,
                               rec_action = action, rec_status = status,
                               rec_provider_dispatch_count = count,
                               rec_management_operation_id = fx_management_operation_id r,
                               rec_terminal_code = fx_terminal_code r, rec_result = res\<rparr>)
                         in (case fx_result_json r of
                               None \<Rightarrow> Inr (Some (mk None))
                             | Some s \<Rightarrow> (case json_from_str cd s of
                                 None \<Rightarrow> Inl (CorruptRecord ''result_json'')
                               | Some v \<Rightarrow> Inr (Some (mk (Some v)))))))
           | _ \<Rightarrow> Inl (Database IntegralValueOutOfRange)))"

definition ledger_record :: "json_codec \<Rightarrow> EffectLedger \<Rightarrow> string \<Rightarrow> EffectLedgerError + EffectLedgerRecord" where
  "ledger_record cd l op =
     (case record_locked cd l op of
        Inl e \<Rightarrow> Inl e
      | Inr None \<Rightarrow> Inl (UnknownOperation op)
      | Inr (Some r) \<Rightarrow> Inr r)"

definition set_management_operation ::
  "json_codec \<Rightarrow> string \<Rightarrow> EffectLedger \<Rightarrow> string \<Rightarrow> string \<Rightarrow> EffectLedgerError + EffectLedger" where
  "set_management_operation cd now l op mgmt =
     (case record_locked cd l op of
        Inl e \<Rightarrow> Inl e
      | Inr rec \<Rightarrow>
          (case Option.bind rec rec_management_operation_id of
             Some existing \<Rightarrow> if existing \<noteq> mgmt then Inl ManagementOperationConflict else Inr l
           | None \<Rightarrow>
               let p = (\<lambda>r. fx_operation_id r = op \<and> fx_status r \<in> {''dispatched'', ''unknown''});
                   changed = sql_changes p (celld_effects l);
                   l' = l\<lparr>celld_effects := sql_update p
                          (\<lambda>r. r\<lparr>fx_management_operation_id :=
                                   (case fx_management_operation_id r of None \<Rightarrow> Some mgmt | Some m \<Rightarrow> Some m),
                                  fx_updated_at := now\<rparr>) (celld_effects l)\<rparr>
               in if changed = 0 then
                    (case record_locked cd l' op of
                       Inl e \<Rightarrow> Inl e
                     | Inr None \<Rightarrow> Inl (UnknownOperation op)
                     | Inr _ \<Rightarrow> Inr l')
                  else Inr l'))"

definition mark_unknown ::
  "json_codec \<Rightarrow> string \<Rightarrow> EffectLedger \<Rightarrow> string \<Rightarrow> EffectLedgerError + EffectLedger" where
  "mark_unknown cd now l op =
     (let p = (\<lambda>r. fx_operation_id r = op \<and> fx_status r = ''dispatched'');
          changed = sql_changes p (celld_effects l);
          l' = l\<lparr>celld_effects := sql_update p
                 (\<lambda>r. r\<lparr>fx_status := ''unknown'', fx_updated_at := now\<rparr>) (celld_effects l)\<rparr>
      in if changed = 0 then
           (case record_locked cd l' op of
              Inl e \<Rightarrow> Inl e
            | Inr None \<Rightarrow> Inl (UnknownOperation op)
            | Inr _ \<Rightarrow> Inr l')
         else Inr l')"

definition current_generation :: "EffectLedger \<Rightarrow> string \<Rightarrow> EffectLedgerError + u64 option" where
  "current_generation l inst =
     (case generation_at l inst of
        None \<Rightarrow> Inr None
      | Some r \<Rightarrow> (case u64_from_sql (gn_generation r) of
          None \<Rightarrow> Inl (Database IntegralValueOutOfRange)
        | Some g \<Rightarrow> Inr (Some g)))"

definition update_instance_state ::
  "string \<Rightarrow> EffectLedger \<Rightarrow> string \<Rightarrow> EffectStatus \<Rightarrow> EffectLedgerError + EffectLedger" where
  "update_instance_state now l op status =
     (if status \<noteq> Succeeded then Inr l
      else case effect_at l op of
        None \<Rightarrow> Inr l
      | Some r \<Rightarrow>
          (case u64_from_sql (fx_generation r) of
             None \<Rightarrow> Inl (Database IntegralValueOutOfRange)
           | Some _ \<Rightarrow>
               let new_state = (if fx_action r = ''destroy'' then Some ''destroyed''
                                else if fx_action r = ''stop'' then Some ''stopped''
                                else if fx_action r = ''provision'' \<or> fx_action r = ''start'' then Some ''active''
                                else None)
               in (case new_state of
                     None \<Rightarrow> Inr l
                   | Some s \<Rightarrow> Inr (l\<lparr>celld_instance_generations := sql_update
                       (\<lambda>g. gn_instance_id g = fx_instance_id r \<and> gn_generation g = fx_generation r)
                       (\<lambda>g. g\<lparr>gn_state := s, gn_updated_at := now\<rparr>)
                       (celld_instance_generations l)\<rparr>))))"

definition complete_with_code ::
  "json_codec \<Rightarrow> string \<Rightarrow> EffectLedger \<Rightarrow> string \<Rightarrow> EffectStatus \<Rightarrow> string option \<Rightarrow> json option \<Rightarrow>
   EffectLedgerError + EffectLedger" where
  "complete_with_code cd now l op status code result =
     (if \<not> is_terminal status then Inr l
      else
        let result_json = map_option (json_to_string cd) result in
        if result_json = Some None then Inl (Database ToSqlConversionFailure)
        else
          let text = Option.bind result_json id;
              p = (\<lambda>r. fx_operation_id r = op \<and>
                        fx_status r \<notin> {''succeeded'', ''failed'', ''rejected''});
              changed = sql_changes p (celld_effects l);
              l' = l\<lparr>celld_effects := sql_update p
                     (\<lambda>r. r\<lparr>fx_status := status_name status, fx_terminal_code := code,
                             fx_result_json := text, fx_updated_at := now\<rparr>) (celld_effects l)\<rparr>
          in if changed = 0 then
               (case effect_at l' op of
                  None \<Rightarrow> Inl (UnknownOperation op)
                | Some r \<Rightarrow>
                    (case parse_status (fx_status r) of
                       None \<Rightarrow> Inl (CorruptRecord ''status'')
                     | Some existing \<Rightarrow>
                         if existing \<noteq> status \<or> fx_terminal_code r \<noteq> code \<or> fx_result_json r \<noteq> text
                         then Inl (TerminalConflict op existing status)
                         else update_instance_state now l' op status))
             else update_instance_state now l' op status)"

definition ledger_complete ::
  "json_codec \<Rightarrow> string \<Rightarrow> EffectLedger \<Rightarrow> string \<Rightarrow> EffectStatus \<Rightarrow> json option \<Rightarrow>
   EffectLedgerError + EffectLedger" where
  "ledger_complete cd now l op status result = complete_with_code cd now l op status None result"

text \<open>The operations as one alphabet; an operation that returns an error leaves the tables as they are.\<close>

datatype ledger_op =
    LClaim string CellCommand u64
  | LClaimManaged string CellCommand
  | LBegin string string
  | LSetMgmt string string string
  | LUnknown string string
  | LComplete string string EffectStatus "string option" "json option"

fun ledger_step :: "json_codec \<Rightarrow> EffectLedger \<Rightarrow> ledger_op \<Rightarrow> EffectLedger" where
  "ledger_step cd l (LClaim now cmd g) = (case claim now l cmd g of Inl _ \<Rightarrow> l | Inr (_, l') \<Rightarrow> l')"
| "ledger_step cd l (LClaimManaged now cmd) = (case claim_managed now l cmd of Inl _ \<Rightarrow> l | Inr (_, l') \<Rightarrow> l')"
| "ledger_step cd l (LBegin now op) = (case begin_dispatch now l op of Inl _ \<Rightarrow> l | Inr (_, l') \<Rightarrow> l')"
| "ledger_step cd l (LSetMgmt now op m) =
     (case set_management_operation cd now l op m of Inl _ \<Rightarrow> l | Inr l' \<Rightarrow> l')"
| "ledger_step cd l (LUnknown now op) = (case mark_unknown cd now l op of Inl _ \<Rightarrow> l | Inr l' \<Rightarrow> l')"
| "ledger_step cd l (LComplete now op st code res) =
     (case complete_with_code cd now l op st code res of Inl _ \<Rightarrow> l | Inr l' \<Rightarrow> l')"

subsection \<open>The table transitions\<close>

text \<open>
  What the operations may do to the two tables, as step relations: an effect row is inserted
  pending, then dispatched, linked to a management operation, marked unknown and finished; a
  generation row is inserted, advanced by one after a destroy, or given another state.
\<close>

inductive effects_change :: "json_codec \<Rightarrow> effect_row list \<Rightarrow> effect_row list \<Rightarrow> bool" for cd where
  fx_same: "effects_change cd t t"
| fx_insert: "tbl_get fx_operation_id (fx_operation_id r) t = None \<Longrightarrow> 0 \<le> fx_generation r \<Longrightarrow>
    fx_generation r < 2 ^ 63 \<Longrightarrow> parse_action (fx_action r) \<noteq> None \<Longrightarrow> fx_status r = ''pending'' \<Longrightarrow>
    fx_provider_dispatch_count r = 0 \<Longrightarrow> fx_terminal_code r = None \<Longrightarrow> fx_result_json r = None \<Longrightarrow>
    effects_change cd t (t @ [r])"
| fx_dispatch: "effects_change cd t (sql_update (\<lambda>r. fx_operation_id r = op \<and> fx_status r = ''pending'')
    (\<lambda>r. r\<lparr>fx_status := ''dispatched'', fx_provider_dispatch_count := fx_provider_dispatch_count r + 1,
            fx_updated_at := now\<rparr>) t)"
| fx_link: "effects_change cd t (sql_update
    (\<lambda>r. fx_operation_id r = op \<and> fx_status r \<in> {''dispatched'', ''unknown''})
    (\<lambda>r. r\<lparr>fx_management_operation_id :=
             (case fx_management_operation_id r of None \<Rightarrow> Some mgmt | Some m \<Rightarrow> Some m),
            fx_updated_at := now\<rparr>) t)"
| fx_unknown: "effects_change cd t (sql_update (\<lambda>r. fx_operation_id r = op \<and> fx_status r = ''dispatched'')
    (\<lambda>r. r\<lparr>fx_status := ''unknown'', fx_updated_at := now\<rparr>) t)"
| fx_finish: "is_terminal status \<Longrightarrow> (\<And>s. text = Some s \<Longrightarrow> \<exists>v. json_to_string cd v = Some s) \<Longrightarrow>
    effects_change cd t (sql_update
      (\<lambda>r. fx_operation_id r = op \<and> fx_status r \<notin> {''succeeded'', ''failed'', ''rejected''})
      (\<lambda>r. r\<lparr>fx_status := status_name status, fx_terminal_code := code, fx_result_json := text,
              fx_updated_at := now\<rparr>) t)"

inductive gens_change :: "generation_row list \<Rightarrow> generation_row list \<Rightarrow> bool" where
  gn_same: "gens_change t t"
| gn_insert: "tbl_get gn_instance_id (gn_instance_id r) t = None \<Longrightarrow> 0 \<le> gn_generation r \<Longrightarrow>
    gn_generation r < 2 ^ 63 \<Longrightarrow> gn_state r = ''provisioning'' \<Longrightarrow> gens_change t (t @ [r])"
| gn_advance: "tbl_get gn_instance_id inst t = Some r \<Longrightarrow> gn_state r = ''destroyed'' \<Longrightarrow>
    gen = gn_generation r + 1 \<Longrightarrow> gen < 2 ^ 63 \<Longrightarrow>
    gens_change t (sql_update (\<lambda>r. gn_instance_id r = inst)
      (\<lambda>r. r\<lparr>gn_generation := gen, gn_state := ''provisioning'', gn_updated_at := now\<rparr>) t)"
| gn_state: "st \<in> {''destroyed'', ''stopped'', ''active''} \<Longrightarrow>
    gens_change t (sql_update (\<lambda>g. gn_instance_id g = inst \<and> gn_generation g = gen)
      (\<lambda>g. g\<lparr>gn_state := st, gn_updated_at := now\<rparr>) t)"

lemma parse_status_name [simp]: "parse_status (status_name s) = Some s"
  by (cases s) (simp_all add: parse_status_def)

lemma parse_action_name [simp]: "parse_action (action_name a) = Some a"
  by (cases a) (simp_all add: parse_action_def)

lemma parse_status_Some: "parse_status v = Some s \<longleftrightarrow> v = status_name s"
proof
  assume "parse_status v = Some s"
  then show "v = status_name s" by (auto simp: parse_status_def split: if_splits)
qed simp

lemma parse_action_Some: "parse_action v = Some a \<longleftrightarrow> v = action_name a"
proof
  assume "parse_action v = Some a"
  then show "v = action_name a" by (auto simp: parse_action_def split: if_splits)
qed simp

lemma claim_on_connection_change:
  assumes "claim_on_connection now l cmd = Inr (d, l')"
  shows "effects_change cd (celld_effects l) (celld_effects l')"
    and "celld_instance_generations l' = celld_instance_generations l"
  using assms
  by (auto simp: claim_on_connection_def effect_at_def split: option.splits if_splits
      intro!: effects_change.intros dest!: u64_to_sql_bounds)

lemma bind_generation_change:
  assumes "bind_generation now l cmd = Inr l'"
    and gens_bounded: "\<forall>r \<in> set (celld_instance_generations l). gn_generation r < 2 ^ 63"
  shows "celld_effects l' = celld_effects l"
    and "gens_change (celld_instance_generations l) (celld_instance_generations l')"
proof -
  show "celld_effects l' = celld_effects l"
    using assms(1) by (auto simp: bind_generation_def split: option.splits if_splits)
  show "gens_change (celld_instance_generations l) (celld_instance_generations l')"
  proof (cases "generation_at l (cmd_instance_id cmd)")
    case None
    with assms(1) show ?thesis
      by (auto simp: bind_generation_def generation_at_def split: option.splits if_splits
          intro!: gn_insert dest!: u64_to_sql_bounds)
  next
    case (Some row)
    then have bnd: "gn_generation row < 2 ^ 63"
      using gens_bounded by (auto simp: generation_at_def dest: tbl_get_SomeD)
    show ?thesis
    proof (cases "l' = l")
      case False
      with assms(1) Some obtain cur gen where c: "u64_from_sql (gn_generation row) = Some cur"
        "\<not> cmd_generation cmd < cur" "cmd_generation cmd \<noteq> cur" "gn_state row = ''destroyed''"
        "cmd_generation cmd = saturating_add cur 1" "u64_to_sql (cmd_generation cmd) = Some gen"
        and l': "l' = l\<lparr>celld_instance_generations :=
            sql_update (\<lambda>r. gn_instance_id r = cmd_instance_id cmd)
              (\<lambda>r. r\<lparr>gn_generation := gen, gn_state := ''provisioning'', gn_updated_at := now\<rparr>)
              (celld_instance_generations l)\<rparr>"
        by (auto simp: bind_generation_def split: option.splits if_splits)
      have "uint cur = gn_generation row" using c(1) bnd by (simp add: u64_from_sql_Some)
      then have "gen = gn_generation row + 1"
        using c(3,5) uint_saturating_add_1 [of cur] u64_to_sql_Some [OF c(6)] by auto
      moreover have "gen < 2 ^ 63" using u64_to_sql_bounds [OF c(6)] by simp
      ultimately show ?thesis
        unfolding l' using Some c(4) by (auto simp: generation_at_def intro: gn_advance)
    qed (simp add: gn_same)
  qed
qed

lemma begin_dispatch_change:
  assumes "begin_dispatch now l op = Inr (b, l')"
  shows "effects_change cd (celld_effects l) (celld_effects l')"
    and "celld_instance_generations l' = celld_instance_generations l"
  using assms by (auto simp: begin_dispatch_def Let_def split: if_splits intro: fx_dispatch)

lemma set_management_operation_change:
  assumes "set_management_operation cd now l op m = Inr l'"
  shows "effects_change cd (celld_effects l) (celld_effects l')"
    and "celld_instance_generations l' = celld_instance_generations l"
  using assms fx_same fx_link
  by (auto simp: set_management_operation_def Let_def split: if_splits sum.splits option.splits)

lemma mark_unknown_change:
  assumes "mark_unknown cd now l op = Inr l'"
  shows "effects_change cd (celld_effects l) (celld_effects l')"
    and "celld_instance_generations l' = celld_instance_generations l"
  using assms
  by (auto simp: mark_unknown_def Let_def split: if_splits sum.splits option.splits intro: fx_unknown)

lemma update_instance_state_change:
  assumes "update_instance_state now l op status = Inr l'"
  shows "celld_effects l' = celld_effects l"
    and "gens_change (celld_instance_generations l) (celld_instance_generations l')"
  using assms gn_same gn_state
  by (auto simp: update_instance_state_def Let_def split: if_splits option.splits)

lemma complete_with_code_change:
  assumes "complete_with_code cd now l op status code result = Inr l'"
  shows "effects_change cd (celld_effects l) (celld_effects l')"
    and "gens_change (celld_instance_generations l) (celld_instance_generations l')"
proof -
  show "effects_change cd (celld_effects l) (celld_effects l')"
  proof (cases "is_terminal status")
    case True
    define rj where "rj = Option.bind (map_option (json_to_string cd) result) id"
    have "celld_effects l' = sql_update
      (\<lambda>r. fx_operation_id r = op \<and> fx_status r \<notin> {''succeeded'', ''failed'', ''rejected''})
      (\<lambda>r. r\<lparr>fx_status := status_name status, fx_terminal_code := code, fx_result_json := rj,
              fx_updated_at := now\<rparr>) (celld_effects l)"
      using assms True
      by (auto simp: complete_with_code_def Let_def rj_def
          split: if_splits option.splits dest!: update_instance_state_change(1))
    moreover have "\<exists>v. json_to_string cd v = Some s" if "rj = Some s" for s
      using that by (auto simp: rj_def Option.bind_eq_Some_conv)
    ultimately show ?thesis using True by (simp only: fx_finish)
  qed (use assms in \<open>simp add: complete_with_code_def fx_same\<close>)
  show "gens_change (celld_instance_generations l) (celld_instance_generations l')"
    using assms gn_same
    by (auto simp: complete_with_code_def Let_def
        split: if_splits option.splits dest!: update_instance_state_change(2))
qed

subsection \<open>The invariant\<close>

text \<open>The dispatch count a row of the given status may have: one grant, and none while pending.\<close>

fun count_ok :: "EffectStatus \<Rightarrow> int \<Rightarrow> bool" where
  "count_ok Pending n = (n = 0)"
| "count_ok Dispatched n = (n = 1)"
| "count_ok EffectStatus.Unknown n = (n = 1)"
| "count_ok _ n = (n = 0 \<or> n = 1)"

definition row_ok :: "effect_row \<Rightarrow> bool" where
  "row_ok r \<longleftrightarrow> (\<exists>s. parse_status (fx_status r) = Some s \<and> count_ok s (fx_provider_dispatch_count r)) \<and>
     parse_action (fx_action r) \<noteq> None \<and> 0 \<le> fx_generation r \<and> fx_generation r < 2 ^ 63"

definition instance_state :: "string \<Rightarrow> bool" where
  "instance_state s \<longleftrightarrow> s \<in> {''provisioning'', ''active'', ''stopped'', ''destroyed''}"

definition generation_row_ok :: "generation_row \<Rightarrow> bool" where
  "generation_row_ok g \<longleftrightarrow> 0 \<le> gn_generation g \<and> gn_generation g < 2 ^ 63 \<and> instance_state (gn_state g)"

definition ledger_ok :: "EffectLedger \<Rightarrow> bool" where
  "ledger_ok l \<longleftrightarrow>
     key_unique fx_operation_id (celld_effects l) \<and> (\<forall>r \<in> set (celld_effects l). row_ok r) \<and>
     key_unique gn_instance_id (celld_instance_generations l) \<and>
     (\<forall>g \<in> set (celld_instance_generations l). generation_row_ok g)"

definition empty_ledger :: EffectLedger where
  "empty_ledger = \<lparr>celld_effects = [], celld_instance_generations = []\<rparr>"

lemma empty_ledger_ok: "ledger_ok empty_ledger"
  by (simp add: ledger_ok_def empty_ledger_def)

lemma parse_status_eval [simp]:
  "parse_status ''pending'' = Some Pending" "parse_status ''dispatched'' = Some Dispatched"
  "parse_status ''unknown'' = Some EffectStatus.Unknown"
  by (simp_all add: parse_status_def)

lemma instance_state_eval [simp]:
  "instance_state ''provisioning''" "instance_state ''active''" "instance_state ''stopped''"
  "instance_state ''destroyed''"
  by (simp_all add: instance_state_def)

lemma count_ok_01: "count_ok s n \<Longrightarrow> n = 0 \<or> n = 1"
  by (cases s) simp_all

lemma count_ok_terminal: "is_terminal s \<Longrightarrow> count_ok s n \<longleftrightarrow> n = 0 \<or> n = 1"
  by (cases s) simp_all

lemma effects_change_unique:
  assumes "effects_change cd t t'" and "key_unique fx_operation_id t"
  shows "key_unique fx_operation_id t'"
  using assms by cases (auto intro: key_unique_intros)

lemma effects_change_rows:
  assumes "effects_change cd t t'" and "\<forall>r \<in> set t. row_ok r"
  shows "\<forall>r \<in> set t'. row_ok r"
  using assms(1)
proof cases
  case (fx_finish status rj op code now)
  show ?thesis
    unfolding fx_finish(1)
    by (rule sql_update_ball [OF assms(2)])
      (use fx_finish(2) in \<open>auto simp: row_ok_def count_ok_terminal dest: count_ok_01\<close>)
next
  case fx_dispatch
  show ?thesis unfolding fx_dispatch by (rule sql_update_ball [OF assms(2)]) (auto simp: row_ok_def)
next
  case fx_link
  show ?thesis unfolding fx_link by (rule sql_update_ball [OF assms(2)]) (auto simp: row_ok_def)
next
  case fx_unknown
  show ?thesis unfolding fx_unknown by (rule sql_update_ball [OF assms(2)]) (auto simp: row_ok_def)
qed (use assms(2) in \<open>auto simp: row_ok_def\<close>)

lemma gens_change_ok:
  assumes "gens_change t t'" and "key_unique gn_instance_id t" and "\<forall>g \<in> set t. generation_row_ok g"
  shows "key_unique gn_instance_id t' \<and> (\<forall>g \<in> set t'. generation_row_ok g)"
  using assms(1)
proof cases
  case (gn_advance inst r gen now)
  from gn_advance(2) assms(3) have "0 \<le> gn_generation r"
    by (auto simp: generation_row_ok_def dest: tbl_get_SomeD)
  with gn_advance assms(2,3) show ?thesis
    by (auto simp: generation_row_ok_def elim!: set_sql_updateE intro!: key_unique_intros)
qed (use assms(2,3) in \<open>auto simp: generation_row_ok_def elim!: set_sql_updateE intro!: key_unique_intros\<close>)

lemma ledger_step_change:
  assumes "ledger_ok l"
  shows "effects_change cd (celld_effects l) (celld_effects (ledger_step cd l op)) \<and>
    gens_change (celld_instance_generations l) (celld_instance_generations (ledger_step cd l op))"
proof (cases op)
  case (LClaim now cmd g)
  then show ?thesis
    using claim_on_connection_change [of now l cmd]
    by (auto simp: claim_def gn_same fx_same split: sum.splits if_splits)
next
  case (LClaimManaged now cmd)
  have "\<forall>r \<in> set (celld_instance_generations l). gn_generation r < 2 ^ 63"
    using assms by (auto simp: ledger_ok_def generation_row_ok_def)
  note bind = bind_generation_change [OF _ this]
  show ?thesis
  proof (cases "bind_generation now l cmd")
    case (Inr l\<^sub>1)
    then show ?thesis
      using LClaimManaged bind [OF Inr] claim_on_connection_change [of now l\<^sub>1 cmd]
      by (auto simp: claim_managed_def gn_same fx_same split: sum.splits)
  qed (simp add: LClaimManaged claim_managed_def gn_same fx_same)
next
  case (LBegin now x)
  then show ?thesis
    using begin_dispatch_change [of now l x]
    by (auto simp: gn_same fx_same split: sum.splits)
next
  case (LSetMgmt now x m)
  then show ?thesis
    by (auto simp: gn_same fx_same split: sum.splits dest: set_management_operation_change)
next
  case (LUnknown now x)
  then show ?thesis
    by (auto simp: gn_same fx_same split: sum.splits dest: mark_unknown_change)
next
  case (LComplete now x st code res)
  then show ?thesis
    by (auto simp: gn_same fx_same split: sum.splits dest: complete_with_code_change)
qed

lemma ledger_step_ok:
  assumes "ledger_ok l"
  shows "ledger_ok (ledger_step cd l op)"
proof -
  note ch = ledger_step_change [OF assms, of cd op]
  show ?thesis
    using effects_change_unique [OF conjunct1 [OF ch]] effects_change_rows [OF conjunct1 [OF ch]]
      gens_change_ok [OF conjunct2 [OF ch]] assms
    by (simp add: ledger_ok_def)
qed

interpretation ledger_ops: op_system "ledger_step cd" ledger_ok for cd
  by unfold_locales (rule ledger_step_ok)

subsection \<open>Effect rows across a step\<close>

definition fx_binding :: "effect_row \<Rightarrow> string \<times> string \<times> string \<times> int \<times> string" where
  "fx_binding r = (fx_operation_id r, fx_request_hash r, fx_instance_id r, fx_generation r, fx_action r)"

definition fx_terminal :: "effect_row \<Rightarrow> bool" where
  "fx_terminal r \<longleftrightarrow> fx_status r \<in> {''succeeded'', ''failed'', ''rejected''}"

text \<open>A row keeps its binding, never returns to pending, and is frozen once terminal.\<close>

definition fx_follows :: "effect_row option \<Rightarrow> effect_row option \<Rightarrow> bool" where
  "fx_follows old new =
     (case old of None \<Rightarrow> True
      | Some r \<Rightarrow> (\<exists>r'. new = Some r' \<and> fx_binding r' = fx_binding r \<and>
                      (fx_status r' = ''pending'' \<longrightarrow> fx_status r = ''pending'') \<and>
                      (fx_terminal r \<longrightarrow> r' = r)))"

lemma fx_follows_refl [simp]: "fx_follows x x"
  by (simp add: fx_follows_def split: option.splits)

lemma fx_follows_trans: "fx_follows x y \<Longrightarrow> fx_follows y z \<Longrightarrow> fx_follows x z"
  by (fastforce simp: fx_follows_def split: option.splits)

lemma status_name_terminal: "is_terminal s \<Longrightarrow> status_name s \<noteq> ''pending''"
  by (cases s) simp_all

lemma effects_change_follows:
  assumes "effects_change cd t t'"
  shows "fx_follows (tbl_get fx_operation_id k t) (tbl_get fx_operation_id k t')"
  using assms
  by cases (auto simp: table_simps fx_follows_def fx_binding_def fx_terminal_def status_name_terminal
      split: option.splits)

lemma ledger_step_follows:
  "ledger_ok l \<Longrightarrow> fx_follows (effect_at l k) (effect_at (ledger_step cd l op) k)"
  using ledger_step_change [of l cd op] by (auto simp: effect_at_def intro: effects_change_follows)

lemma ledger_run_follows:
  "ledger_ok l \<Longrightarrow> fx_follows (effect_at l k) (effect_at (run (ledger_step cd) l ops) k)"
  by (induction ops arbitrary: l) (auto intro: fx_follows_trans ledger_step_follows ledger_step_ok)

text \<open>The claims that were acquired, the dispatches that were granted, and the final outcomes.\<close>

definition claimed :: "EffectLedger \<Rightarrow> ledger_op \<Rightarrow> string option" where
  "claimed l op =
     (case op of
        LClaim now cmd g \<Rightarrow>
          (case claim now l cmd g of Inr (Acquired, _) \<Rightarrow> Some (cmd_operation_id cmd) | _ \<Rightarrow> None)
      | LClaimManaged now cmd \<Rightarrow>
          (case claim_managed now l cmd of Inr (Acquired, _) \<Rightarrow> Some (cmd_operation_id cmd) | _ \<Rightarrow> None)
      | _ \<Rightarrow> None)"

definition dispatch_granted :: "EffectLedger \<Rightarrow> ledger_op \<Rightarrow> string option" where
  "dispatch_granted l op =
     (case op of LBegin now x \<Rightarrow>
        (case begin_dispatch now l x of Inr (True, _) \<Rightarrow> Some x | _ \<Rightarrow> None)
      | _ \<Rightarrow> None)"

definition left_pending :: "EffectLedger \<Rightarrow> string \<Rightarrow> bool" where
  "left_pending l k \<longleftrightarrow> (\<exists>r. effect_at l k = Some r \<and> fx_status r \<noteq> ''pending'')"

definition ledger_outcome ::
  "EffectLedger \<Rightarrow> string \<Rightarrow> (string \<times> string option \<times> string option) option" where
  "ledger_outcome l k =
     (case effect_at l k of
        Some r \<Rightarrow> if fx_terminal r then Some (fx_status r, fx_terminal_code r, fx_result_json r) else None
      | None \<Rightarrow> None)"

lemma claim_on_connection_Acquired:
  assumes "claim_on_connection now l cmd = Inr (Acquired, l')"
  shows "effect_at l (cmd_operation_id cmd) = None" and "effect_at l' (cmd_operation_id cmd) \<noteq> None"
  using assms
  by (auto simp: claim_on_connection_def effect_at_def table_simps split: option.splits if_splits)

lemma bind_generation_effects: "bind_generation now l cmd = Inr l' \<Longrightarrow> celld_effects l' = celld_effects l"
  by (auto simp: bind_generation_def split: option.splits if_splits)

lemma claim_managed_Inr:
  assumes "claim_managed now l cmd = Inr (d, l')"
  obtains l\<^sub>1 where "bind_generation now l cmd = Inr l\<^sub>1" "claim_on_connection now l\<^sub>1 cmd = Inr (d, l')"
    "celld_effects l\<^sub>1 = celld_effects l"
  using assms by (auto simp: claim_managed_def bind_generation_effects split: sum.splits)

lemma claim_managed_Acquired:
  assumes "claim_managed now l cmd = Inr (Acquired, l')"
  shows "effect_at l (cmd_operation_id cmd) = None" and "effect_at l' (cmd_operation_id cmd) \<noteq> None"
proof -
  obtain l\<^sub>1 where "claim_on_connection now l\<^sub>1 cmd = Inr (Acquired, l')" "celld_effects l\<^sub>1 = celld_effects l"
    using assms by (rule claim_managed_Inr)
  with claim_on_connection_Acquired [of now l\<^sub>1 cmd l']
  show "effect_at l (cmd_operation_id cmd) = None" and "effect_at l' (cmd_operation_id cmd) \<noteq> None"
    by (simp_all add: effect_at_def)
qed

interpretation ledger_claims: at_most_once "ledger_step cd" ledger_ok claimed "\<lambda>l k. effect_at l k \<noteq> None" for cd
proof unfold_locales
  fix s op k
  assume "claimed s op = Some k"
  then show "\<not> effect_at s k \<noteq> None" and "effect_at (ledger_step cd s op) k \<noteq> None"
    by (auto simp: claimed_def claim_def split: ledger_op.splits sum.splits prod.splits EffectClaim.splits if_splits
        dest: claim_on_connection_Acquired claim_managed_Acquired)
next
  fix s k op
  assume "ledger_ok s" and "effect_at s k \<noteq> None"
  then show "effect_at (ledger_step cd s op) k \<noteq> None"
    using ledger_step_follows [of s k cd op] by (auto simp: fx_follows_def)
qed

lemma begin_dispatch_True:
  assumes "begin_dispatch now l x = Inr (True, l')" and "ledger_ok l"
  obtains r where "effect_at l x = Some r" "fx_status r = ''pending''"
    "effect_at l' x = Some (r\<lparr>fx_status := ''dispatched'',
       fx_provider_dispatch_count := fx_provider_dispatch_count r + 1, fx_updated_at := now\<rparr>)"
proof -
  have "key_unique fx_operation_id (celld_effects l)" using assms(2) by (simp add: ledger_ok_def)
  note ch = sql_changes_key [OF this, of x "\<lambda>r. fx_status r = ''pending''"]
  from assms(1) have "sql_changes (\<lambda>r. fx_operation_id r = x \<and> fx_status r = ''pending'') (celld_effects l) = 1"
    and l': "l' = l\<lparr>celld_effects := sql_update (\<lambda>r. fx_operation_id r = x \<and> fx_status r = ''pending'')
                 (\<lambda>r. r\<lparr>fx_status := ''dispatched'',
                         fx_provider_dispatch_count := fx_provider_dispatch_count r + 1,
                         fx_updated_at := now\<rparr>) (celld_effects l)\<rparr>"
    by (auto simp: begin_dispatch_def Let_def split: if_splits)
  with ch obtain r where r: "tbl_get fx_operation_id x (celld_effects l) = Some r" "fx_status r = ''pending''"
    by (auto split: option.splits if_splits)
  moreover have "fx_operation_id r = x" using r(1) by (auto dest: tbl_get_SomeD)
  ultimately show ?thesis
    by (intro that [of r]) (simp_all add: l' effect_at_def table_simps)
qed

interpretation ledger_dispatch: at_most_once "ledger_step cd" ledger_ok dispatch_granted left_pending for cd
proof unfold_locales
  fix s op k
  assume ok: "ledger_ok s" and "dispatch_granted s op = Some k"
  then obtain now s' where op: "op = LBegin now k" "begin_dispatch now s k = Inr (True, s')"
    by (auto simp: dispatch_granted_def split: ledger_op.splits sum.splits bool.splits)
  obtain r where "effect_at s k = Some r" "fx_status r = ''pending''"
    "effect_at s' k = Some (r\<lparr>fx_status := ''dispatched'',
       fx_provider_dispatch_count := fx_provider_dispatch_count r + 1, fx_updated_at := now\<rparr>)"
    by (rule begin_dispatch_True [OF op(2) ok])
  then show "\<not> left_pending s k" and "left_pending (ledger_step cd s op) k"
    by (auto simp: left_pending_def op)
next
  fix s k op
  assume "ledger_ok s" and "left_pending s k"
  then show "left_pending (ledger_step cd s op) k"
    using ledger_step_follows [of s k cd op] by (auto simp: fx_follows_def left_pending_def)
qed

interpretation ledger_outcomes: final_outcomes "ledger_step cd" ledger_ok ledger_outcome for cd
proof unfold_locales
  fix s k v op
  assume "ledger_ok s" and "ledger_outcome s k = Some v"
  then show "ledger_outcome (ledger_step cd s op) k = Some v"
    using ledger_step_follows [of s k cd op]
    by (auto simp: ledger_outcome_def fx_follows_def split: option.splits if_splits)
qed

subsection \<open>The dispatch count\<close>

definition dispatches :: "EffectLedger \<Rightarrow> string \<Rightarrow> int" where
  "dispatches l k = (case effect_at l k of None \<Rightarrow> 0 | Some r \<Rightarrow> fx_provider_dispatch_count r)"

lemma sql_update_dispatches:
  assumes "\<And>r. fx_provider_dispatch_count (f r) = fx_provider_dispatch_count r"
    and "\<And>r. fx_operation_id (f r) = fx_operation_id r"
  shows "dispatches (l\<lparr>celld_effects := sql_update p f (celld_effects l)\<rparr>) k = dispatches l k"
  using assms by (simp add: dispatches_def effect_at_def table_simps split: option.splits)

lemma dispatches_cong: "celld_effects l = celld_effects l' \<Longrightarrow> dispatches l k = dispatches l' k"
  by (simp add: dispatches_def effect_at_def)

lemma claim_on_connection_dispatches:
  "claim_on_connection now l cmd = Inr (d, l') \<Longrightarrow> dispatches l' k = dispatches l k"
  by (auto simp: claim_on_connection_def dispatches_def effect_at_def table_simps
      split: option.splits if_splits)

lemma claim_managed_dispatches:
  assumes "claim_managed now l cmd = Inr (d, l')"
  shows "dispatches l' k = dispatches l k"
proof -
  obtain l\<^sub>1 where "claim_on_connection now l\<^sub>1 cmd = Inr (d, l')" "celld_effects l\<^sub>1 = celld_effects l"
    using assms by (rule claim_managed_Inr)
  then show ?thesis using claim_on_connection_dispatches dispatches_cong by metis
qed

lemma complete_with_code_dispatches:
  assumes "complete_with_code cd now l op status code result = Inr l'"
  shows "dispatches l' k = dispatches l k"
proof -
  have "dispatches l' k = dispatches l\<^sub>1 k" if "update_instance_state now l\<^sub>1 op status = Inr l'" for l\<^sub>1
    using update_instance_state_change(1) [OF that] by (rule dispatches_cong)
  with assms show ?thesis
    by (auto simp: complete_with_code_def Let_def sql_update_dispatches split: if_splits option.splits)
qed

lemma begin_dispatch_dispatches:
  assumes "ledger_ok l" and "begin_dispatch now l op = Inr (b, l')"
  shows "dispatches l' k = dispatches l k + (if b \<and> k = op then 1 else 0)"
proof (cases b)
  case True
  with assms(2) have t: "begin_dispatch now l op = Inr (True, l')" by simp
  obtain r where r: "effect_at l op = Some r" "fx_status r = ''pending''"
    "effect_at l' op = Some (r\<lparr>fx_status := ''dispatched'',
       fx_provider_dispatch_count := fx_provider_dispatch_count r + 1, fx_updated_at := now\<rparr>)"
    by (rule begin_dispatch_True [OF t assms(1)])
  show ?thesis
  proof (cases "k = op")
    case False
    then have "effect_at l' k = effect_at l k"
      using t by (auto simp: begin_dispatch_def Let_def effect_at_def table_simps map_option_case
          split: if_splits option.splits dest: tbl_get_SomeD)
    with False show ?thesis by (simp add: dispatches_def)
  qed (use r True in \<open>simp add: dispatches_def\<close>)
next
  case False
  have "key_unique fx_operation_id (celld_effects l)" using assms(1) by (simp add: ledger_ok_def)
  note ch = sql_changes_key [OF this, of op "\<lambda>r. fx_status r = ''pending''"]
  have "sql_changes (\<lambda>r. fx_operation_id r = op \<and> fx_status r = ''pending'') (celld_effects l) = 0"
    using False assms(2) ch by (auto simp: begin_dispatch_def Let_def split: if_splits option.splits)
  with False assms(2) show ?thesis
    by (auto simp: begin_dispatch_def sql_update_none split: if_splits)
qed

lemma ledger_step_dispatches:
  assumes "ledger_ok l"
  shows "dispatches (ledger_step cd l op) k =
    dispatches l k + (if dispatch_granted l op = Some k then 1 else 0)"
proof (cases op)
  case (LClaim now cmd g)
  then show ?thesis
    by (auto simp: claim_def dispatch_granted_def claim_on_connection_dispatches split: sum.splits if_splits)
next
  case (LClaimManaged now cmd)
  then show ?thesis
    by (auto simp: dispatch_granted_def claim_managed_dispatches split: sum.splits)
next
  case (LBegin now x)
  then show ?thesis
    by (auto simp: dispatch_granted_def begin_dispatch_dispatches [OF assms] split: sum.splits bool.splits)
next
  case (LSetMgmt now x m)
  then show ?thesis
    by (auto simp: dispatch_granted_def set_management_operation_def Let_def sql_update_dispatches
        split: sum.splits option.splits if_splits)
next
  case (LUnknown now x)
  then show ?thesis
    by (auto simp: dispatch_granted_def mark_unknown_def Let_def sql_update_dispatches
        split: sum.splits option.splits if_splits)
next
  case (LComplete now x st code res)
  then show ?thesis
    by (auto simp: dispatch_granted_def complete_with_code_dispatches split: sum.splits)
qed

lemma ledger_run_dispatches:
  "ledger_ok l \<Longrightarrow> dispatches (run (ledger_step cd) l ops) k =
     dispatches l k + int (count_list (grants (ledger_step cd) dispatch_granted l ops) k)"
  by (induction ops arbitrary: l)
    (auto simp: ledger_step_dispatches ledger_step_ok split: option.splits)

subsection \<open>Generations\<close>

definition gn_follows :: "generation_row option \<Rightarrow> generation_row option \<Rightarrow> bool" where
  "gn_follows old new =
     (case old of None \<Rightarrow> True
      | Some g \<Rightarrow> (\<exists>g'. new = Some g' \<and>
          (gn_generation g' = gn_generation g \<or>
           gn_generation g' = gn_generation g + 1 \<and> gn_state g = ''destroyed'' \<and>
             gn_state g' = ''provisioning'')))"

lemma gens_change_follows:
  assumes "gens_change t t'"
  shows "gn_follows (tbl_get gn_instance_id k t) (tbl_get gn_instance_id k t')"
  using assms
proof cases
  case (gn_advance inst r gen now)
  then show ?thesis
    by (cases "k = inst") (auto simp: table_simps gn_follows_def split: option.splits dest: tbl_get_SomeD)
qed (auto simp: table_simps gn_follows_def split: option.splits)

lemma ledger_step_gn_follows:
  "ledger_ok l \<Longrightarrow> gn_follows (generation_at l k) (generation_at (ledger_step cd l op) k)"
  using ledger_step_change [of l cd op] by (auto simp: generation_at_def intro: gens_change_follows)

lemma ledger_run_generation:
  assumes "ledger_ok l" and "generation_at l k = Some g"
  shows "\<exists>g'. generation_at (run (ledger_step cd) l ops) k = Some g' \<and> gn_generation g \<le> gn_generation g'"
  using assms
proof (induction ops arbitrary: l g)
  case (Cons op ops)
  obtain g\<^sub>1 where "generation_at (ledger_step cd l op) k = Some g\<^sub>1" "gn_generation g \<le> gn_generation g\<^sub>1"
    using ledger_step_gn_follows [OF Cons.prems(1), of k cd op] Cons.prems(2)
    by (auto simp: gn_follows_def)
  then show ?case
    using Cons.IH [OF ledger_step_ok [OF Cons.prems(1)]] by fastforce
qed auto

subsection \<open>Reading records back\<close>

definition results_ok :: "json_codec \<Rightarrow> EffectLedger \<Rightarrow> bool" where
  "results_ok cd l \<longleftrightarrow> (\<forall>r \<in> set (celld_effects l). \<forall>s. fx_result_json r = Some s \<longrightarrow> json_from_str cd s \<noteq> None)"

lemma effects_change_results:
  assumes "json_roundtrip cd" and "effects_change cd t t'"
    and "\<forall>r \<in> set t. \<forall>s. fx_result_json r = Some s \<longrightarrow> json_from_str cd s \<noteq> None"
  shows "\<forall>r \<in> set t'. \<forall>s. fx_result_json r = Some s \<longrightarrow> json_from_str cd s \<noteq> None"
  using assms(2)
proof cases
  case (fx_finish status rj op code now)
  show ?thesis
    unfolding fx_finish(1)
    by (rule sql_update_ball [OF assms(3)])
      (use fx_finish(3) assms(1) in \<open>auto simp: json_roundtrip_def dest: fx_finish(3)\<close>)
next
  case fx_dispatch
  show ?thesis unfolding fx_dispatch by (rule sql_update_ball [OF assms(3)]) auto
next
  case fx_link
  show ?thesis unfolding fx_link by (rule sql_update_ball [OF assms(3)]) auto
next
  case fx_unknown
  show ?thesis unfolding fx_unknown by (rule sql_update_ball [OF assms(3)]) auto
qed (use assms(3) in auto)

lemma ledger_run_results:
  assumes "json_roundtrip cd" and "ledger_ok l" and "results_ok cd l"
  shows "results_ok cd (run (ledger_step cd) l ops)"
  using assms(2,3)
proof (induction ops arbitrary: l)
  case (Cons op ops)
  have "results_ok cd (ledger_step cd l op)"
    using effects_change_results [OF assms(1) conjunct1 [OF ledger_step_change [OF Cons.prems(1)]]] Cons.prems(2)
    by (simp add: results_ok_def)
  then show ?case using Cons.IH [OF ledger_step_ok [OF Cons.prems(1)]] by simp
qed simp

lemma ledger_record_ok:
  assumes "ledger_ok l" and "results_ok cd l" and "effect_at l k = Some r"
  shows "\<exists>rec. ledger_record cd l k = Inr rec \<and> rec_operation_id rec = k \<and>
     action_name (rec_action rec) = fx_action r \<and> status_name (rec_status rec) = fx_status r \<and>
     uint (rec_generation rec) = fx_generation r \<and>
     uint (rec_provider_dispatch_count rec) = fx_provider_dispatch_count r \<and>
     rec_terminal_code rec = fx_terminal_code r \<and>
     rec_management_operation_id rec = fx_management_operation_id r \<and>
     rec_result rec = Option.bind (fx_result_json r) (json_from_str cd)"
proof -
  have r: "r \<in> set (celld_effects l)" "fx_operation_id r = k"
    using assms(3) by (auto simp: effect_at_def dest: tbl_get_SomeD)
  have "row_ok r" using assms(1) r(1) by (simp add: ledger_ok_def)
  then obtain s a where s: "parse_status (fx_status r) = Some s" "count_ok s (fx_provider_dispatch_count r)"
    "parse_action (fx_action r) = Some a" "0 \<le> fx_generation r" "fx_generation r < 2 ^ 63"
    by (auto simp: row_ok_def)
  then have gen: "u64_from_sql (fx_generation r) = Some (word_of_int (fx_generation r))"
    "uint (word_of_int (fx_generation r) :: u64) = fx_generation r"
    by (simp_all add: u64_from_sql_def uint_word_of_int)
  have cnt: "u64_from_sql (fx_provider_dispatch_count r) = Some (word_of_int (fx_provider_dispatch_count r))"
    "uint (word_of_int (fx_provider_dispatch_count r) :: u64) = fx_provider_dispatch_count r"
    using count_ok_01 [OF s(2)] by (auto simp: u64_from_sql_def)
  have res: "json_from_str cd t \<noteq> None" if "fx_result_json r = Some t" for t
    using assms(2) r(1) that by (simp add: results_ok_def)
  show ?thesis
    using s gen cnt res r(2) parse_status_Some parse_action_Some
    by (auto simp: ledger_record_def record_locked_def assms(3) Let_def split: option.splits)
qed

subsection \<open>Properties of the ledger\<close>

declare claim_def [eval_simps] claim_managed_def [eval_simps] bind_generation_def [eval_simps]
  claim_on_connection_def [eval_simps] begin_dispatch_def [eval_simps] mark_unknown_def [eval_simps]
  set_management_operation_def [eval_simps] complete_with_code_def [eval_simps]
  update_instance_state_def [eval_simps] record_locked_def [eval_simps] ledger_record_def [eval_simps]
  effect_at_def [eval_simps] generation_at_def [eval_simps] parse_status_def [eval_simps]
  parse_action_def [eval_simps] claimed_def [eval_simps] dispatch_granted_def [eval_simps]
  empty_ledger_def [eval_simps]

definition demo_codec :: json_codec where
  "demo_codec = \<lparr>json_to_string = (\<lambda>v. case v of JStr s \<Rightarrow> Some s | _ \<Rightarrow> None),
                 json_from_str = (\<lambda>s. Some (JStr s))\<rparr>"

definition demo_ledger_ops :: "ledger_op list" where
  "demo_ledger_ops = [LClaimManaged ''t'' (demo_command Provision ''o1''), LBegin ''t'' ''o1'',
     LBegin ''t'' ''o1'', LComplete ''t'' ''o1'' Succeeded None (Some (JStr ''r'')),
     LClaimManaged ''t'' (demo_command Destroy ''o2''), LBegin ''t'' ''o2'',
     LComplete ''t'' ''o2'' Succeeded None None]"

lemma demo_codec_roundtrip: "json_roundtrip demo_codec"
  by (auto simp: json_roundtrip_def demo_codec_def split: json.splits)

lemmas ledger_demo = demo_codec_def demo_ledger_ops_def demo_command_def eval_simps

text \<open>
  C4. Single dispatch owner: over any sequence of ledger operations, \<open>begin_dispatch\<close> answers
  \<open>true\<close> at most once per operation, and the durable \<open>provider_dispatch_count\<close> of a row is exactly
  the number of times it did.
\<close>

theorem ledger_single_dispatch_owner:
  assumes "effect_at (run (ledger_step cd) empty_ledger ops) k = Some r"
  shows "distinct (grants (ledger_step cd) dispatch_granted empty_ledger ops) \<and>
    fx_provider_dispatch_count r
      = (if k \<in> set (grants (ledger_step cd) dispatch_granted empty_ledger ops) then 1 else 0)"
proof -
  have d: "distinct (grants (ledger_step cd) dispatch_granted empty_ledger ops)"
    by (rule ledger_dispatch.grants_distinct [OF empty_ledger_ok])
  then have "count_list (grants (ledger_step cd) dispatch_granted empty_ledger ops) k
      = (if k \<in> set (grants (ledger_step cd) dispatch_granted empty_ledger ops) then 1 else 0)"
    by (simp add: distinct_count_list)
  with d ledger_run_dispatches [OF empty_ledger_ok, of cd ops k] assms show ?thesis
    by (simp add: dispatches_def effect_at_def empty_ledger_def)
qed

theorem ledger_single_dispatch_owner_witness:
  "\<exists>r. effect_at (run (ledger_step demo_codec) empty_ledger demo_ledger_ops) ''o1'' = Some r \<and>
     fx_provider_dispatch_count r = 1"
proof -
  obtain r where r: "effect_at (run (ledger_step demo_codec) empty_ledger demo_ledger_ops) ''o1'' = Some r"
    by (simp add: ledger_demo)
  moreover have "''o1'' \<in> set (grants (ledger_step demo_codec) dispatch_granted empty_ledger demo_ledger_ops)"
    by (simp add: ledger_demo)
  ultimately show ?thesis using ledger_single_dispatch_owner [OF r] by simp
qed

text \<open>
  An operation identifier is acquired at most once: over any sequence of ledger operations,
  the identifiers for which \<open>claim\<close> or \<open>claim_managed\<close> answered \<open>Acquired\<close> are pairwise different.
\<close>

theorem ledger_claims_at_most_once:
  "distinct (grants (ledger_step cd) claimed empty_ledger ops)"
  by (rule ledger_claims.grants_distinct [OF empty_ledger_ok])

text \<open>
  C5. A terminal row is final: its status, terminal code and stored result survive every later
  sequence of ledger operations.
\<close>

theorem ledger_terminal_outcome_final:
  assumes "ledger_ok l" and "ledger_outcome l k = Some v"
  shows "ledger_outcome (run (ledger_step cd) l ops) k = Some v"
  by (rule ledger_outcomes.outcome_run [OF assms])

theorem ledger_terminal_outcome_final_witness:
  "ledger_outcome (run (ledger_step demo_codec) (run (ledger_step demo_codec) empty_ledger demo_ledger_ops)
      [LComplete ''t2'' ''o1'' EffectStatus.Failed (Some ''late'') None, LUnknown ''t2'' ''o1'']) ''o1''
    = Some (''succeeded'', None, Some ''r'')"
proof (rule ledger_terminal_outcome_final)
  show "ledger_ok (run (ledger_step demo_codec) empty_ledger demo_ledger_ops)"
    by (rule ledger_ops.inv_run [OF empty_ledger_ok])
  show "ledger_outcome (run (ledger_step demo_codec) empty_ledger demo_ledger_ops) ''o1''
      = Some (''succeeded'', None, Some ''r'')"
    by (simp add: ledger_outcome_def fx_terminal_def ledger_demo)
qed

text \<open>
  A claimed operation identifier stays bound to its request: after any further operations, a
  claim that reuses it is refused as a collision when its request hash differs, and is otherwise
  replayed with the current status, in both cases without changing the ledger.
\<close>

theorem ledger_claim_binding:
  assumes "ledger_ok l" and "claim now l cmd g = Inr (d, l\<^sub>1)" and "l\<^sub>2 = run (ledger_step cd) l\<^sub>1 ops"
    and "cmd_operation_id cmd' = cmd_operation_id cmd" and "uint (cmd_generation cmd') < 2 ^ 63"
  shows "claim now' l\<^sub>2 cmd' (cmd_generation cmd') =
    (if cmd_request_hash cmd' \<noteq> cmd_request_hash cmd then Inl Collision
     else Inr (Replayed (the (parse_status (fx_status (the (effect_at l\<^sub>2 (cmd_operation_id cmd)))))), l\<^sub>2))"
proof -
  have c: "claim_on_connection now l cmd = Inr (d, l\<^sub>1)"
    using assms(2) by (auto simp: claim_def split: if_splits)
  have ok: "ledger_ok l\<^sub>1"
    using ledger_step_ok [OF assms(1), of cd "LClaim now cmd g"] assms(2) by simp
  have ok2: "ledger_ok l\<^sub>2" unfolding assms(3) by (rule ledger_ops.inv_run [OF ok])
  obtain r where r: "effect_at l\<^sub>1 (cmd_operation_id cmd) = Some r" "fx_request_hash r = cmd_request_hash cmd"
    using c by (auto simp: claim_on_connection_def effect_at_def table_simps split: option.splits if_splits)
  obtain r' where r': "effect_at l\<^sub>2 (cmd_operation_id cmd) = Some r'" "fx_binding r' = fx_binding r"
    using ledger_run_follows [OF ok, of "cmd_operation_id cmd" cd ops] r(1) by (auto simp: fx_follows_def assms(3))
  have "row_ok r'"
    using ok2 r'(1) by (auto simp: ledger_ok_def effect_at_def dest: tbl_get_SomeD)
  then obtain s where "parse_status (fx_status r') = Some s" by (auto simp: row_ok_def)
  then show ?thesis
    using r r' assms(4,5) by (auto simp: claim_def claim_on_connection_def u64_to_sql_def fx_binding_def)
qed

theorem ledger_claim_binding_witness:
  "\<exists>l\<^sub>1. claim ''t'' empty_ledger (demo_command Stop ''o1'') 1 = Inr (Acquired, l\<^sub>1) \<and>
     claim ''u'' l\<^sub>1 (demo_command Stop ''o1'' \<lparr>cmd_request_hash := ''x''\<rparr>) 1 = Inl Collision \<and>
     claim ''u'' l\<^sub>1 (demo_command Stop ''o1'') 1 = Inr (Replayed Pending, l\<^sub>1)"
proof -
  obtain l\<^sub>1 where c: "claim ''t'' empty_ledger (demo_command Stop ''o1'') 1 = Inr (Acquired, l\<^sub>1)"
    and s: "fx_status (the (effect_at l\<^sub>1 ''o1'')) = ''pending''"
    by (simp add: ledger_demo)
  note b = ledger_claim_binding [OF empty_ledger_ok c, of l\<^sub>1 demo_codec "[]"]
  from b [of "demo_command Stop ''o1'' \<lparr>cmd_request_hash := ''x''\<rparr>" "''u''"]
    b [of "demo_command Stop ''o1''" "''u''"] c s show ?thesis
    by (simp add: demo_command_def)
qed

text \<open>
  The management generation of an instance never decreases, and a single operation can only
  keep it or, when the instance is recorded as destroyed, advance it by exactly one back to
  provisioning.
\<close>

theorem ledger_generation_advances_after_destroy:
  assumes "ledger_ok l" and "generation_at l i = Some g"
  shows "\<exists>g'. generation_at (ledger_step cd l op) i = Some g' \<and>
     (gn_generation g' = gn_generation g \<or>
      gn_generation g' = gn_generation g + 1 \<and> gn_state g = ''destroyed'' \<and> gn_state g' = ''provisioning'') \<and>
     (\<exists>g''. generation_at (run (ledger_step cd) l ops) i = Some g'' \<and> gn_generation g \<le> gn_generation g'')"
  using ledger_step_gn_follows [OF assms(1), of i cd op] ledger_run_generation [OF assms, of cd ops] assms(2)
  by (auto simp: gn_follows_def)

theorem ledger_generation_advances_after_destroy_witness:
  "\<exists>g'. generation_at (ledger_step demo_codec (run (ledger_step demo_codec) empty_ledger demo_ledger_ops)
       (LClaimManaged ''t'' (demo_command Provision ''o3'' \<lparr>cmd_generation := 2\<rparr>))) ''i1'' = Some g' \<and>
     gn_generation g' \<in> {1, 2}"
proof -
  let ?l = "run (ledger_step demo_codec) empty_ledger demo_ledger_ops"
  obtain g where g: "generation_at ?l ''i1'' = Some g" "gn_generation g = 1"
    by (simp add: ledger_demo)
  have "ledger_ok ?l" by (rule ledger_ops.inv_run [OF empty_ledger_ok])
  from ledger_generation_advances_after_destroy [OF this g(1), of demo_codec
      "LClaimManaged ''t'' (demo_command Provision ''o3'' \<lparr>cmd_generation := 2\<rparr>)"] g(2)
  show ?thesis by auto
qed



text \<open>
  A replayed completion is not inert: after provision, destroy and their completions, sending
  the provision's completion again leaves the effect row alone but moves the instance from
  destroyed back to active, so that the next generation can no longer be provisioned.
\<close>

theorem ledger_replayed_completion_reactivates:
  "map_option gn_state (generation_at (run (ledger_step demo_codec) empty_ledger demo_ledger_ops) ''i1'')
     = Some ''destroyed'' \<and>
   map_option gn_state (generation_at (run (ledger_step demo_codec) empty_ledger
     (demo_ledger_ops @ [LComplete ''t'' ''o1'' Succeeded None (Some (JStr ''r''))])) ''i1'') = Some ''active'' \<and>
   claim_managed ''t'' (run (ledger_step demo_codec) empty_ledger
     (demo_ledger_ops @ [LComplete ''t'' ''o1'' Succeeded None (Some (JStr ''r''))]))
     (demo_command Provision ''o3'' \<lparr>cmd_generation := 2\<rparr>) = Inl GenerationAdvanceNotAllowed"
  by (simp add: ledger_demo)

end
