(* ===== verification/Extension_Context.thy ===== *)
theory Extension_Context
  imports Rust_Prelude
begin

section \<open>What an A2A extension sees of a request (\<open>extensions/mod.rs\<close>, \<open>instance.rs\<close>)\<close>

text \<open>
  The activated extensions of a request, the contexts the hooks are called with and the outcome of the
  pre-request hook. The decoding and encoding of header values belongs to the HTTP library; they are
  the parameters \<open>to_str\<close> and \<open>from_str\<close>.
\<close>

definition eq_ignore_ascii_case :: "string \<Rightarrow> string \<Rightarrow> bool" where
  "eq_ignore_ascii_case a b \<longleftrightarrow> to_ascii_lowercase a = to_ascii_lowercase b"

definition join :: "string \<Rightarrow> string list \<Rightarrow> string" where
  "join sep xs = concat (case xs of [] \<Rightarrow> [] | y # ys \<Rightarrow> y # map ((@) sep) ys)"

type_synonym ActivatedExtensions = "string list"

text \<open>The argument holds the values of the \<open>a2a-extensions\<close> header lines, in order.\<close>

definition from_headers :: "(string \<Rightarrow> string option) \<Rightarrow> string list \<Rightarrow> ActivatedExtensions" where
  "from_headers to_str values =
     filter (\<lambda>s. s \<noteq> []) (map trim (concat (map (split_char CHR '','') (List.map_filter to_str values))))"

definition activated_contains :: "ActivatedExtensions \<Rightarrow> string \<Rightarrow> bool" where
  "activated_contains activated uri \<longleftrightarrow> list_ex (\<lambda>u. eq_ignore_ascii_case u uri) activated"

definition to_response_header :: "(string \<Rightarrow> string option) \<Rightarrow> ActivatedExtensions \<Rightarrow> string" where
  "to_response_header from_str activated =
     (case from_str (join '', '' activated) of Some h \<Rightarrow> h | None \<Rightarrow> [])"

datatype RuntimeKind = Vm | Container | Host

text \<open>The routing fields of \<open>InstanceContext\<close> the extensions read.\<close>

record InstanceContext =
  ic_instance_id :: string
  ic_runtime_kind :: RuntimeKind
  ic_host :: string
  ic_runtime_provider :: "string option"
  ic_runtime_capabilities :: "string list"

record PreRequestCtx =
  pre_activated :: ActivatedExtensions
  pre_task_id :: "string option"
  pre_message_id :: "string option"
  pre_request_body :: json
  pre_protocol_version :: string

record PostResponseCtx =
  post_activated :: ActivatedExtensions
  post_task_id :: string
  post_status :: u16
  post_response_body :: json
  post_instance :: "InstanceContext option"

datatype ExtensionOutcome = Continue | Replay u16 json | Reject u16 json

lemma activated_contains_iff:
  "activated_contains xs uri \<longleftrightarrow> (\<exists>u \<in> set xs. to_ascii_lowercase u = to_ascii_lowercase uri)"
  by (simp add: activated_contains_def eq_ignore_ascii_case_def list_ex_iff)

lemma activated_contains_self: "u \<in> set xs \<Longrightarrow> activated_contains xs u"
  by (auto simp: activated_contains_iff)

lemma split_char_nonempty [simp]: "split_char c s \<noteq> []"
  by (induction s) (auto split: list.splits)

lemma split_char_free: "c \<notin> set s \<Longrightarrow> split_char c s = [s]"
  by (induction s) auto

lemma split_char_append: "c \<notin> set s \<Longrightarrow> split_char c (s @ c # t) = s # split_char c t"
  by (induction s) auto

end
