(* ===== verification/Flow_Graph.thy ===== *)
theory Flow_Graph
  imports Extension_Context
begin

section \<open>The flow-graph extension (\<open>extensions/flow_graph.rs\<close>)\<close>

text \<open>
  The extension validates the graph identity a request carries in its metadata, builds the task
  metadata, and keeps the latest lifecycle event in it. Strings are UTF-8 byte strings; timestamps
  are rendered by the parameter \<open>ts\<close> (\<open>to_rfc3339\<close>).
\<close>

subsection \<open>Definitions\<close>

definition FLOW_URI :: string where "FLOW_URI = ''https://aiwg.io/extensions/flow-graph/v1''"
definition EVENT_KEY :: string where "EVENT_KEY = ''flow_graph.event''"
definition RESUME_KEY :: string where "RESUME_KEY = ''flow_graph.resume''"

definition REQUIRED_IDS :: "string list" where
  "REQUIRED_IDS = [''graph_id'', ''graph_version'', ''run_id'', ''node_id'', ''node_run_id'']"

definition OPTIONAL_IDS :: "string list" where "OPTIONAL_IDS = [''edge_id'']"

definition FORBIDDEN_KEYS :: "string list" where
  "FORBIDDEN_KEYS = [''prompt'', ''content'', ''reasoning'', ''credential'', ''credentials'', ''secret'',
     ''token'', ''raw_output'']"

text \<open>\<open>chars().any(char::is_control)\<close>: U+0000 to U+001F, and U+007F to U+009F.\<close>

fun has_control :: "string \<Rightarrow> bool" where
  "has_control [] = False"
| "has_control (c # cs) =
     (c < CHR '' '' \<or> c = CHR 0x7F \<or>
      (c = CHR 0xC2 \<and> (case cs of d # _ \<Rightarrow> CHR 0x80 \<le> d \<and> d \<le> CHR 0x9F | [] \<Rightarrow> False)) \<or>
      has_control cs)"

definition validate_id :: "(string \<times> json) list \<Rightarrow> string \<Rightarrow> bool \<Rightarrow> string + unit" where
  "validate_id obj key required =
     (case map_of obj key of
        None \<Rightarrow> if required then Inl (''missing required flow-graph/v1 field: '' @ key) else Inr ()
      | Some (JStr v) \<Rightarrow>
          if v = [] \<or> length v > 256 \<or> has_control v
          then Inl (''flow-graph/v1 field '' @ key @ '' must be 1..256 printable characters'') else Inr ()
      | Some _ \<Rightarrow> Inl (''flow-graph/v1 field '' @ key @ '' must be a string''))"

fun validate_ids :: "(string \<times> json) list \<Rightarrow> string list \<Rightarrow> bool \<Rightarrow> string + unit" where
  "validate_ids obj [] required = Inr ()"
| "validate_ids obj (k # ks) required =
     and_then (validate_id obj k required) (\<lambda>_. validate_ids obj ks required)"

fun check_keys :: "string list \<Rightarrow> string + unit" where
  "check_keys [] = Inr ()"
| "check_keys (k # ks) =
     (if k \<notin> set REQUIRED_IDS \<and> k \<notin> set OPTIONAL_IDS
        then Inl (''unsupported flow-graph/v1 field: '' @ k)
      else if k \<in> set FORBIDDEN_KEYS
        then Inl (''sensitive field is forbidden in graph metadata: '' @ k)
      else check_keys ks)"

definition request_metadata :: "string \<Rightarrow> json \<Rightarrow> json option" where
  "request_metadata key body =
     Option.bind (Option.bind (jget ''message'' body) (jget ''metadata'')) (jget key)"

definition graph_metadata :: "json \<Rightarrow> string + json option" where
  "graph_metadata body =
     (case request_metadata FLOW_URI body of
        None \<Rightarrow> Inr None
      | Some (JObj obj) \<Rightarrow>
          and_then (validate_ids obj REQUIRED_IDS True) (\<lambda>_.
          and_then (validate_ids obj OPTIONAL_IDS False) (\<lambda>_.
          and_then (check_keys (map fst obj)) (\<lambda>_. Inr (Some (JObj obj)))))
      | Some _ \<Rightarrow> Inl ''flow-graph/v1 metadata must be an object'')"

definition task_metadata_with_lineage ::
  "json \<Rightarrow> string \<Rightarrow> string option \<Rightarrow> string \<Rightarrow> json \<Rightarrow> json option \<Rightarrow> json option" where
  "task_metadata_with_lineage graph task_id session_id idempotency_key event lineage =
     Option.bind (jset ''namespace'' (JStr FLOW_URI) graph) (\<lambda>event_graph.
       let task0 = [(''task_id'', JStr task_id), (''runtime_binding'', JStr ''a2a-sandbox''),
                    (''idempotency_key'', JStr idempotency_key)];
           task1 = task0 @ (case session_id of Some s \<Rightarrow> [(''session_id'', JStr s)] | None \<Rightarrow> []);
           carry = (\<lambda>k. case Option.bind lineage (jget k) of Some v \<Rightarrow> [(k, v)] | None \<Rightarrow> []);
           task2 = task1 @ carry ''replay_of_task_id'' @ carry ''checkpoint_id''
       in Some (jobj [(FLOW_URI, graph),
            (EVENT_KEY, jobj [(''api_version'', JStr ''flow.aiwg.io/v1alpha1''),
               (''kind'', JStr ''GraphSandboxNodeEvent''), (''metadata'', event_graph),
               (''task'', jobj task2), (''event'', event)])]))"

definition task_metadata :: "json \<Rightarrow> string \<Rightarrow> string option \<Rightarrow> string \<Rightarrow> json \<Rightarrow> json option" where
  "task_metadata graph task_id session_id idempotency_key event =
     task_metadata_with_lineage graph task_id session_id idempotency_key event None"

definition resume_lineage :: "json \<Rightarrow> string + json option" where
  "resume_lineage body =
     (case request_metadata RESUME_KEY body of
        None \<Rightarrow> Inr None
      | Some (JObj obj) \<Rightarrow>
          if length obj \<noteq> 2
          then Inl ''flow_graph.resume requires only replay_of_task_id and checkpoint_id''
          else and_then (validate_id obj ''replay_of_task_id'' True) (\<lambda>_.
               and_then (validate_id obj ''checkpoint_id'' True) (\<lambda>_. Inr (Some (JObj obj))))
      | Some _ \<Rightarrow> Inl ''flow_graph.resume must be an object'')"

definition lifecycle_event :: "(timestamp \<Rightarrow> string) \<Rightarrow> string \<Rightarrow> timestamp \<Rightarrow> json" where
  "lifecycle_event ts state observed_at =
     jobj [(''type'', JStr ''lifecycle''), (''state'', JStr state), (''observed_at'', JStr (ts observed_at))]"

definition terminal_event ::
  "(timestamp \<Rightarrow> string) \<Rightarrow> string \<Rightarrow> timestamp \<Rightarrow> timestamp \<Rightarrow> json \<Rightarrow> json \<Rightarrow> string option \<Rightarrow> json" where
  "terminal_event ts state started_at ended_at exit evidence reason =
     jobj ([(''type'', JStr ''terminal''), (''state'', JStr state),
            (''started_at'', JStr (ts started_at)), (''ended_at'', JStr (ts ended_at)),
            (''duration_ms'', JInt (max 0 ((ended_at - started_at) div 10 ^ 6))),
            (''exit'', exit), (''evidence'', evidence)] @
           (case reason of Some r \<Rightarrow> [(''termination_reason'', JStr r)] | None \<Rightarrow> []))"

text \<open>\<open>latest_event\<close> on the metadata of a task; the outer \<open>None\<close> is the panic of the index assignment.\<close>

definition latest_event :: "json option \<Rightarrow> json \<Rightarrow> json option option" where
  "latest_event metadata event =
     (case metadata of
        Some (JObj obj) \<Rightarrow>
          (case map_of obj FLOW_URI of
             None \<Rightarrow> Some metadata
           | Some graph \<Rightarrow>
               map_option (\<lambda>graph'.
                 let task = (case Option.bind (map_of obj EVENT_KEY) (jget ''task'') of
                               Some t \<Rightarrow> t | None \<Rightarrow> JObj [])
                 in Some (JObj (jinsert EVENT_KEY
                      (jobj [(''api_version'', JStr ''flow.aiwg.io/v1alpha1''),
                             (''kind'', JStr ''GraphSandboxNodeEvent''), (''metadata'', graph'),
                             (''task'', task), (''event'', event)]) obj)))
                 (jset ''namespace'' (JStr FLOW_URI) graph))
      | _ \<Rightarrow> Some metadata)"

text \<open>The pre-request hook of the extension.\<close>

definition reject :: "string \<Rightarrow> ExtensionOutcome" where
  "reject detail = Reject 422
     (jobj [(''type'', JStr ''https://agentic-sandbox.aiwg.io/errors/flow-graph-metadata''),
            (''title'', JStr ''Invalid Flow graph metadata''), (''status'', JInt 422),
            (''code'', JStr ''flow_graph.invalid_metadata''), (''detail'', JStr detail)])"

definition flow_pre_request :: "PreRequestCtx \<Rightarrow> ExtensionOutcome" where
  "flow_pre_request ctx =
     (if \<not> activated_contains (pre_activated ctx) FLOW_URI then Continue
      else case graph_metadata (pre_request_body ctx) of
        Inr (Some _) \<Rightarrow> Continue
      | Inr None \<Rightarrow> reject ''activated flow-graph/v1 requires message.metadata namespace''
      | Inl reason \<Rightarrow> reject reason)"

subsection \<open>Validated identities\<close>

definition printable_id :: "string \<Rightarrow> bool" where
  "printable_id v \<longleftrightarrow> v \<noteq> [] \<and> length v \<le> 256 \<and> \<not> has_control v"

definition valid_identity :: "(string \<times> json) list \<Rightarrow> bool" where
  "valid_identity obj \<longleftrightarrow>
     fst ` set obj \<subseteq> set REQUIRED_IDS \<union> set OPTIONAL_IDS \<and> set REQUIRED_IDS \<subseteq> fst ` set obj \<and>
     (\<forall>k j. map_of obj k = Some j \<longrightarrow> (\<exists>v. j = JStr v \<and> printable_id v))"

lemma validate_id_ok:
  "validate_id obj k req = Inr () \<longleftrightarrow>
     (case map_of obj k of None \<Rightarrow> \<not> req | Some j \<Rightarrow> \<exists>v. j = JStr v \<and> printable_id v)"
  by (auto simp: validate_id_def printable_id_def split: option.splits json.splits)

lemma validate_ids_ok:
  "validate_ids obj ks req = Inr () \<longleftrightarrow> (\<forall>k \<in> set ks. validate_id obj k req = Inr ())"
  by (induction ks) (auto simp: and_then_Inr)

lemma forbidden_not_allowed: "k \<in> set FORBIDDEN_KEYS \<Longrightarrow> k \<notin> set REQUIRED_IDS \<and> k \<notin> set OPTIONAL_IDS"
  by (auto simp: FORBIDDEN_KEYS_def REQUIRED_IDS_def OPTIONAL_IDS_def)

lemma check_keys_ok: "check_keys ks = Inr () \<longleftrightarrow> set ks \<subseteq> set REQUIRED_IDS \<union> set OPTIONAL_IDS"
  by (induction ks) (use forbidden_not_allowed in auto)

lemma graph_metadata_Inr:
  "graph_metadata body = Inr (Some g) \<longleftrightarrow>
     (\<exists>obj. request_metadata FLOW_URI body = Some (JObj obj) \<and> g = JObj obj \<and> valid_identity obj)"
proof -
  have valid: "valid_identity obj \<longleftrightarrow>
      (\<forall>k \<in> set REQUIRED_IDS. validate_id obj k True = Inr ()) \<and>
      (\<forall>k \<in> set OPTIONAL_IDS. validate_id obj k False = Inr ()) \<and>
      set (map fst obj) \<subseteq> set REQUIRED_IDS \<union> set OPTIONAL_IDS" for obj
    unfolding valid_identity_def validate_id_ok
    by (auto simp: subset_iff split: option.splits)
      (metis (no_types, lifting) Un_iff domI dom_map_of_conv_image_fst map_of_eq_None_iff option.exhaust image_eqI fst_conv)+
  show ?thesis
    by (auto simp: graph_metadata_def valid and_then_Inr validate_ids_ok check_keys_ok
        split: option.splits json.splits)
qed

lemma jset_identity: "jset k v (JObj obj) = Some (JObj (jinsert k v obj))"
  by (simp add: jset_def)

lemma latest_event_graph:
  assumes "jget FLOW_URI m = Some (JObj obj)"
  obtains m' where "latest_event (Some m) ev = Some (Some m')"
    and "\<And>k. k \<noteq> EVENT_KEY \<Longrightarrow> jget k m' = jget k m"
    and "Option.bind (jget EVENT_KEY m') (jget ''event'') = Some ev"
    and "Option.bind (jget EVENT_KEY m') (jget ''task'') =
           Some (case Option.bind (jget EVENT_KEY m) (jget ''task'') of Some t \<Rightarrow> t | None \<Rightarrow> JObj [])"
proof -
  obtain o' where m: "m = JObj o'" "map_of o' FLOW_URI = Some (JObj obj)"
    using assms by (auto simp: jget_def split: json.splits)
  then show ?thesis
    by (intro that [of "the (the (latest_event (Some m) ev))"])
      (auto simp: latest_event_def jset_identity Let_def jget_def [of _ "JObj _"] jget_jobj EVENT_KEY_def)
qed

text \<open>The metadata of a task after a sequence of event updates; \<open>None\<close> when one of them panics.\<close>

fun latest_events :: "json option \<Rightarrow> json list \<Rightarrow> json option option" where
  "latest_events m [] = Some m"
| "latest_events m (ev # evs) = Option.bind (latest_event m ev) (\<lambda>m'. latest_events m' evs)"

lemma latest_events_graph:
  assumes "jget FLOW_URI m = Some (JObj obj)"
    and "Option.bind (jget EVENT_KEY m) (jget ''task'') = Some t"
    and "Option.bind (jget EVENT_KEY m) (jget ''event'') = Some ev"
  shows "\<exists>m'. latest_events (Some m) evs = Some (Some m') \<and>
    (\<forall>k. k \<noteq> EVENT_KEY \<longrightarrow> jget k m' = jget k m) \<and>
    Option.bind (jget EVENT_KEY m') (jget ''task'') = Some t \<and>
    Option.bind (jget EVENT_KEY m') (jget ''event'') = Some (last (ev # evs))"
  using assms
proof (induction evs arbitrary: m ev)
  case (Cons e evs)
  obtain m1 where m1: "latest_event (Some m) e = Some (Some m1)"
    and other: "\<And>k. k \<noteq> EVENT_KEY \<Longrightarrow> jget k m1 = jget k m"
    and event: "Option.bind (jget EVENT_KEY m1) (jget ''event'') = Some e"
    and task: "Option.bind (jget EVENT_KEY m1) (jget ''task'') = Some t"
    by (rule latest_event_graph [OF Cons.prems(1), of e]) (use Cons.prems(2) in simp)
  have "jget FLOW_URI m1 = Some (JObj obj)"
    using other [of FLOW_URI] Cons.prems(1) by (simp add: FLOW_URI_def EVENT_KEY_def)
  from Cons.IH [OF this task event] show ?case
    by (auto simp: m1 other)
qed auto

lemma task_metadata_graph:
  "\<exists>m t. task_metadata_with_lineage (JObj obj) tid sid ik ev lin = Some m \<and>
     jget FLOW_URI m = Some (JObj obj) \<and> Option.bind (jget EVENT_KEY m) (jget ''task'') = Some t \<and>
     jget ''task_id'' t = Some (JStr tid) \<and> jget ''idempotency_key'' t = Some (JStr ik) \<and>
     Option.bind (jget EVENT_KEY m) (jget ''event'') = Some ev"
  by (auto simp: task_metadata_with_lineage_def jset_identity Let_def jget_jobj FLOW_URI_def EVENT_KEY_def
      split: option.splits)

subsection \<open>Properties\<close>

definition demo_identity :: "(string \<times> json) list" where
  "demo_identity = map (\<lambda>k. (k, JStr ''x1'')) [''graph_id'', ''graph_version'', ''node_id'', ''node_run_id'', ''run_id'']"

definition demo_flow_ctx :: "json \<Rightarrow> PreRequestCtx" where
  "demo_flow_ctx body = \<lparr>pre_activated = [FLOW_URI], pre_task_id = None, pre_message_id = None,
     pre_request_body = body, pre_protocol_version = ''1.0''\<rparr>"

definition demo_flow_body :: json where
  "demo_flow_body = JObj [(''message'', JObj [(''metadata'', JObj [(FLOW_URI, JObj demo_identity)])])]"

lemma demo_graph_metadata: "graph_metadata demo_flow_body = Inr (Some (JObj demo_identity))"
  by (simp add: graph_metadata_def demo_flow_body_def demo_identity_def request_metadata_def jget_def
      REQUIRED_IDS_def OPTIONAL_IDS_def FORBIDDEN_KEYS_def validate_id_def less_char_def)

text \<open>
  A request that activates the flow-graph extension passes the hook exactly when its metadata
  carries an identity object with all required fields, no field outside the documented ones (in
  particular none of the sensitive ones), every value a printable string of 1 to 256 bytes; otherwise
  it is rejected with status 422.
\<close>

theorem flow_identity_exact:
  assumes "activated_contains (pre_activated ctx) FLOW_URI"
  shows "(flow_pre_request ctx = Continue \<longleftrightarrow>
      (\<exists>obj. request_metadata FLOW_URI (pre_request_body ctx) = Some (JObj obj) \<and> valid_identity obj \<and>
         set FORBIDDEN_KEYS \<inter> fst ` set obj = {})) \<and>
    (flow_pre_request ctx = Continue \<or> (\<exists>b. flow_pre_request ctx = Reject 422 b))"
proof -
  have safe: "set FORBIDDEN_KEYS \<inter> fst ` set obj = {}" if "valid_identity obj" for obj
    using that forbidden_not_allowed unfolding valid_identity_def by blast
  have "(\<exists>g. graph_metadata (pre_request_body ctx) = Inr (Some g)) \<longleftrightarrow>
      (\<exists>obj. request_metadata FLOW_URI (pre_request_body ctx) = Some (JObj obj) \<and> valid_identity obj)"
    by (auto simp: graph_metadata_Inr)
  then show ?thesis
    using safe assms by (auto simp: flow_pre_request_def reject_def split: sum.splits option.splits)
qed

theorem flow_identity_exact_witness:
  "flow_pre_request (demo_flow_ctx demo_flow_body) = Continue \<and>
   (\<exists>obj. request_metadata FLOW_URI demo_flow_body = Some (JObj obj) \<and> valid_identity obj \<and>
      set FORBIDDEN_KEYS \<inter> fst ` set obj = {}) \<and>
   (\<exists>b. flow_pre_request (demo_flow_ctx JNull) = Reject 422 b)"
proof -
  have act: "activated_contains (pre_activated (demo_flow_ctx b)) FLOW_URI" for b
    by (simp add: demo_flow_ctx_def activated_contains_self)
  have pass: "flow_pre_request (demo_flow_ctx demo_flow_body) = Continue"
    using demo_graph_metadata act by (simp add: flow_pre_request_def demo_flow_ctx_def)
  have stop: "flow_pre_request (demo_flow_ctx JNull) \<noteq> Continue"
    using act
    by (simp add: flow_pre_request_def graph_metadata_def request_metadata_def jget_def reject_def demo_flow_ctx_def)
  have body: "pre_request_body (demo_flow_ctx b) = b" for b
    by (simp add: demo_flow_ctx_def)
  show ?thesis
    using pass stop flow_identity_exact [OF act, of demo_flow_body] flow_identity_exact [OF act, of JNull]
    unfolding body by blast
qed

text \<open>
  C26. For a validated identity the task metadata is always built, and no sequence of lifecycle or
  terminal events makes an update panic: the identity namespace and the task block are the ones of the
  creation, and the event record is the last one emitted.
\<close>

theorem flow_events_keep_identity:
  assumes "graph_metadata body = Inr (Some g)"
  shows "\<exists>m t m'. task_metadata_with_lineage g tid sid ik ev lin = Some m \<and>
    Option.bind (jget EVENT_KEY m) (jget ''task'') = Some t \<and> jget ''task_id'' t = Some (JStr tid) \<and>
    latest_events (Some m) evs = Some (Some m') \<and> jget FLOW_URI m' = Some g \<and>
    Option.bind (jget EVENT_KEY m') (jget ''task'') = Some t \<and>
    Option.bind (jget EVENT_KEY m') (jget ''event'') = Some (last (ev # evs))"
proof -
  obtain obj where g: "g = JObj obj"
    using assms by (auto simp: graph_metadata_Inr)
  obtain m t where m: "task_metadata_with_lineage g tid sid ik ev lin = Some m"
    "jget FLOW_URI m = Some (JObj obj)" "Option.bind (jget EVENT_KEY m) (jget ''task'') = Some t"
    "jget ''task_id'' t = Some (JStr tid)" "Option.bind (jget EVENT_KEY m) (jget ''event'') = Some ev"
    using task_metadata_graph [of obj tid sid ik ev lin] g by blast
  have "FLOW_URI \<noteq> EVENT_KEY"
    by (simp add: FLOW_URI_def EVENT_KEY_def)
  with latest_events_graph [OF m(2,3,5), of evs] m g show ?thesis
    by auto
qed

theorem flow_events_keep_identity_witness:
  "graph_metadata demo_flow_body = Inr (Some (JObj demo_identity)) \<and>
   (\<exists>m t m'. task_metadata_with_lineage (JObj demo_identity) ''t'' None ''m'' (lifecycle_event (\<lambda>_. ''now'') ''working'' 0) None = Some m \<and>
    Option.bind (jget EVENT_KEY m) (jget ''task'') = Some t \<and> jget ''task_id'' t = Some (JStr ''t'') \<and>
    latest_events (Some m) [terminal_event (\<lambda>_. ''now'') ''canceled'' 0 1 JNull (JArr []) None] = Some (Some m') \<and>
    jget FLOW_URI m' = Some (JObj demo_identity) \<and>
    Option.bind (jget EVENT_KEY m') (jget ''task'') = Some t \<and>
    Option.bind (jget EVENT_KEY m') (jget ''event'') =
      Some (terminal_event (\<lambda>_. ''now'') ''canceled'' 0 1 JNull (JArr []) None))"
  using demo_graph_metadata
    flow_events_keep_identity [OF demo_graph_metadata, of "''t''" None "''m''"
      "lifecycle_event (\<lambda>_. ''now'') ''working'' 0" None "[terminal_event (\<lambda>_. ''now'') ''canceled'' 0 1 JNull (JArr []) None]"]
  by simp

end
