(* ===== verification/Task_Store.thy ===== *)
theory Task_Store
  imports Rust_Prelude "HOL-Library.Multiset"
begin

section \<open>The task store (\<open>agentic-sandbox-executor/src/store/task_store.rs\<close>)\<close>

text \<open>
  The A2A executor keeps tasks, artifacts, push-notification configs, the idempotency cache and
  fleet workloads in one SQLite database. The model holds the five tables as lists of rows with
  the columns of \<open>SCHEMA_SQL\<close> (timestamps, JSON and enumerations as text), each operation issues the
  statements of the code, and the connection mutex makes each operation one step.

  A \<open>store_codec\<close> carries the library code: JSON printing and parsing, and the rendering and
  parsing of timestamps. The row order a query leaves unspecified (ties of an \<open>ORDER BY\<close>, the row
  a \<open>LIMIT 1\<close> picks) is an argument of the operation.
\<close>

subsection \<open>Data\<close>

datatype TaskState =
    Submitted | Working | Completed | Failed | Canceled | InputRequired | Rejected | AuthRequired

datatype FailKind = Application | Infrastructure

datatype store_error =
    SerializeJson
  | ParseJson string
  | ParseTimestamp string
  | UnknownTaskState string
  | UnknownFailKind string
  | ConstraintViolation
  | DatatypeMismatch
  | NoSuchColumn
  | NegativeFleetRevision
  | Panicked string

record store_codec =
  sc_json :: json_codec
  sc_fmt_ts :: "timestamp \<Rightarrow> string"
  sc_parse_ts :: "string \<Rightarrow> timestamp option"
  sc_rfc3339 :: "timestamp \<Rightarrow> string"

fun state_as_str :: "TaskState \<Rightarrow> string" where
  "state_as_str Submitted = ''submitted''"
| "state_as_str Working = ''working''"
| "state_as_str Completed = ''completed''"
| "state_as_str Failed = ''failed''"
| "state_as_str Canceled = ''canceled''"
| "state_as_str InputRequired = ''input-required''"
| "state_as_str Rejected = ''rejected''"
| "state_as_str AuthRequired = ''auth-required''"

fun state_is_terminal :: "TaskState \<Rightarrow> bool" where
  "state_is_terminal Completed = True"
| "state_is_terminal Failed = True"
| "state_is_terminal Canceled = True"
| "state_is_terminal Rejected = True"
| "state_is_terminal _ = False"

definition state_from_str :: "string \<Rightarrow> store_error + TaskState" where
  "state_from_str s =
     (if s = ''submitted'' then Inr Submitted
      else if s = ''working'' then Inr Working
      else if s = ''completed'' then Inr Completed
      else if s = ''failed'' then Inr Failed
      else if s = ''canceled'' then Inr Canceled
      else if s = ''input-required'' then Inr InputRequired
      else if s = ''rejected'' then Inr Rejected
      else if s = ''auth-required'' then Inr AuthRequired
      else Inl (UnknownTaskState s))"

fun fail_as_str :: "FailKind \<Rightarrow> string" where
  "fail_as_str Application = ''application''"
| "fail_as_str Infrastructure = ''infrastructure''"

definition fail_from_str :: "string \<Rightarrow> store_error + FailKind" where
  "fail_from_str s =
     (if s = ''application'' then Inr Application
      else if s = ''infrastructure'' then Inr Infrastructure
      else Inl (UnknownFailKind s))"

record TaskRow =
  tr_task_id :: string
  tr_context_id :: "string option"
  tr_instance_id :: "string option"
  tr_state :: TaskState
  tr_fail_kind :: "FailKind option"
  tr_status_json :: json
  tr_metadata_json :: "json option"
  tr_created_at :: timestamp
  tr_updated_at :: timestamp
  tr_terminal_at :: "timestamp option"

record ListFilter =
  flt_state :: "TaskState option"
  flt_limit :: "u64 option"
  flt_include_terminal :: bool
  flt_instance_id :: "string option"

record ArtifactRow =
  ar_artifact_id :: string
  ar_task_id :: string
  ar_artifact_json :: json
  ar_created_at :: timestamp

record PushNotificationConfigRow =
  pc_config_id :: string
  pc_task_id :: string
  pc_url :: string
  pc_auth_json :: "json option"
  pc_created_at :: timestamp

datatype PushConfigWriteOutcome = Created | Updated | Conflict | LimitReached

record IdempotencyEntry =
  ie_message_id :: string
  ie_request_hash :: string
  ie_response_status :: u16
  ie_response_body :: json
  ie_created_at :: timestamp
  ie_expires_at :: timestamp

record FleetWorkloadRow =
  fw_child_id :: string
  fw_idempotency_key :: string
  fw_request_hash :: string
  fw_target_id :: string
  fw_executor_id :: string
  fw_workload_kind :: string
  fw_observed_state :: string
  fw_revision :: u64
  fw_last_seen :: timestamp
  fw_record_json :: json
  fw_created_at :: timestamp
  fw_updated_at :: timestamp

datatype FleetDispatchOutcome = Inserted FleetWorkloadRow | Replay FleetWorkloadRow | Collision

datatype FleetObservationOutcome = Updated FleetWorkloadRow | Missing | Stale u64

text \<open>The rows as the tables hold them.\<close>

record task_cols =
  t_task_id :: string
  t_context_id :: "string option"
  t_instance_id :: "string option"
  t_state :: string
  t_fail_kind :: "string option"
  t_status_json :: string
  t_metadata_json :: "string option"
  t_created_at :: string
  t_updated_at :: string
  t_terminal_at :: "string option"

record artifact_cols =
  a_artifact_id :: string
  a_task_id :: string
  a_artifact_json :: string
  a_created_at :: string

record push_cols =
  p_config_id :: string
  p_task_id :: string
  p_url :: string
  p_auth_json :: "string option"
  p_created_at :: string

record idem_cols =
  i_message_id :: string
  i_request_hash :: string
  i_response_status :: int
  i_response_body :: string
  i_created_at :: string
  i_expires_at :: string

record fleet_cols =
  w_child_id :: string
  w_idempotency_key :: string
  w_request_hash :: string
  w_target_id :: string
  w_executor_id :: string
  w_workload_kind :: string
  w_observed_state :: string
  w_revision :: int
  w_last_seen :: string
  w_record_json :: string
  w_created_at :: string
  w_updated_at :: string

record TaskStore =
  tasks :: "task_cols list"
  task_artifacts :: "artifact_cols list"
  push_notification_configs :: "push_cols list"
  idempotency_cache :: "idem_cols list"
  fleet_workloads :: "fleet_cols list"

definition empty_store :: TaskStore where
  "empty_store = \<lparr>tasks = [], task_artifacts = [], push_notification_configs = [],
     idempotency_cache = [], fleet_workloads = []\<rparr>"

subsection \<open>Columns\<close>

definition fmt_ts :: "store_codec \<Rightarrow> timestamp \<Rightarrow> string" where
  "fmt_ts cd t = sc_fmt_ts cd t"

definition parse_ts :: "store_codec \<Rightarrow> string \<Rightarrow> store_error + timestamp" where
  "parse_ts cd s = ok_or (ParseTimestamp s) (sc_parse_ts cd s)"

definition parse_opt_ts :: "store_codec \<Rightarrow> string option \<Rightarrow> store_error + timestamp option" where
  "parse_opt_ts cd s = transpose_opt (map_option (parse_ts cd) s)"

definition json_text :: "store_codec \<Rightarrow> json \<Rightarrow> store_error + string" where
  "json_text cd v = ok_or SerializeJson (json_to_string (sc_json cd) v)"

definition json_opt_text :: "store_codec \<Rightarrow> json option \<Rightarrow> store_error + string option" where
  "json_opt_text cd v = transpose_opt (map_option (json_text cd) v)"

definition parse_json :: "store_codec \<Rightarrow> string \<Rightarrow> store_error + json" where
  "parse_json cd s = ok_or (ParseJson s) (json_from_str (sc_json cd) s)"

definition parse_opt_json :: "store_codec \<Rightarrow> string option \<Rightarrow> store_error + json option" where
  "parse_opt_json cd s = transpose_opt (map_option (parse_json cd) s)"

definition row_to_task :: "store_codec \<Rightarrow> task_cols \<Rightarrow> store_error + TaskRow" where
  "row_to_task cd r =
     and_then (state_from_str (t_state r)) (\<lambda>st.
     and_then (transpose_opt (map_option fail_from_str (t_fail_kind r))) (\<lambda>fk.
     and_then (parse_json cd (t_status_json r)) (\<lambda>status.
     and_then (parse_opt_json cd (t_metadata_json r)) (\<lambda>meta.
     and_then (parse_ts cd (t_created_at r)) (\<lambda>created.
     and_then (parse_ts cd (t_updated_at r)) (\<lambda>updated.
     and_then (parse_opt_ts cd (t_terminal_at r)) (\<lambda>terminal.
       Inr \<lparr>tr_task_id = t_task_id r, tr_context_id = t_context_id r,
            tr_instance_id = t_instance_id r, tr_state = st, tr_fail_kind = fk,
            tr_status_json = status, tr_metadata_json = meta, tr_created_at = created,
            tr_updated_at = updated, tr_terminal_at = terminal\<rparr>)))))))"

definition row_to_artifact :: "store_codec \<Rightarrow> artifact_cols \<Rightarrow> store_error + ArtifactRow" where
  "row_to_artifact cd r =
     and_then (parse_json cd (a_artifact_json r)) (\<lambda>j.
     and_then (parse_ts cd (a_created_at r)) (\<lambda>created.
       Inr \<lparr>ar_artifact_id = a_artifact_id r, ar_task_id = a_task_id r, ar_artifact_json = j,
            ar_created_at = created\<rparr>))"

definition row_to_push :: "store_codec \<Rightarrow> push_cols \<Rightarrow> store_error + PushNotificationConfigRow" where
  "row_to_push cd r =
     and_then (parse_opt_json cd (p_auth_json r)) (\<lambda>auth.
     and_then (parse_ts cd (p_created_at r)) (\<lambda>created.
       Inr \<lparr>pc_config_id = p_config_id r, pc_task_id = p_task_id r, pc_url = p_url r,
            pc_auth_json = auth, pc_created_at = created\<rparr>))"

definition row_to_idem :: "store_codec \<Rightarrow> idem_cols \<Rightarrow> store_error + IdempotencyEntry" where
  "row_to_idem cd r =
     and_then (parse_json cd (i_response_body r)) (\<lambda>body.
     and_then (parse_ts cd (i_created_at r)) (\<lambda>created.
     and_then (parse_ts cd (i_expires_at r)) (\<lambda>expires.
       Inr \<lparr>ie_message_id = i_message_id r, ie_request_hash = i_request_hash r,
            ie_response_status = word_of_int (i_response_status r), ie_response_body = body,
            ie_created_at = created, ie_expires_at = expires\<rparr>)))"

definition row_to_fleet :: "store_codec \<Rightarrow> fleet_cols \<Rightarrow> store_error + FleetWorkloadRow" where
  "row_to_fleet cd r =
     and_then (ok_or NegativeFleetRevision (u64_from_sql (w_revision r))) (\<lambda>rev.
     and_then (parse_ts cd (w_last_seen r)) (\<lambda>seen.
     and_then (parse_json cd (w_record_json r)) (\<lambda>j.
     and_then (parse_ts cd (w_created_at r)) (\<lambda>created.
     and_then (parse_ts cd (w_updated_at r)) (\<lambda>updated.
       Inr \<lparr>fw_child_id = w_child_id r, fw_idempotency_key = w_idempotency_key r,
            fw_request_hash = w_request_hash r, fw_target_id = w_target_id r,
            fw_executor_id = w_executor_id r, fw_workload_kind = w_workload_kind r,
            fw_observed_state = w_observed_state r, fw_revision = rev, fw_last_seen = seen,
            fw_record_json = j, fw_created_at = created, fw_updated_at = updated\<rparr>)))))"

subsection \<open>Opening the store\<close>

text \<open>
  The database as \<open>from_conn\<close> finds it: the stamped schema version, the columns of the tasks table
  if there is one, and the rows.
\<close>

record store_file =
  sf_user_version :: int
  sf_task_columns :: "string list option"
  sf_store :: TaskStore

definition SCHEMA_USER_VERSION :: int where "SCHEMA_USER_VERSION = 3"

definition schema_task_columns :: "string list" where
  "schema_task_columns = [''task_id'', ''context_id'', ''instance_id'', ''state'', ''fail_kind'',
     ''status_json'', ''metadata_json'', ''created_at'', ''updated_at'', ''terminal_at'']"

definition from_conn :: "store_file \<Rightarrow> store_error + store_file" where
  "from_conn f =
     (let cols = (case sf_task_columns f of None \<Rightarrow> schema_task_columns | Some c \<Rightarrow> c);
          cols' = (if sf_user_version f < 2 \<and> ''instance_id'' \<notin> set cols then cols @ [''instance_id'']
                   else cols)
      in if ''instance_id'' \<notin> set cols' then Inl NoSuchColumn
         else Inr (f\<lparr>sf_task_columns := Some cols',
                      sf_user_version := (if sf_user_version f < SCHEMA_USER_VERSION
                                          then SCHEMA_USER_VERSION else sf_user_version f)\<rparr>))"

subsection \<open>Tasks\<close>

text \<open>The terminal timestamp that is written: the prior one wins.\<close>

definition terminal_text :: "store_codec \<Rightarrow> task_cols option \<Rightarrow> TaskRow \<Rightarrow> string option" where
  "terminal_text cd prior row =
     (case (Option.bind prior t_terminal_at, tr_terminal_at row) of
        (Some p, _) \<Rightarrow> Some p
      | (None, Some supplied) \<Rightarrow> Some (fmt_ts cd supplied)
      | (None, None) \<Rightarrow> if state_is_terminal (tr_state row) then Some (fmt_ts cd (tr_updated_at row))
                        else None)"

text \<open>The inserted row and the \<open>ON CONFLICT(task_id) DO UPDATE\<close> assignments.\<close>

definition insert_task_cols ::
  "store_codec \<Rightarrow> TaskRow \<Rightarrow> string \<Rightarrow> string option \<Rightarrow> string option \<Rightarrow> task_cols" where
  "insert_task_cols cd row status meta terminal =
     \<lparr>t_task_id = tr_task_id row, t_context_id = tr_context_id row,
      t_instance_id = tr_instance_id row, t_state = state_as_str (tr_state row),
      t_fail_kind = map_option fail_as_str (tr_fail_kind row), t_status_json = status,
      t_metadata_json = meta, t_created_at = fmt_ts cd (tr_created_at row),
      t_updated_at = fmt_ts cd (tr_updated_at row), t_terminal_at = terminal\<rparr>"

definition update_task_cols ::
  "store_codec \<Rightarrow> TaskRow \<Rightarrow> string \<Rightarrow> string option \<Rightarrow> string option \<Rightarrow> task_cols \<Rightarrow> task_cols" where
  "update_task_cols cd row status meta terminal r =
     r\<lparr>t_context_id := tr_context_id row,
       t_instance_id := (case t_instance_id r of None \<Rightarrow> tr_instance_id row | Some i \<Rightarrow> Some i),
       t_state := state_as_str (tr_state row),
       t_fail_kind := map_option fail_as_str (tr_fail_kind row), t_status_json := status,
       t_metadata_json := meta, t_updated_at := fmt_ts cd (tr_updated_at row),
       t_terminal_at := terminal\<rparr>"

definition upsert_task :: "store_codec \<Rightarrow> TaskStore \<Rightarrow> TaskRow \<Rightarrow> store_error + TaskStore" where
  "upsert_task cd s row =
     (let prior = tbl_get t_task_id (tr_task_id row) (tasks s);
          terminal = terminal_text cd prior row
      in and_then (json_text cd (tr_status_json row)) (\<lambda>status.
         and_then (json_opt_text cd (tr_metadata_json row)) (\<lambda>meta.
           Inr (s\<lparr>tasks :=
             (case prior of
                None \<Rightarrow> tasks s @ [insert_task_cols cd row status meta terminal]
              | Some _ \<Rightarrow> tbl_update t_task_id (tr_task_id row)
                  (update_task_cols cd row status meta terminal) (tasks s))\<rparr>))))"

definition get_task :: "store_codec \<Rightarrow> TaskStore \<Rightarrow> string \<Rightarrow> store_error + TaskRow option" where
  "get_task cd s tid = transpose_opt (map_option (row_to_task cd) (tbl_get t_task_id tid (tasks s)))"

definition get_task_for_instance ::
  "store_codec \<Rightarrow> TaskStore \<Rightarrow> string \<Rightarrow> string \<Rightarrow> store_error + TaskRow option" where
  "get_task_for_instance cd s inst tid =
     transpose_opt (map_option (row_to_task cd)
       (List.find (\<lambda>r. t_task_id r = tid \<and> t_instance_id r = Some inst) (tasks s)))"

definition list_where :: "ListFilter \<Rightarrow> task_cols \<Rightarrow> bool" where
  "list_where f r =
     ((case flt_state f of None \<Rightarrow> True | Some st \<Rightarrow> t_state r = state_as_str st) \<and>
      (flt_include_terminal f \<or> t_terminal_at r = None) \<and>
      (case flt_instance_id f of None \<Rightarrow> True | Some i \<Rightarrow> t_instance_id r = Some i))"

text \<open>\<open>ord\<close> is the order \<open>ORDER BY created_at DESC\<close> produces; a limit above \<open>i64::MAX\<close> is not an integer to SQLite.\<close>

definition list_tasks ::
  "(task_cols list \<Rightarrow> task_cols list) \<Rightarrow> store_codec \<Rightarrow> TaskStore \<Rightarrow> ListFilter \<Rightarrow>
   store_error + TaskRow list" where
  "list_tasks ord cd s f =
     (let rows = ord (filter (list_where f) (tasks s))
      in case flt_limit f of
           None \<Rightarrow> collect (row_to_task cd) rows
         | Some n \<Rightarrow> if u64_to_sql n = None then Inl DatatypeMismatch
                     else collect (row_to_task cd) (take (unat n) rows))"

definition delete_task :: "TaskStore \<Rightarrow> string \<Rightarrow> bool \<times> TaskStore" where
  "delete_task s tid =
     (sql_changes (\<lambda>r. t_task_id r = tid) (tasks s) > 0,
      s\<lparr>task_artifacts := tbl_delete (\<lambda>a. a_task_id a = tid) (task_artifacts s),
        push_notification_configs := tbl_delete (\<lambda>p. p_task_id p = tid) (push_notification_configs s),
        tasks := tbl_delete (\<lambda>r. t_task_id r = tid) (tasks s)\<rparr>)"

definition count_tasks :: "TaskStore \<Rightarrow> u64" where
  "count_tasks s = of_nat (length (tasks s))"

subsection \<open>Artifacts\<close>

definition append_artifact ::
  "store_codec \<Rightarrow> timestamp \<Rightarrow> TaskStore \<Rightarrow> string \<Rightarrow> string \<Rightarrow> json \<Rightarrow> store_error + TaskStore" where
  "append_artifact cd now s tid aid j =
     and_then (json_text cd j) (\<lambda>txt.
       if tbl_get a_artifact_id aid (task_artifacts s) \<noteq> None \<or> tbl_get t_task_id tid (tasks s) = None
       then Inl ConstraintViolation
       else Inr (s\<lparr>task_artifacts := task_artifacts s @
         [\<lparr>a_artifact_id = aid, a_task_id = tid, a_artifact_json = txt, a_created_at = fmt_ts cd now\<rparr>]\<rparr>))"

definition list_artifacts ::
  "(artifact_cols list \<Rightarrow> artifact_cols list) \<Rightarrow> store_codec \<Rightarrow> TaskStore \<Rightarrow> string \<Rightarrow>
   store_error + ArtifactRow list" where
  "list_artifacts ord cd s tid =
     collect (row_to_artifact cd) (ord (filter (\<lambda>a. a_task_id a = tid) (task_artifacts s)))"

definition get_artifact ::
  "store_codec \<Rightarrow> TaskStore \<Rightarrow> string \<Rightarrow> string \<Rightarrow> store_error + ArtifactRow option" where
  "get_artifact cd s tid aid =
     transpose_opt (map_option (row_to_artifact cd)
       (List.find (\<lambda>a. a_task_id a = tid \<and> a_artifact_id a = aid) (task_artifacts s)))"

subsection \<open>Push-notification configs\<close>

definition push_row :: "store_codec \<Rightarrow> PushNotificationConfigRow \<Rightarrow> string option \<Rightarrow> push_cols" where
  "push_row cd cfg auth =
     \<lparr>p_config_id = pc_config_id cfg, p_task_id = pc_task_id cfg, p_url = pc_url cfg,
      p_auth_json = auth, p_created_at = fmt_ts cd (pc_created_at cfg)\<rparr>"

definition put_push_config ::
  "store_codec \<Rightarrow> TaskStore \<Rightarrow> PushNotificationConfigRow \<Rightarrow> store_error + TaskStore" where
  "put_push_config cd s cfg =
     and_then (json_opt_text cd (pc_auth_json cfg)) (\<lambda>auth.
       if tbl_get t_task_id (pc_task_id cfg) (tasks s) = None then Inl ConstraintViolation
       else Inr (s\<lparr>push_notification_configs :=
         (case tbl_get p_config_id (pc_config_id cfg) (push_notification_configs s) of
            None \<Rightarrow> push_notification_configs s @ [push_row cd cfg auth]
          | Some _ \<Rightarrow> tbl_update p_config_id (pc_config_id cfg)
              (\<lambda>r. r\<lparr>p_task_id := pc_task_id cfg, p_url := pc_url cfg, p_auth_json := auth\<rparr>)
              (push_notification_configs s))\<rparr>))"

definition put_push_config_bounded ::
  "store_codec \<Rightarrow> TaskStore \<Rightarrow> PushNotificationConfigRow \<Rightarrow> usize \<Rightarrow>
   store_error + PushConfigWriteOutcome \<times> TaskStore" where
  "put_push_config_bounded cd s cfg max_per_task =
     (case tbl_get p_config_id (pc_config_id cfg) (push_notification_configs s) of
        Some existing \<Rightarrow>
          if p_task_id existing \<noteq> pc_task_id cfg then Inr (Conflict, s)
          else and_then (json_opt_text cd (pc_auth_json cfg)) (\<lambda>auth.
            Inr (PushConfigWriteOutcome.Updated, s\<lparr>push_notification_configs := sql_update
              (\<lambda>r. p_config_id r = pc_config_id cfg \<and> p_task_id r = pc_task_id cfg)
              (\<lambda>r. r\<lparr>p_url := pc_url cfg, p_auth_json := auth\<rparr>) (push_notification_configs s)\<rparr>))
      | None \<Rightarrow>
          if int (sql_changes (\<lambda>r. p_task_id r = pc_task_id cfg) (push_notification_configs s))
               \<ge> sint max_per_task
          then Inr (LimitReached, s)
          else and_then (json_opt_text cd (pc_auth_json cfg)) (\<lambda>auth.
            if tbl_get t_task_id (pc_task_id cfg) (tasks s) = None then Inl ConstraintViolation
            else Inr (Created, s\<lparr>push_notification_configs :=
              push_notification_configs s @ [push_row cd cfg auth]\<rparr>)))"

definition get_push_config ::
  "store_codec \<Rightarrow> TaskStore \<Rightarrow> string \<Rightarrow> store_error + PushNotificationConfigRow option" where
  "get_push_config cd s cid =
     transpose_opt (map_option (row_to_push cd) (tbl_get p_config_id cid (push_notification_configs s)))"

definition list_push_configs ::
  "(push_cols list \<Rightarrow> push_cols list) \<Rightarrow> store_codec \<Rightarrow> TaskStore \<Rightarrow> string \<Rightarrow>
   store_error + PushNotificationConfigRow list" where
  "list_push_configs ord cd s tid =
     collect (row_to_push cd) (ord (filter (\<lambda>p. p_task_id p = tid) (push_notification_configs s)))"

definition delete_push_config :: "TaskStore \<Rightarrow> string \<Rightarrow> bool \<times> TaskStore" where
  "delete_push_config s cid =
     (sql_changes (\<lambda>p. p_config_id p = cid) (push_notification_configs s) > 0,
      s\<lparr>push_notification_configs := tbl_delete (\<lambda>p. p_config_id p = cid) (push_notification_configs s)\<rparr>)"

subsection \<open>Retention\<close>

text \<open>\<open>WHERE terminal_at IS NOT NULL AND terminal_at < ?1\<close>: a comparison of texts.\<close>

definition expired :: "string \<Rightarrow> task_cols \<Rightarrow> bool" where
  "expired cutoff r = (case t_terminal_at r of None \<Rightarrow> False | Some t \<Rightarrow> t < cutoff)"

definition purge_expired :: "store_codec \<Rightarrow> timestamp \<Rightarrow> TaskStore \<Rightarrow> int \<Rightarrow> u64 \<times> TaskStore" where
  "purge_expired cd now s terminal_retention =
     (let cutoff = fmt_ts cd (now - terminal_retention);
          victims = map t_task_id (filter (expired cutoff) (tasks s))
      in (of_nat (sql_changes (expired cutoff) (tasks s)),
          s\<lparr>task_artifacts := tbl_delete (\<lambda>a. a_task_id a \<in> set victims) (task_artifacts s),
            push_notification_configs :=
              tbl_delete (\<lambda>p. p_task_id p \<in> set victims) (push_notification_configs s),
            tasks := tbl_delete (expired cutoff) (tasks s)\<rparr>))"

subsection \<open>Idempotency cache\<close>

definition idempotency_get :: "store_codec \<Rightarrow> TaskStore \<Rightarrow> string \<Rightarrow> store_error + IdempotencyEntry option" where
  "idempotency_get cd s mid =
     transpose_opt (map_option (row_to_idem cd) (tbl_get i_message_id mid (idempotency_cache s)))"

definition idempotency_put :: "store_codec \<Rightarrow> TaskStore \<Rightarrow> IdempotencyEntry \<Rightarrow> store_error + TaskStore" where
  "idempotency_put cd s e =
     and_then (json_text cd (ie_response_body e)) (\<lambda>body.
       Inr (s\<lparr>idempotency_cache :=
         (case tbl_get i_message_id (ie_message_id e) (idempotency_cache s) of
            None \<Rightarrow> idempotency_cache s @
              [\<lparr>i_message_id = ie_message_id e, i_request_hash = ie_request_hash e,
                i_response_status = uint (ie_response_status e), i_response_body = body,
                i_created_at = fmt_ts cd (ie_created_at e), i_expires_at = fmt_ts cd (ie_expires_at e)\<rparr>]
          | Some _ \<Rightarrow> tbl_update i_message_id (ie_message_id e)
              (\<lambda>r. r\<lparr>i_request_hash := ie_request_hash e,
                 i_response_status := uint (ie_response_status e), i_response_body := body,
                 i_expires_at := fmt_ts cd (ie_expires_at e)\<rparr>) (idempotency_cache s))\<rparr>))"

definition idempotency_purge_expired :: "store_codec \<Rightarrow> timestamp \<Rightarrow> TaskStore \<Rightarrow> u64 \<times> TaskStore" where
  "idempotency_purge_expired cd now s =
     (let p = (\<lambda>r. i_expires_at r < fmt_ts cd now)
      in (of_nat (sql_changes p (idempotency_cache s)),
          s\<lparr>idempotency_cache := tbl_delete p (idempotency_cache s)\<rparr>))"

definition idempotency_count :: "TaskStore \<Rightarrow> u64" where
  "idempotency_count s = of_nat (length (idempotency_cache s))"

text \<open>\<open>ord\<close> is the order \<open>ORDER BY created_at ASC\<close> produces; a negative limit is no limit.\<close>

definition idempotency_evict_oldest ::
  "(idem_cols list \<Rightarrow> idem_cols list) \<Rightarrow> TaskStore \<Rightarrow> u64 \<Rightarrow> u64 \<times> TaskStore" where
  "idempotency_evict_oldest ord s n =
     (if n = 0 then (0, s)
      else
        let rows = ord (idempotency_cache s);
            oldest = (if sint n < 0 then rows else take (nat (sint n)) rows);
            p = (\<lambda>r. i_message_id r \<in> set (map i_message_id oldest))
        in (of_nat (sql_changes p (idempotency_cache s)),
            s\<lparr>idempotency_cache := tbl_delete p (idempotency_cache s)\<rparr>))"

subsection \<open>Fleet workloads\<close>

text \<open>\<open>pick\<close> is the row that \<open>LIMIT 1\<close> selects among the matching ones.\<close>

definition fleet_dispatch ::
  "(fleet_cols list \<Rightarrow> fleet_cols) \<Rightarrow> store_codec \<Rightarrow> TaskStore \<Rightarrow> FleetWorkloadRow \<Rightarrow>
   store_error + FleetDispatchOutcome \<times> TaskStore" where
  "fleet_dispatch pick cd s row =
     (let found = filter (\<lambda>r. w_idempotency_key r = fw_idempotency_key row \<or> w_child_id r = fw_child_id row)
                    (fleet_workloads s)
      in if found \<noteq> [] then
           and_then (row_to_fleet cd (pick found)) (\<lambda>prior.
             if fw_idempotency_key prior = fw_idempotency_key row \<and>
                fw_request_hash prior = fw_request_hash row
             then Inr (Replay prior, s) else Inr (Collision, s))
         else
           and_then (json_text cd (fw_record_json row)) (\<lambda>j.
             Inr (Inserted row, s\<lparr>fleet_workloads := fleet_workloads s @
               [\<lparr>w_child_id = fw_child_id row, w_idempotency_key = fw_idempotency_key row,
                 w_request_hash = fw_request_hash row, w_target_id = fw_target_id row,
                 w_executor_id = fw_executor_id row, w_workload_kind = fw_workload_kind row,
                 w_observed_state = fw_observed_state row, w_revision = sint (fw_revision row),
                 w_last_seen = fmt_ts cd (fw_last_seen row), w_record_json = j,
                 w_created_at = fmt_ts cd (fw_created_at row),
                 w_updated_at = fmt_ts cd (fw_updated_at row)\<rparr>]\<rparr>)))"

definition get_fleet_workload ::
  "store_codec \<Rightarrow> TaskStore \<Rightarrow> string \<Rightarrow> store_error + FleetWorkloadRow option" where
  "get_fleet_workload cd s cid =
     transpose_opt (map_option (row_to_fleet cd) (tbl_get w_child_id cid (fleet_workloads s)))"

definition list_fleet_workloads :: "store_codec \<Rightarrow> TaskStore \<Rightarrow> store_error + FleetWorkloadRow list" where
  "list_fleet_workloads cd s = collect (row_to_fleet cd) (sort_key w_child_id (fleet_workloads s))"

definition observe_fleet_workload ::
  "store_codec \<Rightarrow> TaskStore \<Rightarrow> string \<Rightarrow> u64 \<Rightarrow> FleetWorkloadRow \<Rightarrow>
   store_error + FleetObservationOutcome \<times> TaskStore" where
  "observe_fleet_workload cd s cid expected next =
     (case tbl_get w_child_id cid (fleet_workloads s) of
        None \<Rightarrow> Inr (Missing, s)
      | Some r \<Rightarrow>
          let current = word_of_int (w_revision r) :: u64 in
          if current \<noteq> expected \<or> fw_revision next \<le> expected then Inr (Stale current, s)
          else and_then (json_text cd (fw_record_json next)) (\<lambda>j.
            Inr (FleetObservationOutcome.Updated next, s\<lparr>fleet_workloads := sql_update
              (\<lambda>w. w_child_id w = cid \<and> w_revision w = sint expected)
              (\<lambda>w. w\<lparr>w_observed_state := fw_observed_state next, w_revision := sint (fw_revision next),
                      w_last_seen := fmt_ts cd (fw_last_seen next), w_record_json := j,
                      w_updated_at := fmt_ts cd (fw_updated_at next)\<rparr>) (fleet_workloads s)\<rparr>)))"

subsection \<open>The operations as one alphabet\<close>

datatype store_op =
    SUpsert TaskRow
  | SDelete string
  | SArtifact timestamp string string json
  | SPush PushNotificationConfigRow
  | SPushBounded PushNotificationConfigRow usize
  | SDeletePush string
  | SPurge timestamp int
  | SIdemPut IdempotencyEntry
  | SIdemPurge timestamp
  | SIdemEvict u64
  | SDispatch FleetWorkloadRow
  | SObserve string u64 FleetWorkloadRow

record store_env =
  se_codec :: store_codec
  se_oldest :: "idem_cols list \<Rightarrow> idem_cols list"
  se_pick :: "fleet_cols list \<Rightarrow> fleet_cols"

definition or_same :: "TaskStore \<Rightarrow> store_error + TaskStore \<Rightarrow> TaskStore" where
  "or_same s r = (case r of Inl _ \<Rightarrow> s | Inr s' \<Rightarrow> s')"

fun store_step :: "store_env \<Rightarrow> TaskStore \<Rightarrow> store_op \<Rightarrow> TaskStore" where
  "store_step env s (SUpsert row) = or_same s (upsert_task (se_codec env) s row)"
| "store_step env s (SDelete tid) = snd (delete_task s tid)"
| "store_step env s (SArtifact now tid aid j) = or_same s (append_artifact (se_codec env) now s tid aid j)"
| "store_step env s (SPush cfg) = or_same s (put_push_config (se_codec env) s cfg)"
| "store_step env s (SPushBounded cfg m) =
     or_same s (map_sum id snd (put_push_config_bounded (se_codec env) s cfg m))"
| "store_step env s (SDeletePush cid) = snd (delete_push_config s cid)"
| "store_step env s (SPurge now retention) = snd (purge_expired (se_codec env) now s retention)"
| "store_step env s (SIdemPut e) = or_same s (idempotency_put (se_codec env) s e)"
| "store_step env s (SIdemPurge now) = snd (idempotency_purge_expired (se_codec env) now s)"
| "store_step env s (SIdemEvict n) = snd (idempotency_evict_oldest (se_oldest env) s n)"
| "store_step env s (SDispatch row) =
     or_same s (map_sum id snd (fleet_dispatch (se_pick env) (se_codec env) s row))"
| "store_step env s (SObserve cid e next) =
     or_same s (map_sum id snd (observe_fleet_workload (se_codec env) s cid e next))"

lemma or_same_cases:
  assumes "\<And>s'. r = Inr s' \<Longrightarrow> P s'" and "P s"
  shows "P (or_same s r)"
  using assms by (cases r) (auto simp: or_same_def)

subsection \<open>The structural invariant: keys and references\<close>

definition task_ids :: "TaskStore \<Rightarrow> string set" where
  "task_ids s = t_task_id ` set (tasks s)"

definition store_ok :: "TaskStore \<Rightarrow> bool" where
  "store_ok s \<longleftrightarrow>
     key_unique t_task_id (tasks s) \<and> key_unique a_artifact_id (task_artifacts s) \<and>
     key_unique p_config_id (push_notification_configs s) \<and>
     key_unique i_message_id (idempotency_cache s) \<and>
     key_unique w_child_id (fleet_workloads s) \<and> key_unique w_idempotency_key (fleet_workloads s) \<and>
     (\<forall>a \<in> set (task_artifacts s). a_task_id a \<in> task_ids s) \<and>
     (\<forall>p \<in> set (push_notification_configs s). p_task_id p \<in> task_ids s) \<and>
     (\<forall>w \<in> set (fleet_workloads s). \<exists>n :: u64. w_revision w = sint n)"

lemma store_okI:
  assumes "store_ok s"
    and "key_unique t_task_id (tasks s) \<Longrightarrow> key_unique t_task_id (tasks s')"
    and "key_unique a_artifact_id (task_artifacts s) \<Longrightarrow> key_unique a_artifact_id (task_artifacts s')"
    and "key_unique p_config_id (push_notification_configs s) \<Longrightarrow>
           key_unique p_config_id (push_notification_configs s')"
    and "key_unique i_message_id (idempotency_cache s) \<Longrightarrow> key_unique i_message_id (idempotency_cache s')"
    and "fleet_workloads s' = fleet_workloads s"
    and "\<forall>a \<in> set (task_artifacts s). a_task_id a \<in> task_ids s \<Longrightarrow>
           \<forall>a \<in> set (task_artifacts s'). a_task_id a \<in> task_ids s'"
    and "\<forall>p \<in> set (push_notification_configs s). p_task_id p \<in> task_ids s \<Longrightarrow>
           \<forall>p \<in> set (push_notification_configs s'). p_task_id p \<in> task_ids s'"
  shows "store_ok s'"
  using assms unfolding store_ok_def by simp

lemma empty_store_ok: "store_ok empty_store"
  by (simp add: store_ok_def empty_store_def)

lemma tbl_get_task_ids: "tbl_get t_task_id k (tasks s) = None \<longleftrightarrow> k \<notin> task_ids s"
  by (simp add: task_ids_def tbl_get_None)

lemma task_ids_upd [simp]:
  "task_ids (s\<lparr>task_artifacts := as\<rparr>) = task_ids s"
  "task_ids (s\<lparr>push_notification_configs := ps\<rparr>) = task_ids s"
  "task_ids (s\<lparr>idempotency_cache := is\<rparr>) = task_ids s"
  "task_ids (s\<lparr>fleet_workloads := ws\<rparr>) = task_ids s"
  "task_ids (s\<lparr>tasks := ts\<rparr>) = t_task_id ` set ts"
  by (simp_all add: task_ids_def)

lemma task_cols_sel [simp]:
  "t_task_id (insert_task_cols cd row status meta te) = tr_task_id row"
  "t_task_id (update_task_cols cd row status meta te r) = t_task_id r"
  "t_created_at (update_task_cols cd row status meta te r) = t_created_at r"
  "t_terminal_at (insert_task_cols cd row status meta te) = te"
  "t_terminal_at (update_task_cols cd row status meta te r) = te"
  "t_instance_id (insert_task_cols cd row status meta te) = tr_instance_id row"
  by (simp_all add: insert_task_cols_def update_task_cols_def)

lemma upsert_task_Inr:
  assumes "upsert_task cd s row = Inr s'"
  obtains status meta where
    "json_text cd (tr_status_json row) = Inr status" "json_opt_text cd (tr_metadata_json row) = Inr meta"
    "s' = s\<lparr>tasks := (case tbl_get t_task_id (tr_task_id row) (tasks s) of
        None \<Rightarrow> tasks s @ [insert_task_cols cd row status meta
          (terminal_text cd (tbl_get t_task_id (tr_task_id row) (tasks s)) row)]
      | Some _ \<Rightarrow> tbl_update t_task_id (tr_task_id row)
          (update_task_cols cd row status meta
            (terminal_text cd (tbl_get t_task_id (tr_task_id row) (tasks s)) row)) (tasks s))\<rparr>"
  using assms by (auto simp: upsert_task_def Let_def and_then_Inr)

lemma upsert_task_ok:
  assumes "store_ok s" and "upsert_task cd s row = Inr s'"
  shows "store_ok s'"
proof -
  obtain status meta where
    s': "s' = s\<lparr>tasks := (case tbl_get t_task_id (tr_task_id row) (tasks s) of
        None \<Rightarrow> tasks s @ [insert_task_cols cd row status meta
          (terminal_text cd (tbl_get t_task_id (tr_task_id row) (tasks s)) row)]
      | Some _ \<Rightarrow> tbl_update t_task_id (tr_task_id row)
          (update_task_cols cd row status meta
            (terminal_text cd (tbl_get t_task_id (tr_task_id row) (tasks s)) row)) (tasks s))\<rparr>"
    using assms(2) by (rule upsert_task_Inr)
  have "task_ids s \<subseteq> task_ids s'"
    unfolding s' by (auto simp: task_ids_def image_key_tbl_update split: option.splits)
  then show ?thesis
    by (intro store_okI [OF assms(1)])
      (auto simp: s' split: option.splits intro!: key_unique_intros)
qed

lemma delete_task_ok:
  assumes "store_ok s"
  shows "store_ok (snd (delete_task s tid))"
  by (intro store_okI [OF assms])
    (auto simp: delete_task_def task_ids_def intro: key_unique_delete)

lemma purge_expired_ok:
  assumes "store_ok s"
  shows "store_ok (snd (purge_expired cd now s d))"
  by (intro store_okI [OF assms])
    (fastforce simp: purge_expired_def Let_def task_ids_def intro: key_unique_delete)+

lemma append_artifact_ok:
  assumes "store_ok s" and "append_artifact cd now s tid aid j = Inr s'"
  shows "store_ok s'"
  using assms(2)
  by (intro store_okI [OF assms(1)])
    (auto simp: append_artifact_def and_then_Inr tbl_get_task_ids split: if_splits
      intro!: key_unique_intros)

lemma put_push_config_ok:
  assumes "store_ok s" and "put_push_config cd s cfg = Inr s'"
  shows "store_ok s'"
  using assms(2)
  by (intro store_okI [OF assms(1)])
    (auto simp: put_push_config_def and_then_Inr tbl_get_task_ids push_row_def
      split: if_splits option.splits intro!: key_unique_intros elim!: set_tbl_updateE)

lemma put_push_config_bounded_ok:
  assumes "store_ok s" and "put_push_config_bounded cd s cfg m = Inr (d, s')"
  shows "store_ok s'"
proof (cases "tbl_get p_config_id (pc_config_id cfg) (push_notification_configs s)")
  case None
  with assms(2) show ?thesis
    by (intro store_okI [OF assms(1)])
      (auto simp: put_push_config_bounded_def and_then_Inr tbl_get_task_ids push_row_def
        split: if_splits intro!: key_unique_intros)
next
  case (Some x)
  then have "p_task_id x \<in> task_ids s"
    using assms(1) by (auto simp: store_ok_def dest: tbl_get_SomeD)
  with Some assms(2) show ?thesis
    by (intro store_okI [OF assms(1)])
      (auto simp: put_push_config_bounded_def and_then_Inr split: if_splits
        intro!: key_unique_intros elim!: set_sql_updateE)
qed

lemma delete_push_config_ok:
  assumes "store_ok s"
  shows "store_ok (snd (delete_push_config s cid))"
  by (intro store_okI [OF assms])
    (auto simp: delete_push_config_def task_ids_def intro: key_unique_delete)

lemma idempotency_put_ok:
  assumes "store_ok s" and "idempotency_put cd s e = Inr s'"
  shows "store_ok s'"
  using assms(2)
  by (cases "tbl_get i_message_id (ie_message_id e) (idempotency_cache s)"; intro store_okI [OF assms(1)])
    (auto simp: idempotency_put_def and_then_Inr intro!: key_unique_intros)

lemma idempotency_delete_ok:
  assumes "store_ok s"
  shows "store_ok (snd (idempotency_purge_expired cd now s))"
    and "store_ok (snd (idempotency_evict_oldest ord s n))"
  by (intro store_okI [OF assms];
      auto simp: idempotency_purge_expired_def idempotency_evict_oldest_def Let_def task_ids_def
      intro: key_unique_delete)+

lemma fleet_dispatch_Inr:
  assumes "fleet_dispatch pick cd s row = Inr (d, s')"
  obtains (prior) r where
      "r = pick (filter (\<lambda>r. w_idempotency_key r = fw_idempotency_key row \<or> w_child_id r = fw_child_id row)
        (fleet_workloads s))"
      "fw_idempotency_key row \<in> w_idempotency_key ` set (fleet_workloads s) \<or>
       fw_child_id row \<in> w_child_id ` set (fleet_workloads s)"
      "s' = s" "\<And>x. d \<noteq> Inserted x"
      "d = (if w_idempotency_key r = fw_idempotency_key row \<and> w_request_hash r = fw_request_hash row
            then Replay (projr (row_to_fleet cd r)) else Collision)"
  | (fresh) r where "fw_idempotency_key row \<notin> w_idempotency_key ` set (fleet_workloads s)"
      "fw_child_id row \<notin> w_child_id ` set (fleet_workloads s)" "d = Inserted row"
      "s' = s\<lparr>fleet_workloads := fleet_workloads s @ [r]\<rparr>"
      "w_child_id r = fw_child_id row" "w_idempotency_key r = fw_idempotency_key row"
      "w_request_hash r = fw_request_hash row" "w_revision r = sint (fw_revision row)"
proof (cases "filter (\<lambda>r. w_idempotency_key r = fw_idempotency_key row \<or> w_child_id r = fw_child_id row)
        (fleet_workloads s) = []")
  case True
  then have "fw_idempotency_key row \<notin> w_idempotency_key ` set (fleet_workloads s)"
    "fw_child_id row \<notin> w_child_id ` set (fleet_workloads s)"
    by (auto simp: filter_empty_conv)
  with True assms show ?thesis
    by (auto simp: fleet_dispatch_def Let_def and_then_Inr intro: fresh)
next
  case False
  then have m: "fw_idempotency_key row \<in> w_idempotency_key ` set (fleet_workloads s) \<or>
       fw_child_id row \<in> w_child_id ` set (fleet_workloads s)"
    by (force simp: filter_empty_conv image_iff)
  have "fw_idempotency_key x = w_idempotency_key r \<and> fw_request_hash x = w_request_hash r"
    if "row_to_fleet cd r = Inr x" for r x
    using that by (auto simp: row_to_fleet_def and_then_Inr)
  with False assms show ?thesis
    by (intro prior [OF refl m]) (fastforce simp: fleet_dispatch_def Let_def and_then_Inr split: if_splits)+
qed

lemma fleet_dispatch_ok:
  assumes "store_ok s" and "fleet_dispatch pick cd s row = Inr (d, s')"
  shows "store_ok s'"
  using assms(2)
proof (cases rule: fleet_dispatch_Inr)
  case (fresh r)
  then show ?thesis
    using assms(1) by (auto simp: store_ok_def tbl_get_None intro!: key_unique_insert)
qed (use assms(1) in simp)

lemma observe_fleet_Inr:
  assumes "observe_fleet_workload cd s cid e next = Inr (d, s')" and "store_ok s"
  obtains (missing) "tbl_get w_child_id cid (fleet_workloads s) = None" "d = Missing" "s' = s"
  | (stale) r where "tbl_get w_child_id cid (fleet_workloads s) = Some r"
      "(word_of_int (w_revision r) :: u64) \<noteq> e \<or> fw_revision next \<le> e"
      "d = Stale (word_of_int (w_revision r))" "s' = s"
  | (updated) r j where "tbl_get w_child_id cid (fleet_workloads s) = Some r" "w_revision r = sint e"
      "e < fw_revision next" "d = FleetObservationOutcome.Updated next"
      "json_text cd (fw_record_json next) = Inr j"
      "s' = s\<lparr>fleet_workloads := tbl_update w_child_id cid
         (\<lambda>w. w\<lparr>w_observed_state := fw_observed_state next, w_revision := sint (fw_revision next),
                 w_last_seen := fmt_ts cd (fw_last_seen next), w_record_json := j,
                 w_updated_at := fmt_ts cd (fw_updated_at next)\<rparr>) (fleet_workloads s)\<rparr>"
proof (cases "tbl_get w_child_id cid (fleet_workloads s)")
  case None
  with assms(1) show ?thesis by (auto simp: observe_fleet_workload_def intro: missing)
next
  case (Some r)
  show ?thesis
  proof (cases "(word_of_int (w_revision r) :: u64) \<noteq> e \<or> fw_revision next \<le> e")
    case True
    with assms(1) Some show ?thesis
      by (auto simp: observe_fleet_workload_def Let_def intro: stale [OF Some True])
  next
    case False
    from Some have r: "r \<in> set (fleet_workloads s)" "w_child_id r = cid" by (auto dest: tbl_get_SomeD)
    from r(1) assms(2) obtain n :: u64 where "w_revision r = sint n"
      by (auto simp: store_ok_def)
    with False have rev: "w_revision r = sint e" by simp
    have "sql_update (\<lambda>w. w_child_id w = cid \<and> w_revision w = sint e) f (fleet_workloads s)
        = tbl_update w_child_id cid f (fleet_workloads s)" for f
      unfolding sql_update_def tbl_update_def
    proof (rule map_cong [OF refl])
      fix w assume w: "w \<in> set (fleet_workloads s)"
      then have "w = r" if "w_child_id w = cid"
        using tbl_get_SomeI [of w_child_id "fleet_workloads s" w] assms(2) Some that
        by (simp add: store_ok_def)
      with rev show "(if w_child_id w = cid \<and> w_revision w = sint e then f w else w)
          = (if w_child_id w = cid then f w else w)" by auto
    qed
    with assms(1) Some False rev show ?thesis
      by (auto simp: observe_fleet_workload_def Let_def and_then_Inr intro: updated)
  qed
qed

lemma observe_fleet_ok:
  assumes "store_ok s" and "observe_fleet_workload cd s cid e next = Inr (d, s')"
  shows "store_ok s'"
  using assms(2,1)
proof (cases rule: observe_fleet_Inr)
  case (updated r j)
  then show ?thesis
    using assms(1)
    by (auto simp: store_ok_def intro!: key_unique_update key_unique_tbl_update_other elim!: set_tbl_updateE)
qed (use assms(1) in simp_all)

lemma or_same_ok:
  assumes "store_ok s" and "\<And>s'. r = Inr s' \<Longrightarrow> store_ok s'"
  shows "store_ok (or_same s r)"
  using assms by (auto simp: or_same_def split: sum.splits)

lemma or_same_snd_ok:
  assumes "store_ok s" and "\<And>d s'. r = Inr (d, s') \<Longrightarrow> store_ok s'"
  shows "store_ok (or_same s (map_sum id snd r))"
  using assms by (cases r) (auto simp: or_same_def)

lemma store_step_ok:
  assumes "store_ok s"
  shows "store_ok (store_step env s op)"
proof (cases op)
  case (SUpsert row)
  then show ?thesis using upsert_task_ok [OF assms] by (simp add: or_same_ok assms)
next
  case (SArtifact now tid aid j)
  then show ?thesis using append_artifact_ok [OF assms] by (simp add: or_same_ok assms)
next
  case (SPush cfg)
  then show ?thesis using put_push_config_ok [OF assms] by (simp add: or_same_ok assms)
next
  case (SPushBounded cfg m)
  then show ?thesis using put_push_config_bounded_ok [OF assms] by (simp add: or_same_snd_ok assms)
next
  case (SIdemPut e)
  then show ?thesis using idempotency_put_ok [OF assms] by (simp add: or_same_ok assms)
next
  case (SDispatch row)
  then show ?thesis using fleet_dispatch_ok [OF assms] by (simp add: or_same_snd_ok assms)
next
  case (SObserve cid e nxt)
  then show ?thesis using observe_fleet_ok [OF assms] by (simp add: or_same_snd_ok assms)
qed (simp_all add: assms delete_task_ok purge_expired_ok delete_push_config_ok idempotency_delete_ok)

interpretation store_ops: op_system "store_step env" store_ok for env
  by unfold_locales (rule store_step_ok)

subsection \<open>What is assumed of the codec\<close>

text \<open>
  Timestamps are nanoseconds since the epoch. In the years 0 to 9999, RFC 3339 rendering with
  nanoseconds and \<open>Z\<close> has a fixed width, so parsing inverts it and the order of the texts is the
  order of the instants; JSON that was printed parses back.
\<close>

definition ts_valid :: "timestamp \<Rightarrow> bool" where
  "ts_valid t \<longleftrightarrow> - 62167219200 * 10 ^ 9 \<le> t \<and> t < 253402300800 * 10 ^ 9"

definition codec_ok :: "store_codec \<Rightarrow> bool" where
  "codec_ok cd \<longleftrightarrow> json_roundtrip (sc_json cd) \<and>
     (\<forall>t. ts_valid t \<longrightarrow> sc_parse_ts cd (sc_fmt_ts cd t) = Some t) \<and>
     (\<forall>t u. ts_valid t \<longrightarrow> ts_valid u \<longrightarrow> (sc_fmt_ts cd t < sc_fmt_ts cd u \<longleftrightarrow> t < u))"

lemma state_from_as_str [simp]: "state_from_str (state_as_str st) = Inr st"
  by (cases st) (simp_all add: state_from_str_def)

lemma fail_from_as_str [simp]: "fail_from_str (fail_as_str f) = Inr f"
  by (cases f) (simp_all add: fail_from_str_def)

lemma state_from_str_Inr: "state_from_str s = Inr st \<longleftrightarrow> s = state_as_str st"
proof
  assume "state_from_str s = Inr st"
  then show "s = state_as_str st" by (auto simp: state_from_str_def split: if_splits)
qed simp

lemma parse_fmt_ts: "codec_ok cd \<Longrightarrow> ts_valid t \<Longrightarrow> parse_ts cd (fmt_ts cd t) = Inr t"
  by (simp add: codec_ok_def parse_ts_def fmt_ts_def)

lemma fmt_ts_less: "codec_ok cd \<Longrightarrow> ts_valid t \<Longrightarrow> ts_valid u \<Longrightarrow> fmt_ts cd t < fmt_ts cd u \<longleftrightarrow> t < u"
  by (simp add: codec_ok_def fmt_ts_def)

lemma parse_json_text: "codec_ok cd \<Longrightarrow> json_text cd v = Inr s \<Longrightarrow> parse_json cd s = Inr v"
  by (auto simp: codec_ok_def json_roundtrip_def json_text_def parse_json_def)

lemma parse_json_opt_text: "codec_ok cd \<Longrightarrow> json_opt_text cd v = Inr s \<Longrightarrow> parse_opt_json cd s = Inr v"
  by (auto simp: json_opt_text_def parse_opt_json_def transpose_opt_Inr parse_json_text split: option.splits)

lemma parse_opt_fmt_ts:
  "codec_ok cd \<Longrightarrow> (\<And>t. x = Some t \<Longrightarrow> ts_valid t) \<Longrightarrow> parse_opt_ts cd (map_option (fmt_ts cd) x) = Inr x"
  by (cases x) (auto simp: parse_opt_ts_def parse_fmt_ts)

lemma transpose_fail [simp]: "transpose_opt (map_option fail_from_str (map_option fail_as_str x)) = Inr x"
  by (cases x) simp_all

subsection \<open>The tasks as an abstract map\<close>

definition times_valid :: "TaskRow \<Rightarrow> bool" where
  "times_valid row \<longleftrightarrow> ts_valid (tr_created_at row) \<and> ts_valid (tr_updated_at row) \<and>
     (case tr_terminal_at row of None \<Rightarrow> True | Some t \<Rightarrow> ts_valid t)"

definition task_cols_ok :: "store_codec \<Rightarrow> task_cols \<Rightarrow> bool" where
  "task_cols_ok cd r \<longleftrightarrow> (\<exists>row. row_to_task cd r = Inr row \<and> times_valid row \<and>
     t_created_at r = fmt_ts cd (tr_created_at row) \<and>
     t_terminal_at r = map_option (fmt_ts cd) (tr_terminal_at row))"

definition rows_ok :: "store_codec \<Rightarrow> TaskStore \<Rightarrow> bool" where
  "rows_ok cd s \<longleftrightarrow> (\<forall>r \<in> set (tasks s). task_cols_ok cd r)"

definition task_view :: "store_codec \<Rightarrow> TaskStore \<Rightarrow> string \<Rightarrow> TaskRow option" where
  "task_view cd s k = (case get_task cd s k of Inr x \<Rightarrow> x | Inl _ \<Rightarrow> None)"

text \<open>What an upsert means: creation time, owner and terminal time of an existing task are kept.\<close>

definition merge_task :: "TaskRow option \<Rightarrow> TaskRow \<Rightarrow> TaskRow" where
  "merge_task prior row =
     (let dflt = (case tr_terminal_at row of Some t \<Rightarrow> Some t
                  | None \<Rightarrow> if state_is_terminal (tr_state row) then Some (tr_updated_at row) else None)
      in case prior of
           None \<Rightarrow> row\<lparr>tr_terminal_at := dflt\<rparr>
         | Some p \<Rightarrow> row\<lparr>
             tr_instance_id := (case tr_instance_id p of None \<Rightarrow> tr_instance_id row | Some i \<Rightarrow> Some i),
             tr_created_at := tr_created_at p,
             tr_terminal_at := (case tr_terminal_at p of Some t \<Rightarrow> Some t | None \<Rightarrow> dflt)\<rparr>)"

definition serializable :: "store_codec \<Rightarrow> TaskRow \<Rightarrow> bool" where
  "serializable cd row \<longleftrightarrow> (\<exists>x y. json_text cd (tr_status_json row) = Inr x \<and>
     json_opt_text cd (tr_metadata_json row) = Inr y)"

fun spec_step :: "store_codec \<Rightarrow> (string \<rightharpoonup> TaskRow) \<Rightarrow> store_op \<Rightarrow> (string \<rightharpoonup> TaskRow)" where
  "spec_step cd m (SUpsert row) =
     (if serializable cd row then m(tr_task_id row \<mapsto> merge_task (m (tr_task_id row)) row) else m)"
| "spec_step cd m (SDelete k) = m(k := None)"
| "spec_step cd m (SPurge now retention) =
     (\<lambda>k. case m k of None \<Rightarrow> None
       | Some r \<Rightarrow> (case tr_terminal_at r of
           Some t \<Rightarrow> if t < now - retention then None else Some r | None \<Rightarrow> Some r))"
| "spec_step cd m _ = m"

fun op_valid :: "store_op \<Rightarrow> bool" where
  "op_valid (SUpsert row) = times_valid row"
| "op_valid (SPurge now retention) = ts_valid (now - retention)"
| "op_valid _ = True"

lemma row_to_task_sel:
  "row_to_task cd r = Inr row \<Longrightarrow> tr_task_id row = t_task_id r \<and> tr_instance_id row = t_instance_id r \<and>
     state_as_str (tr_state row) = t_state r \<and> (tr_terminal_at row = None \<longleftrightarrow> t_terminal_at r = None)"
  by (auto simp: row_to_task_def and_then_Inr state_from_str_Inr parse_opt_ts_def transpose_opt_Inr
      split: option.splits)

lemma task_view_rows:
  assumes "rows_ok cd s"
  shows "task_view cd s k = map_option (\<lambda>r. projr (row_to_task cd r)) (tbl_get t_task_id k (tasks s))"
proof (cases "tbl_get t_task_id k (tasks s)")
  case (Some r)
  then have "task_cols_ok cd r" using assms by (auto simp: rows_ok_def dest: tbl_get_SomeD)
  with Some show ?thesis by (auto simp: task_view_def get_task_def task_cols_ok_def)
qed (simp add: task_view_def get_task_def)

lemma get_task_view: "rows_ok cd s \<Longrightarrow> get_task cd s k = Inr (task_view cd s k)"
proof (cases "tbl_get t_task_id k (tasks s)")
  case (Some r)
  assume "rows_ok cd s"
  with Some have "task_cols_ok cd r" by (auto simp: rows_ok_def dest: tbl_get_SomeD)
  with Some show ?thesis by (auto simp: task_view_def get_task_def task_cols_ok_def)
qed (simp add: task_view_def get_task_def)

lemma insert_task_cols_decode:
  assumes "codec_ok cd" and "times_valid row" and "json_text cd (tr_status_json row) = Inr status"
    and "json_opt_text cd (tr_metadata_json row) = Inr meta"
  shows "row_to_task cd (insert_task_cols cd row status meta (terminal_text cd None row)) = Inr (merge_task None row)"
    and "task_cols_ok cd (insert_task_cols cd row status meta (terminal_text cd None row))"
proof -
  have te: "terminal_text cd None row = map_option (fmt_ts cd) (tr_terminal_at (merge_task None row))"
    by (simp add: terminal_text_def merge_task_def split: option.splits)
  have v: "times_valid (merge_task None row)"
    using assms(2) by (simp add: times_valid_def merge_task_def Let_def split: option.splits)
  have pt: "parse_opt_ts cd (terminal_text cd None row) = Inr (tr_terminal_at (merge_task None row))"
    unfolding te using v by (intro parse_opt_fmt_ts [OF assms(1)]) (auto simp: times_valid_def)
  have "ts_valid (tr_created_at row)" "ts_valid (tr_updated_at row)"
    using assms(2) by (simp_all add: times_valid_def)
  then show d: "row_to_task cd (insert_task_cols cd row status meta (terminal_text cd None row)) = Inr (merge_task None row)"
    using assms pt
    by (simp add: row_to_task_def insert_task_cols_def parse_fmt_ts parse_json_text parse_json_opt_text)
      (simp add: merge_task_def Let_def)
  show "task_cols_ok cd (insert_task_cols cd row status meta (terminal_text cd None row))"
    unfolding task_cols_ok_def using d v
    by (intro exI [of _ "merge_task None row"]) (simp add: te merge_task_def Let_def insert_task_cols_def)
qed

lemma update_task_cols_decode:
  assumes "codec_ok cd" and "times_valid row" and "json_text cd (tr_status_json row) = Inr status"
    and "json_opt_text cd (tr_metadata_json row) = Inr meta" and "task_cols_ok cd r"
    and "row_to_task cd r = Inr p" and "t_task_id r = tr_task_id row"
  shows "row_to_task cd (update_task_cols cd row status meta (terminal_text cd (Some r) row) r)
      = Inr (merge_task (Some p) row)"
    and "task_cols_ok cd (update_task_cols cd row status meta (terminal_text cd (Some r) row) r)"
proof -
  have p: "times_valid p" "t_created_at r = fmt_ts cd (tr_created_at p)"
    "t_terminal_at r = map_option (fmt_ts cd) (tr_terminal_at p)"
    using assms(5,6) by (auto simp: task_cols_ok_def)
  have te: "terminal_text cd (Some r) row = map_option (fmt_ts cd) (tr_terminal_at (merge_task (Some p) row))"
    by (simp add: terminal_text_def merge_task_def p(3) split: option.splits)
  have v: "times_valid (merge_task (Some p) row)"
    using assms(2) p(1) by (simp add: times_valid_def merge_task_def Let_def split: option.splits)
  have pt: "parse_opt_ts cd (terminal_text cd (Some r) row) = Inr (tr_terminal_at (merge_task (Some p) row))"
    unfolding te using v by (intro parse_opt_fmt_ts [OF assms(1)]) (auto simp: times_valid_def)
  have "ts_valid (tr_created_at p)" "ts_valid (tr_updated_at row)"
    using assms(2) p(1) by (simp_all add: times_valid_def)
  then show d: "row_to_task cd (update_task_cols cd row status meta (terminal_text cd (Some r) row) r)
      = Inr (merge_task (Some p) row)"
    using assms(1,3,4,7) pt p(2) row_to_task_sel [OF assms(6)]
    by (simp add: row_to_task_def update_task_cols_def parse_fmt_ts parse_json_text parse_json_opt_text)
      (simp add: merge_task_def Let_def)
  show "task_cols_ok cd (update_task_cols cd row status meta (terminal_text cd (Some r) row) r)"
    unfolding task_cols_ok_def using d v p(2)
    by (intro exI [of _ "merge_task (Some p) row"]) (simp add: te merge_task_def Let_def update_task_cols_def)
qed

lemma upsert_task_refines:
  assumes "codec_ok cd" and "rows_ok cd s" and "times_valid row" and "upsert_task cd s row = Inr s'"
    and "store_ok s"
  shows "rows_ok cd s'"
    and "task_view cd s' = (task_view cd s)(tr_task_id row \<mapsto> merge_task (task_view cd s (tr_task_id row)) row)"
proof -
  obtain status meta where j: "json_text cd (tr_status_json row) = Inr status"
    "json_opt_text cd (tr_metadata_json row) = Inr meta"
    and s': "s' = s\<lparr>tasks := (case tbl_get t_task_id (tr_task_id row) (tasks s) of
        None \<Rightarrow> tasks s @ [insert_task_cols cd row status meta
          (terminal_text cd (tbl_get t_task_id (tr_task_id row) (tasks s)) row)]
      | Some _ \<Rightarrow> tbl_update t_task_id (tr_task_id row)
          (update_task_cols cd row status meta
            (terminal_text cd (tbl_get t_task_id (tr_task_id row) (tasks s)) row)) (tasks s))\<rparr>"
    using assms(4) by (rule upsert_task_Inr)
  note ins = insert_task_cols_decode [OF assms(1,3) j]
  have "rows_ok cd s' \<and> task_view cd s' =
      (task_view cd s)(tr_task_id row \<mapsto> merge_task (task_view cd s (tr_task_id row)) row)"
  proof (cases "tbl_get t_task_id (tr_task_id row) (tasks s)")
    case None
    with assms(2) ins(2) have ok: "rows_ok cd s'" by (auto simp: s' rows_ok_def)
    have "task_view cd s' k = ((task_view cd s)(tr_task_id row \<mapsto> merge_task (task_view cd s (tr_task_id row)) row)) k" for k
      unfolding task_view_rows [OF ok] task_view_rows [OF assms(2)] fun_upd_apply
      using None ins(1) by (auto simp: s' table_simps split: option.splits)
    with ok show ?thesis by blast
  next
    case (Some r)
    have r: "task_cols_ok cd r" "t_task_id r = tr_task_id row"
      using assms(2) Some by (auto simp: rows_ok_def dest: tbl_get_SomeD)
    then obtain p where p: "row_to_task cd r = Inr p" by (auto simp: task_cols_ok_def)
    note upd = update_task_cols_decode [OF assms(1,3) j r(1) p r(2)]
    have t: "t = r" if "t \<in> set (tasks s)" "t_task_id t = tr_task_id row" for t
      using tbl_get_SomeI [of t_task_id "tasks s" t] assms(5) Some that by (simp add: store_ok_def)
    with assms(2) upd(2) Some have ok: "rows_ok cd s'"
      by (auto simp: s' rows_ok_def elim!: set_tbl_updateE)
    have "task_view cd s' k = ((task_view cd s)(tr_task_id row \<mapsto> merge_task (task_view cd s (tr_task_id row)) row)) k" for k
      unfolding task_view_rows [OF ok] task_view_rows [OF assms(2)] fun_upd_apply
      using Some upd(1) p by (auto simp: s' table_simps)
    with ok show ?thesis by blast
  qed
  then show "rows_ok cd s'"
    and "task_view cd s' = (task_view cd s)(tr_task_id row \<mapsto> merge_task (task_view cd s (tr_task_id row)) row)"
    by simp_all
qed

lemma delete_task_refines:
  assumes "rows_ok cd s"
  shows "rows_ok cd (snd (delete_task s tid))"
    and "task_view cd (snd (delete_task s tid)) = (task_view cd s)(tid := None)"
proof -
  show ok: "rows_ok cd (snd (delete_task s tid))"
    using assms by (auto simp: rows_ok_def delete_task_def)
  show "task_view cd (snd (delete_task s tid)) = (task_view cd s)(tid := None)"
  proof
    fix k
    show "task_view cd (snd (delete_task s tid)) k = ((task_view cd s)(tid := None)) k"
      unfolding task_view_rows [OF ok] task_view_rows [OF assms] fun_upd_apply
      by (simp add: delete_task_def table_simps)
  qed
qed

lemma purge_expired_refines:
  assumes "codec_ok cd" and "rows_ok cd s" and "store_ok s" and "ts_valid (now - d)"
  shows "rows_ok cd (snd (purge_expired cd now s d))"
    and "task_view cd (snd (purge_expired cd now s d)) = spec_step cd (task_view cd s) (SPurge now d)"
proof -
  show ok: "rows_ok cd (snd (purge_expired cd now s d))"
    using assms(2) by (auto simp: rows_ok_def purge_expired_def Let_def)
  show "task_view cd (snd (purge_expired cd now s d)) = spec_step cd (task_view cd s) (SPurge now d)"
  proof
    fix k
    have u: "key_unique t_task_id (tasks s)" using assms(3) by (simp add: store_ok_def)
    show "task_view cd (snd (purge_expired cd now s d)) k = spec_step cd (task_view cd s) (SPurge now d) k"
    proof (cases "tbl_get t_task_id k (tasks s)")
      case (Some r)
      then have "task_cols_ok cd r" using assms(2) by (auto simp: rows_ok_def dest: tbl_get_SomeD)
      then obtain row where row: "row_to_task cd r = Inr row" "times_valid row"
        "t_terminal_at r = map_option (fmt_ts cd) (tr_terminal_at row)"
        by (auto simp: task_cols_ok_def)
      have "expired (fmt_ts cd (now - d)) r \<longleftrightarrow> (\<exists>t. tr_terminal_at row = Some t \<and> t < now - d)"
        using row(2,3) assms(1,4) by (auto simp: expired_def times_valid_def fmt_ts_less split: option.splits)
      with Some row(1) show ?thesis
        unfolding spec_step.simps task_view_rows [OF ok] task_view_rows [OF assms(2)]
        by (auto simp: purge_expired_def Let_def tbl_get_delete [OF u] split: option.splits)
    next
      case None
      then show ?thesis
        unfolding spec_step.simps task_view_rows [OF ok] task_view_rows [OF assms(2)]
        by (simp add: purge_expired_def Let_def tbl_get_delete [OF u])
    qed
  qed
qed

lemma task_view_cong: "tasks s' = tasks s \<Longrightarrow> task_view cd s' = task_view cd s \<and> rows_ok cd s' = rows_ok cd s"
  by (auto simp: task_view_def get_task_def rows_ok_def)

lemma or_same_tasks:
  assumes "\<And>s'. r = Inr s' \<Longrightarrow> tasks s' = tasks s"
  shows "tasks (or_same s r) = tasks s"
proof (cases r)
  case (Inr s')
  then show ?thesis using assms [OF Inr] by (simp add: or_same_def)
qed (simp add: or_same_def)

lemma or_same_snd_tasks:
  assumes "\<And>d s'. r = Inr (d, s') \<Longrightarrow> tasks s' = tasks s"
  shows "tasks (or_same s (map_sum id snd r)) = tasks s"
proof (cases r)
  case (Inr x)
  then show ?thesis using assms [of "fst x" "snd x"] by (simp add: or_same_def)
qed (simp add: or_same_def)

lemma no_task_change:
  "append_artifact cd now s tid aid j = Inr s' \<Longrightarrow> tasks s' = tasks s"
  "put_push_config cd s cfg = Inr s' \<Longrightarrow> tasks s' = tasks s"
  "put_push_config_bounded cd s cfg m = Inr (d, s') \<Longrightarrow> tasks s' = tasks s"
  "idempotency_put cd s e = Inr s' \<Longrightarrow> tasks s' = tasks s"
  "fleet_dispatch pick cd s row = Inr (d', s') \<Longrightarrow> tasks s' = tasks s"
  "observe_fleet_workload cd s cid n nxt = Inr (d'', s') \<Longrightarrow> tasks s' = tasks s"
  by (auto simp: append_artifact_def put_push_config_def put_push_config_bounded_def
      idempotency_put_def fleet_dispatch_def observe_fleet_workload_def and_then_Inr Let_def
      split: option.splits if_splits)

lemma store_step_tasks:
  assumes "\<And>row. op \<noteq> SUpsert row" and "\<And>k. op \<noteq> SDelete k" and "\<And>t d. op \<noteq> SPurge t d"
  shows "tasks (store_step env s op) = tasks s"
proof (cases op)
  case (SArtifact now tid aid j)
  then show ?thesis by (simp add: or_same_tasks no_task_change)
next
  case (SPush cfg)
  then show ?thesis by (simp add: or_same_tasks no_task_change)
next
  case (SPushBounded cfg m)
  then show ?thesis by (simp add: or_same_snd_tasks no_task_change)
next
  case (SIdemPut e)
  then show ?thesis by (simp add: or_same_tasks no_task_change)
next
  case (SDispatch row)
  then show ?thesis by (simp add: or_same_snd_tasks no_task_change)
next
  case (SObserve cid e nxt)
  then show ?thesis by (simp add: or_same_snd_tasks no_task_change)
qed (use assms in \<open>auto simp: delete_push_config_def idempotency_purge_expired_def
    idempotency_evict_oldest_def Let_def\<close>)

lemma upsert_task_error: "\<not> serializable cd row \<Longrightarrow> \<exists>e. upsert_task cd s row = Inl e"
  by (cases "json_text cd (tr_status_json row)"; cases "json_opt_text cd (tr_metadata_json row)")
    (auto simp: serializable_def upsert_task_def Let_def)

lemma upsert_task_success: "serializable cd row \<Longrightarrow> \<exists>s'. upsert_task cd s row = Inr s'"
  by (auto simp: serializable_def upsert_task_def Let_def)

lemma store_step_refines:
  assumes "codec_ok (se_codec env)" and "store_ok s" and "rows_ok (se_codec env) s" and "op_valid op"
  shows "rows_ok (se_codec env) (store_step env s op) \<and>
    task_view (se_codec env) (store_step env s op) = spec_step (se_codec env) (task_view (se_codec env) s) op"
proof -
  let ?cd = "se_codec env"
  consider (upsert) row where "op = SUpsert row" | (delete) k where "op = SDelete k"
    | (purge) now d where "op = SPurge now d"
    | (other) "\<And>row. op \<noteq> SUpsert row" "\<And>k. op \<noteq> SDelete k" "\<And>t d. op \<noteq> SPurge t d"
    by blast
  then show ?thesis
  proof cases
    case upsert
    then have v: "times_valid row" using assms(4) by simp
    show ?thesis
    proof (cases "serializable ?cd row")
      case True
      then obtain s' where s': "upsert_task ?cd s row = Inr s'" using upsert_task_success by blast
      show ?thesis
        using True upsert_task_refines [OF assms(1,3) v s' assms(2)] s' by (simp add: upsert or_same_def)
    next
      case False
      then obtain e where "upsert_task ?cd s row = Inl e" using upsert_task_error by blast
      with False assms(3) show ?thesis by (simp add: upsert or_same_def)
    qed
  next
    case delete
    then show ?thesis using delete_task_refines [OF assms(3)] by simp
  next
    case purge
    then show ?thesis using purge_expired_refines [OF assms(1,3,2)] assms(4) by simp
  next
    case other
    then have "spec_step ?cd m op = m" for m by (cases op; (blast | simp))
    with task_view_cong [OF store_step_tasks [OF other]] assms(3) show ?thesis by simp
  qed
qed

lemma store_run_refines:
  assumes "codec_ok (se_codec env)" and "store_ok s" and "rows_ok (se_codec env) s" and "list_all op_valid ops"
  shows "rows_ok (se_codec env) (run (store_step env) s ops) \<and>
    task_view (se_codec env) (run (store_step env) s ops)
      = run (spec_step (se_codec env)) (task_view (se_codec env) s) ops"
  using assms(2-4)
proof (induction ops arbitrary: s)
  case (Cons op ops)
  have st: "rows_ok (se_codec env) (store_step env s op)"
    "task_view (se_codec env) (store_step env s op) = spec_step (se_codec env) (task_view (se_codec env) s) op"
    using store_step_refines [OF assms(1) Cons.prems(1,2)] Cons.prems(3) by simp_all
  with Cons.IH [OF store_step_ok [OF Cons.prems(1)] st(1)] Cons.prems(3) show ?case by simp
qed simp

text \<open>On the abstract map: what later operations keep of a task that is not removed.\<close>

fun may_remove :: "string \<Rightarrow> store_op \<Rightarrow> bool" where
  "may_remove k (SDelete k') = (k' = k)"
| "may_remove k (SPurge now d) = True"
| "may_remove k _ = False"

lemma spec_step_keeps:
  assumes "m k = Some r" and "\<not> may_remove k op"
  shows "\<exists>r'. spec_step cd m op k = Some r' \<and> tr_created_at r' = tr_created_at r \<and>
     (tr_instance_id r \<noteq> None \<longrightarrow> tr_instance_id r' = tr_instance_id r) \<and>
     (tr_terminal_at r \<noteq> None \<longrightarrow> tr_terminal_at r' = tr_terminal_at r)"
  using assms by (cases op) (auto simp: merge_task_def Let_def split: option.splits)

lemma spec_run_keeps:
  assumes "m k = Some r" and "list_all (\<lambda>op. \<not> may_remove k op) ops"
  shows "\<exists>r'. run (spec_step cd) m ops k = Some r' \<and> tr_created_at r' = tr_created_at r \<and>
     (tr_instance_id r \<noteq> None \<longrightarrow> tr_instance_id r' = tr_instance_id r) \<and>
     (tr_terminal_at r \<noteq> None \<longrightarrow> tr_terminal_at r' = tr_terminal_at r)"
  using assms
proof (induction ops arbitrary: m r)
  case (Cons op ops)
  obtain r\<^sub>1 where r: "spec_step cd m op k = Some r\<^sub>1" "tr_created_at r\<^sub>1 = tr_created_at r"
    "tr_instance_id r \<noteq> None \<longrightarrow> tr_instance_id r\<^sub>1 = tr_instance_id r"
    "tr_terminal_at r \<noteq> None \<longrightarrow> tr_terminal_at r\<^sub>1 = tr_terminal_at r"
    using spec_step_keeps [of m k r op cd] Cons.prems by auto
  obtain r\<^sub>2 where "run (spec_step cd) (spec_step cd m op) ops k = Some r\<^sub>2" "tr_created_at r\<^sub>2 = tr_created_at r\<^sub>1"
    "tr_instance_id r\<^sub>1 \<noteq> None \<longrightarrow> tr_instance_id r\<^sub>2 = tr_instance_id r\<^sub>1"
    "tr_terminal_at r\<^sub>1 \<noteq> None \<longrightarrow> tr_terminal_at r\<^sub>2 = tr_terminal_at r\<^sub>1"
    using Cons.IH [of "spec_step cd m op" r\<^sub>1] r(1) Cons.prems(2) by auto
  with r show ?case by auto
qed auto

subsection \<open>Fleet admission and compare-and-swap\<close>

definition dispatched :: "store_env \<Rightarrow> TaskStore \<Rightarrow> store_op \<Rightarrow> string option" where
  "dispatched env s op =
     (case op of SDispatch row \<Rightarrow>
        (case fleet_dispatch (se_pick env) (se_codec env) s row of
           Inr (Inserted _, _) \<Rightarrow> Some (fw_idempotency_key row) | _ \<Rightarrow> None)
      | _ \<Rightarrow> None)"

definition observed :: "store_env \<Rightarrow> TaskStore \<Rightarrow> store_op \<Rightarrow> (string \<times> u64) option" where
  "observed env s op =
     (case op of SObserve cid e next \<Rightarrow>
        (case observe_fleet_workload (se_codec env) s cid e next of
           Inr (FleetObservationOutcome.Updated _, _) \<Rightarrow> Some (cid, e) | _ \<Rightarrow> None)
      | _ \<Rightarrow> None)"

definition revision_at :: "TaskStore \<Rightarrow> string \<Rightarrow> u64 option" where
  "revision_at s cid = map_option (\<lambda>r. word_of_int (w_revision r)) (tbl_get w_child_id cid (fleet_workloads s))"

text \<open>Only dispatch and observation touch the fleet table.\<close>

lemma or_same_fleet:
  assumes "\<And>s'. r = Inr s' \<Longrightarrow> fleet_workloads s' = fleet_workloads s"
  shows "fleet_workloads (or_same s r) = fleet_workloads s"
proof (cases r)
  case (Inr s')
  then show ?thesis using assms [OF Inr] by (simp add: or_same_def)
qed (simp add: or_same_def)

lemma no_fleet_change:
  "upsert_task cd s row = Inr s' \<Longrightarrow> fleet_workloads s' = fleet_workloads s"
  "append_artifact cd now s tid aid j = Inr s' \<Longrightarrow> fleet_workloads s' = fleet_workloads s"
  "put_push_config cd s cfg = Inr s' \<Longrightarrow> fleet_workloads s' = fleet_workloads s"
  "idempotency_put cd s e = Inr s' \<Longrightarrow> fleet_workloads s' = fleet_workloads s"
  by (auto simp: upsert_task_def append_artifact_def put_push_config_def
      idempotency_put_def and_then_Inr Let_def split: if_splits)

lemma bounded_no_fleet_change:
  "put_push_config_bounded cd s cfg m = Inr (d, s') \<Longrightarrow> fleet_workloads s' = fleet_workloads s"
  by (auto simp: put_push_config_bounded_def and_then_Inr split: if_splits option.splits)

lemma store_step_fleet:
  assumes "\<And>row. op \<noteq> SDispatch row" and "\<And>cid e n. op \<noteq> SObserve cid e n"
  shows "fleet_workloads (store_step env s op) = fleet_workloads s"
proof (cases op)
  case (SUpsert row)
  then show ?thesis by (simp add: or_same_fleet no_fleet_change)
next
  case (SArtifact now tid aid j)
  then show ?thesis by (simp add: or_same_fleet no_fleet_change)
next
  case (SPush cfg)
  then show ?thesis by (simp add: or_same_fleet no_fleet_change)
next
  case (SIdemPut e)
  then show ?thesis by (simp add: or_same_fleet no_fleet_change)
next
  case (SPushBounded cfg m)
  show ?thesis
  proof (cases "put_push_config_bounded (se_codec env) s cfg m")
    case (Inr x)
    then show ?thesis
      using SPushBounded bounded_no_fleet_change [of "se_codec env" s cfg m "fst x" "snd x"]
      by (simp add: or_same_def)
  qed (simp add: SPushBounded or_same_def)
qed (use assms in \<open>auto simp: delete_task_def delete_push_config_def purge_expired_def
    idempotency_purge_expired_def idempotency_evict_oldest_def Let_def\<close>)

definition fleet_follows :: "TaskStore \<Rightarrow> TaskStore \<Rightarrow> bool" where
  "fleet_follows s s' \<longleftrightarrow>
     w_idempotency_key ` set (fleet_workloads s) \<subseteq> w_idempotency_key ` set (fleet_workloads s') \<and>
     (\<forall>cid n. revision_at s cid = Some n \<longrightarrow> (\<exists>n'. revision_at s' cid = Some n' \<and> n \<le> n'))"

lemma fleet_follows_same: "fleet_workloads s' = fleet_workloads s \<Longrightarrow> fleet_follows s s'"
  by (auto simp: fleet_follows_def revision_at_def)

lemma fleet_follows_dispatch:
  assumes "fleet_dispatch pick cd s row = Inr (d, s')"
  shows "fleet_follows s s'"
  using assms
proof (cases rule: fleet_dispatch_Inr)
  case (fresh r)
  then show ?thesis by (auto simp: fleet_follows_def revision_at_def table_simps)
qed (simp add: fleet_follows_same)

lemma fleet_follows_observe:
  assumes "observe_fleet_workload cd s cid e next = Inr (d, s')" and "store_ok s"
  shows "fleet_follows s s'"
  using assms
proof (cases rule: observe_fleet_Inr)
  case (updated r j)
  then show ?thesis
    by (auto simp: fleet_follows_def revision_at_def table_simps image_key_tbl_update)
qed (simp_all add: fleet_follows_same)

lemma store_step_fleet_follows:
  assumes "store_ok s"
  shows "fleet_follows s (store_step env s op)"
proof -
  consider (d) row where "op = SDispatch row" | (o) cid e n where "op = SObserve cid e n"
    | (other) "\<And>row. op \<noteq> SDispatch row" "\<And>cid e n. op \<noteq> SObserve cid e n"
    by blast
  then show ?thesis
  proof cases
    case d
    then show ?thesis
      using fleet_follows_dispatch [of "se_pick env" "se_codec env" s row]
      by (cases "fleet_dispatch (se_pick env) (se_codec env) s row")
        (auto simp: or_same_def fleet_follows_same)
  next
    case o
    then show ?thesis
      using fleet_follows_observe [of "se_codec env" s cid e n] assms
      by (cases "observe_fleet_workload (se_codec env) s cid e n")
        (auto simp: or_same_def fleet_follows_same)
  next
    case other
    then show ?thesis by (intro fleet_follows_same store_step_fleet)
  qed
qed

interpretation fleet_admission:
  at_most_once "store_step env" store_ok "dispatched env" "\<lambda>s k. k \<in> w_idempotency_key ` set (fleet_workloads s)" for env
proof unfold_locales
  fix s op k
  assume "dispatched env s op = Some k"
  then obtain row r s' where op: "op = SDispatch row" "k = fw_idempotency_key row"
    "fleet_dispatch (se_pick env) (se_codec env) s row = Inr (Inserted r, s')"
    by (auto simp: dispatched_def split: store_op.splits sum.splits FleetDispatchOutcome.splits)
  from op(3) have "k \<notin> w_idempotency_key ` set (fleet_workloads s) \<and>
    k \<in> w_idempotency_key ` set (fleet_workloads (store_step env s op))"
  proof (cases rule: fleet_dispatch_Inr)
    case (fresh r)
    then show ?thesis by (simp add: op or_same_def)
  qed blast
  then show "k \<notin> w_idempotency_key ` set (fleet_workloads s)"
    and "k \<in> w_idempotency_key ` set (fleet_workloads (store_step env s op))"
    by simp_all
next
  fix s k op
  assume "store_ok s" and "k \<in> w_idempotency_key ` set (fleet_workloads s)"
  then show "k \<in> w_idempotency_key ` set (fleet_workloads (store_step env s op))"
    using store_step_fleet_follows [of s env op] by (auto simp: fleet_follows_def)
qed

interpretation fleet_cas:
  at_most_once "store_step env" store_ok "observed env"
    "\<lambda>s (cid, e). \<exists>n. revision_at s cid = Some n \<and> e < n" for env
proof unfold_locales
  fix s op k
  assume ok: "store_ok s" and "observed env s op = Some k"
  then obtain cid e nxt r s' where op: "op = SObserve cid e nxt" "k = (cid, e)"
    "observe_fleet_workload (se_codec env) s cid e nxt = Inr (FleetObservationOutcome.Updated r, s')"
    by (auto simp: observed_def split: store_op.splits sum.splits FleetObservationOutcome.splits)
  from op(3) ok have "\<not> (case k of (cid, e) \<Rightarrow> \<exists>n. revision_at s cid = Some n \<and> e < n) \<and>
    (case k of (cid, e) \<Rightarrow> \<exists>n. revision_at (store_step env s op) cid = Some n \<and> e < n)"
  proof (cases rule: observe_fleet_Inr)
    case (updated r j)
    then show ?thesis by (simp add: op or_same_def revision_at_def table_simps)
  qed simp_all
  then show "\<not> (case k of (cid, e) \<Rightarrow> \<exists>n. revision_at s cid = Some n \<and> e < n)"
    and "case k of (cid, e) \<Rightarrow> \<exists>n. revision_at (store_step env s op) cid = Some n \<and> e < n"
    by simp_all
next
  fix s k op
  assume "store_ok s" and "case k of (cid, e) \<Rightarrow> \<exists>n. revision_at s cid = Some n \<and> e < n"
  then show "case k of (cid, e) \<Rightarrow> \<exists>n. revision_at (store_step env s op) cid = Some n \<and> e < n"
    using store_step_fleet_follows [of s env op] by (fastforce simp: fleet_follows_def)
qed

subsection \<open>Listing and push limits\<close>

text \<open>What \<open>ORDER BY created_at DESC\<close> guarantees.\<close>

definition newest_first :: "(task_cols list \<Rightarrow> task_cols list) \<Rightarrow> bool" where
  "newest_first ord \<longleftrightarrow> (\<forall>rows. mset (ord rows) = mset rows \<and>
     sorted_wrt (\<lambda>a b. t_created_at b \<le> t_created_at a) (ord rows))"

definition filter_matches :: "ListFilter \<Rightarrow> TaskRow \<Rightarrow> bool" where
  "filter_matches f r \<longleftrightarrow>
     (case flt_state f of None \<Rightarrow> True | Some st \<Rightarrow> tr_state r = st) \<and>
     (flt_include_terminal f \<or> tr_terminal_at r = None) \<and>
     (case flt_instance_id f of None \<Rightarrow> True | Some i \<Rightarrow> tr_instance_id r = Some i)"

lemma state_as_str_inject [simp]: "state_as_str a = state_as_str b \<longleftrightarrow> a = b"
  by (metis Inr_inject state_from_as_str)

lemma list_where_matches:
  assumes "row_to_task cd r = Inr row"
  shows "list_where f r = filter_matches f row"
  using row_to_task_sel [OF assms]
  by (auto simp: list_where_def filter_matches_def split: option.splits)

lemma fmt_ts_le:
  assumes "codec_ok cd" "ts_valid t" "ts_valid u"
  shows "fmt_ts cd t \<le> fmt_ts cd u \<longleftrightarrow> t \<le> u"
  using fmt_ts_less [OF assms(1,3,2)] by (simp add: linorder_not_less [symmetric] del: linorder_not_less)

lemma sorted_wrt_map_weaken:
  assumes "sorted_wrt P xs" and "\<And>x y. x \<in> set xs \<Longrightarrow> y \<in> set xs \<Longrightarrow> P x y \<Longrightarrow> Q (g x) (g y)"
  shows "sorted_wrt Q (map g xs)"
  using assms by (induction xs) auto

lemma list_tasks_rows:
  assumes "codec_ok cd" and "store_ok s" and "rows_ok cd s" and "newest_first ord"
    and "list_tasks ord cd s f = Inr out"
  shows "\<exists>rows rest. mset (rows @ rest) = mset (filter (list_where f) (tasks s)) \<and>
     out = map (\<lambda>r. projr (row_to_task cd r)) rows \<and>
     sorted_wrt (\<lambda>a b. t_created_at b \<le> t_created_at a) (rows @ rest) \<and>
     (case flt_limit f of None \<Rightarrow> rest = [] | Some n \<Rightarrow> length rows = min (unat n) (length (rows @ rest)))"
proof -
  let ?all = "ord (filter (list_where f) (tasks s))"
  have ms: "mset ?all = mset (filter (list_where f) (tasks s))"
    and srt: "sorted_wrt (\<lambda>a b. t_created_at b \<le> t_created_at a) ?all"
    using assms(4) by (auto simp: newest_first_def)
  have dec: "row_to_task cd r = Inr (projr (row_to_task cd r))" if "r \<in> set ?all" for r
  proof -
    have "r \<in> set (tasks s)"
      using that ms mset_eq_setD by fastforce
    then show ?thesis using assms(3) by (auto simp: rows_ok_def task_cols_ok_def)
  qed
  show ?thesis
  proof (cases "flt_limit f")
    case None
    then have "out = map (\<lambda>r. projr (row_to_task cd r)) ?all"
      using assms(5) collect_all_ok [of ?all "row_to_task cd"] dec by (simp add: list_tasks_def)
    with None ms srt show ?thesis by (intro exI [of _ ?all] exI [of _ "[]"]) simp
  next
    case (Some n)
    have "collect (row_to_task cd) (take (unat n) ?all)
        = Inr (map (\<lambda>r. projr (row_to_task cd r)) (take (unat n) ?all))"
      by (rule collect_all_ok) (use dec in \<open>blast dest: in_set_takeD\<close>)
    then have "out = map (\<lambda>r. projr (row_to_task cd r)) (take (unat n) ?all)"
      using assms(5) Some by (auto simp: list_tasks_def split: if_splits)
    with Some ms srt show ?thesis
      by (intro exI [of _ "take (unat n) ?all"] exI [of _ "drop (unat n) ?all"]) (simp add: min.commute)
  qed
qed

definition push_count :: "TaskStore \<Rightarrow> string \<Rightarrow> nat" where
  "push_count s tid = sql_changes (\<lambda>p. p_task_id p = tid) (push_notification_configs s)"

lemma sql_changes_append [simp]: "sql_changes p (xs @ ys) = sql_changes p xs + sql_changes p ys"
  by (simp add: sql_changes_def)

lemma sql_changes_sql_update:
  assumes "\<And>r. p (f r) = p r"
  shows "sql_changes p (sql_update q f t) = sql_changes p t"
  using assms by (induction t) (auto simp: sql_changes_def sql_update_def)

lemma sql_changes_delete_le: "sql_changes p (tbl_delete q t) \<le> sql_changes p t"
  by (induction t) (auto simp: sql_changes_def tbl_delete_def)

lemma put_push_config_bounded_count:
  assumes "put_push_config_bounded cd s cfg m = Inr (d, s')"
  shows "push_count s' tid = push_count s tid + (if d = Created \<and> tid = pc_task_id cfg then 1 else 0)"
    and "d = Created \<Longrightarrow> int (push_count s' (pc_task_id cfg)) \<le> sint m"
    and "d \<in> {Conflict, LimitReached} \<Longrightarrow> s' = s"
  using assms
  by (auto simp: put_push_config_bounded_def and_then_Inr push_count_def push_row_def
      sql_changes_sql_update split: option.splits if_splits)
    (auto simp: sql_changes_def)

subsection \<open>Properties of the store\<close>

declare upsert_task_def [eval_simps] terminal_text_def [eval_simps] insert_task_cols_def [eval_simps]
  update_task_cols_def [eval_simps] get_task_def [eval_simps] get_task_for_instance_def [eval_simps]
  row_to_task_def [eval_simps] fmt_ts_def [eval_simps] parse_ts_def [eval_simps]
  parse_opt_ts_def [eval_simps] json_text_def [eval_simps] json_opt_text_def [eval_simps]
  parse_json_def [eval_simps] parse_opt_json_def [eval_simps] state_from_str_def [eval_simps]
  fail_from_str_def [eval_simps] list_tasks_def [eval_simps] list_where_def [eval_simps]
  delete_task_def [eval_simps] purge_expired_def [eval_simps] expired_def [eval_simps]
  put_push_config_bounded_def [eval_simps] push_row_def [eval_simps] fleet_dispatch_def [eval_simps]
  observe_fleet_workload_def [eval_simps] row_to_fleet_def [eval_simps] or_same_def [eval_simps]
  empty_store_def [eval_simps] append_artifact_def [eval_simps]

text \<open>
  A concrete codec that meets \<open>codec_ok\<close>: strings are their own JSON text, and an instant is
  written in unary so that the texts are ordered like the instants.
\<close>

definition unary_ts :: "timestamp \<Rightarrow> string" where
  "unary_ts t = (if t < 0 then replicate (nat (- t)) (CHR ''a'') @ ''b''
                 else CHR ''b'' # replicate (nat t) (CHR ''c''))"

definition parse_unary_ts :: "string \<Rightarrow> timestamp option" where
  "parse_unary_ts s = (if hd s = CHR ''b'' then Some (int (length s) - 1) else Some (1 - int (length s)))"

definition demo_store_codec :: store_codec where
  "demo_store_codec = \<lparr>sc_json = \<lparr>json_to_string = (\<lambda>v. case v of JStr s \<Rightarrow> Some s | _ \<Rightarrow> None),
     json_from_str = (\<lambda>s. Some (JStr s))\<rparr>,
     sc_fmt_ts = unary_ts, sc_parse_ts = parse_unary_ts, sc_rfc3339 = unary_ts\<rparr>"

lemma replicate_less: "replicate m x < replicate n (x :: char) \<longleftrightarrow> m < n"
proof (induction m arbitrary: n)
  case 0
  then show ?case by (cases n) simp_all
next
  case (Suc m)
  then show ?case by (cases n) simp_all
qed

lemma replicate_b_less:
  "replicate m (CHR ''a'') @ ''b'' < replicate n (CHR ''a'') @ ''b'' \<longleftrightarrow> n < m"
proof (induction m arbitrary: n)
  case 0
  then show ?case by (cases n) (simp_all add: less_char_def)
next
  case (Suc m)
  then show ?case by (cases n) (simp_all add: less_char_def)
qed

lemma unary_ts_less: "unary_ts t < unary_ts u \<longleftrightarrow> t < u"
proof -
  have "replicate (nat (- t)) (CHR ''a'') @ ''b'' < CHR ''b'' # replicate n (CHR ''c'')" if "t < 0" for t n
    using that by (cases "nat (- t)") (simp_all add: less_char_def)
  moreover have "\<not> CHR ''b'' # replicate n (CHR ''c'') < replicate (nat (- t)) (CHR ''a'') @ ''b''" if "t < 0" for t n
    using that by (cases "nat (- t)") (simp_all add: less_char_def)
  ultimately show ?thesis by (auto simp: unary_ts_def replicate_less replicate_b_less)
qed

lemma parse_unary_ts: "parse_unary_ts (unary_ts t) = Some t"
  by (cases "nat (- t)") (auto simp: parse_unary_ts_def unary_ts_def)

lemma demo_codec_ok: "codec_ok demo_store_codec"
  by (auto simp: codec_ok_def demo_store_codec_def json_roundtrip_def unary_ts_less parse_unary_ts
      split: json.splits)

definition demo_store_env :: store_env where
  "demo_store_env = \<lparr>se_codec = demo_store_codec, se_oldest = (\<lambda>xs. xs), se_pick = hd\<rparr>"

definition demo_task :: "string \<Rightarrow> TaskState \<Rightarrow> timestamp \<Rightarrow> TaskRow" where
  "demo_task tid st t = \<lparr>tr_task_id = tid, tr_context_id = None, tr_instance_id = Some ''i1'', tr_state = st,
     tr_fail_kind = None, tr_status_json = JStr ''x'', tr_metadata_json = None, tr_created_at = t,
     tr_updated_at = t, tr_terminal_at = None\<rparr>"

definition demo_fleet :: "u64 \<Rightarrow> FleetWorkloadRow" where
  "demo_fleet n = \<lparr>fw_child_id = ''c'', fw_idempotency_key = ''k'', fw_request_hash = ''h'', fw_target_id = ''t'',
     fw_executor_id = ''e'', fw_workload_kind = ''w'', fw_observed_state = ''o'', fw_revision = n,
     fw_last_seen = 1, fw_record_json = JStr ''j'', fw_created_at = 1, fw_updated_at = 1\<rparr>"

definition demo_store_ops :: "store_op list" where
  "demo_store_ops = [SUpsert (demo_task ''a'' Working 1), SUpsert (demo_task ''a'' Completed 2),
     SUpsert (demo_task ''b'' Submitted 3)]"

lemmas store_demo = demo_store_env_def demo_store_codec_def demo_task_def demo_fleet_def demo_store_ops_def
  unary_ts_def parse_unary_ts_def eval_simps

lemma demo_env_codec_ok: "codec_ok (se_codec demo_store_env)"
  by (simp add: demo_store_env_def demo_codec_ok)

lemma demo_store_ops_valid: "list_all op_valid demo_store_ops"
  by (simp add: demo_store_ops_def demo_task_def times_valid_def ts_valid_def)

text \<open>
  C8. After any sequence of store operations on an empty database the keys are unique (including
  the idempotency key of fleet workloads) and every artifact and push config belongs to a stored
  task: deleting or purging tasks leaves no orphans.
\<close>

theorem store_keys_and_references:
  "store_ok (run (store_step env) empty_store ops)"
  by (rule store_ops.inv_run [OF empty_store_ok])

text \<open>
  C9. The text-encoded tasks table implements a map from identifiers to tasks: after any sequence
  of operations whose timestamps lie in the years 0 to 9999, \<open>get_task\<close> succeeds on every
  identifier and returns exactly what the abstract operations (merge on upsert, delete, drop what
  terminated before the cutoff) would have stored.
\<close>

theorem store_refines_task_map:
  assumes "codec_ok (se_codec env)" and "list_all op_valid ops"
  shows "get_task (se_codec env) (run (store_step env) empty_store ops) k
    = Inr (run (spec_step (se_codec env)) Map.empty ops k)"
proof -
  have "rows_ok (se_codec env) empty_store" by (simp add: rows_ok_def empty_store_def)
  note r = store_run_refines [OF assms(1) empty_store_ok this assms(2)]
  have "task_view (se_codec env) empty_store = Map.empty"
    by (rule ext) (simp add: task_view_def get_task_def empty_store_def)
  with r get_task_view [of "se_codec env" "run (store_step env) empty_store ops" k] show ?thesis by simp
qed

theorem store_refines_task_map_witness:
  "get_task demo_store_codec (run (store_step demo_store_env) empty_store demo_store_ops) ''a''
     = Inr (run (spec_step demo_store_codec) Map.empty demo_store_ops ''a'')"
  using store_refines_task_map [OF demo_env_codec_ok demo_store_ops_valid, of "''a''"]
  by (simp add: demo_store_env_def)

text \<open>
  C21. A task keeps its identity: as long as nothing deletes or purges it, no later operation changes
  its creation time, its owning instance once set, or its terminal time once set.
\<close>

theorem store_task_identity_kept:
  assumes "codec_ok (se_codec env)" and "list_all op_valid ops" and "list_all op_valid later"
    and "get_task (se_codec env) (run (store_step env) empty_store ops) k = Inr (Some r)"
    and "list_all (\<lambda>op. \<not> may_remove k op) later"
  shows "\<exists>r'. get_task (se_codec env) (run (store_step env) empty_store (ops @ later)) k = Inr (Some r') \<and>
     tr_created_at r' = tr_created_at r \<and>
     (tr_instance_id r \<noteq> None \<longrightarrow> tr_instance_id r' = tr_instance_id r) \<and>
     (tr_terminal_at r \<noteq> None \<longrightarrow> tr_terminal_at r' = tr_terminal_at r)"
proof -
  let ?cd = "se_codec env" and ?s = "run (store_step env) empty_store ops"
  have "rows_ok ?cd empty_store" by (simp add: rows_ok_def empty_store_def)
  note r1 = store_run_refines [OF assms(1) empty_store_ok this assms(2)]
  have ok: "store_ok ?s" by (rule store_ops.inv_run [OF empty_store_ok])
  note r2 = store_run_refines [OF assms(1) ok conjunct1 [OF r1] assms(3)]
  have "task_view ?cd ?s k = Some r"
    using get_task_view [OF conjunct1 [OF r1], of k] assms(4) by simp
  from spec_run_keeps [where m = "task_view ?cd ?s" and cd = ?cd, OF this assms(5)] r2 get_task_view [OF conjunct1 [OF r2], of k]
  show ?thesis by simp
qed

theorem store_task_identity_kept_witness:
  "\<exists>r'. get_task demo_store_codec (run (store_step demo_store_env) empty_store
      (demo_store_ops @ [SUpsert ((demo_task ''a'' Working 9)\<lparr>tr_instance_id := Some ''i2''\<rparr>)])) ''a'' = Inr (Some r') \<and>
     tr_created_at r' = 1 \<and> tr_instance_id r' = Some ''i1'' \<and> tr_terminal_at r' = Some 2"
proof -
  let ?l = "[SUpsert ((demo_task ''a'' Working 9)\<lparr>tr_instance_id := Some ''i2''\<rparr>)]"
  obtain r where r: "get_task (se_codec demo_store_env) (run (store_step demo_store_env) empty_store demo_store_ops) ''a''
      = Inr (Some r)" "tr_created_at r = 1" "tr_instance_id r = Some ''i1''" "tr_terminal_at r = Some 2"
    by (simp add: store_demo)
  have "list_all op_valid ?l" "list_all (\<lambda>op. \<not> may_remove ''a'' op) ?l"
    by (simp_all add: demo_task_def times_valid_def ts_valid_def)
  from store_task_identity_kept [OF demo_env_codec_ok demo_store_ops_valid this(1) r(1) this(2)] r(2-4)
  show ?thesis by (simp add: demo_store_env_def)
qed

lemma get_task_for_instance_view:
  assumes "rows_ok cd s" and "key_unique t_task_id (tasks s)"
  shows "get_task_for_instance cd s inst k =
    Inr (case task_view cd s k of Some r \<Rightarrow> if tr_instance_id r = Some inst then Some r else None | None \<Rightarrow> None)"
proof (cases "tbl_get t_task_id k (tasks s)")
  case None
  then have "List.find (\<lambda>r. t_task_id r = k \<and> t_instance_id r = Some inst) (tasks s) = None"
    by (auto simp: tbl_get_None find_None_iff')
  with None show ?thesis by (simp add: get_task_for_instance_def task_view_def get_task_def)
next
  case (Some r)
  then have "task_cols_ok cd r" using assms(1) by (auto simp: rows_ok_def dest: tbl_get_SomeD)
  then obtain row where row: "row_to_task cd r = Inr row" by (auto simp: task_cols_ok_def)
  have "List.find (\<lambda>r. t_task_id r = k \<and> t_instance_id r = Some inst) (tasks s)
      = (if t_instance_id r = Some inst then Some r else None)"
    by (rule find_refined [OF assms(2) Some])
  with Some row row_to_task_sel [OF row] show ?thesis
    by (simp add: get_task_for_instance_def task_view_def get_task_def)
qed

text \<open>
  Tenant isolation: the instance-scoped lookup returns a task exactly when it exists and is owned
  by the requested instance, so a foreign task is answered like an unknown one.
\<close>

theorem store_instance_scoped_lookup:
  assumes "codec_ok (se_codec env)" and "list_all op_valid ops" and "s = run (store_step env) empty_store ops"
  shows "get_task_for_instance (se_codec env) s inst k =
    (case get_task (se_codec env) s k of
       Inr (Some r) \<Rightarrow> if tr_instance_id r = Some inst then Inr (Some r) else Inr None
     | _ \<Rightarrow> Inr None)"
proof -
  have "rows_ok (se_codec env) empty_store" by (simp add: rows_ok_def empty_store_def)
  then have ok: "rows_ok (se_codec env) s"
    using store_run_refines [OF assms(1) empty_store_ok _ assms(2)] assms(3) by simp
  have "key_unique t_task_id (tasks s)"
    using store_ops.inv_run [OF empty_store_ok, of env ops] by (simp add: assms(3) store_ok_def)
  then show ?thesis
    by (simp add: get_task_for_instance_view [OF ok] get_task_view [OF ok] split: option.splits)
qed

theorem store_instance_scoped_lookup_witness:
  "get_task_for_instance demo_store_codec (run (store_step demo_store_env) empty_store demo_store_ops) ''i2'' ''a''
     = Inr None"
proof -
  obtain r where "get_task demo_store_codec (run (store_step demo_store_env) empty_store demo_store_ops) ''a''
      = Inr (Some r)" "tr_instance_id r = Some ''i1''"
    by (simp add: store_demo)
  with store_instance_scoped_lookup [OF demo_env_codec_ok demo_store_ops_valid refl, of "''i2''" "''a''"]
  show ?thesis by (simp add: demo_store_env_def)
qed

lemma view_of_row:
  assumes "rows_ok cd s" and "key_unique t_task_id (tasks s)" and "r \<in> set (tasks s)"
  shows "row_to_task cd r = Inr (projr (row_to_task cd r))"
    and "task_view cd s (t_task_id r) = Some (projr (row_to_task cd r))"
    and "ts_valid (tr_created_at (projr (row_to_task cd r)))"
    and "t_created_at r = fmt_ts cd (tr_created_at (projr (row_to_task cd r)))"
  using assms(1,3) tbl_get_SomeI [OF assms(2,3)]
  by (auto simp: rows_ok_def task_cols_ok_def times_valid_def task_view_rows [OF assms(1)])

lemma listing_exact:
  assumes "codec_ok cd" and "store_ok s" and "rows_ok cd s"
    and "newest_first ord" and "list_tasks ord cd s f = Inr out"
  shows "sorted_wrt (\<lambda>a b. tr_created_at b \<le> tr_created_at a) out \<and>
    (\<forall>r \<in> set out. get_task cd s (tr_task_id r) = Inr (Some r) \<and> filter_matches f r) \<and>
    (\<forall>k r. get_task cd s k = Inr (Some r) \<and> filter_matches f r \<and> r \<notin> set out \<longrightarrow>
      (\<exists>n. flt_limit f = Some n \<and> length out = unat n \<and> (\<forall>x \<in> set out. tr_created_at r \<le> tr_created_at x)))"
proof -
  let ?cd = cd and ?dec = "\<lambda>r. projr (row_to_task cd r)"
  note sok = assms(2) and ok = assms(3)
  from sok have u: "key_unique t_task_id (tasks s)" by (simp add: store_ok_def)
  note v = view_of_row [OF ok u]
  obtain rows rest where r: "mset (rows @ rest) = mset (filter (list_where f) (tasks s))"
    "out = map ?dec rows" "sorted_wrt (\<lambda>a b. t_created_at b \<le> t_created_at a) (rows @ rest)"
    "case flt_limit f of None \<Rightarrow> rest = [] | Some n \<Rightarrow> length rows = min (unat n) (length (rows @ rest))"
    using list_tasks_rows [OF assms(1) sok ok assms(4,5)] by blast
  have mem: "x \<in> set rows \<union> set rest \<longleftrightarrow> x \<in> set (tasks s) \<and> list_where f x" for x
    using mset_eq_setD [OF r(1)] by auto
  have le: "tr_created_at (?dec b) \<le> tr_created_at (?dec a)"
    if "a \<in> set rows \<union> set rest" "b \<in> set rows \<union> set rest" "t_created_at b \<le> t_created_at a" for a b
    using that(3) fmt_ts_le [OF assms(1) v(3) v(3), of b a] v(4) [of a] v(4) [of b] mem that(1,2) by simp
  have 1: "sorted_wrt (\<lambda>a b. tr_created_at b \<le> tr_created_at a) out"
    unfolding r(2) using r(3) le by (intro sorted_wrt_map_weaken [of "\<lambda>a b. t_created_at b \<le> t_created_at a"])
      (auto simp: sorted_wrt_append)
  have 2: "get_task ?cd s (tr_task_id x) = Inr (Some x) \<and> filter_matches f x" if "x \<in> set out" for x
  proof -
    from that obtain y where y: "y \<in> set rows" "x = ?dec y" by (auto simp: r(2))
    then have "y \<in> set (tasks s)" "list_where f y" using mem by blast+
    with v(1) [of y] v(2) [of y] row_to_task_sel [of ?cd y x] list_where_matches [of ?cd y x f] get_task_view [OF ok]
    show ?thesis by (simp add: y(2))
  qed
  have 3: "\<exists>n. flt_limit f = Some n \<and> length out = unat n \<and> (\<forall>z \<in> set out. tr_created_at x \<le> tr_created_at z)"
    if "get_task ?cd s k = Inr (Some x)" "filter_matches f x" "x \<notin> set out" for k x
  proof -
    note x = that
    obtain y where y: "y \<in> set (tasks s)" "x = ?dec y" "row_to_task ?cd y = Inr x"
      using x(1) by (cases "tbl_get t_task_id k (tasks s)")
        (auto simp: get_task_def transpose_opt_Inr dest: tbl_get_SomeD)
    have "list_where f y" using list_where_matches [OF y(3)] x(2) by simp
    moreover have "y \<notin> set rows" using x(3) by (auto simp: r(2) y(2))
    ultimately have rest: "y \<in> set rest" using mem [of y] y(1) by blast
    then have "rest \<noteq> []" by auto
    with r(4) obtain n where "flt_limit f = Some n" "length rows = unat n"
      by (cases "flt_limit f") (auto simp: min_def split: if_splits)
    moreover have "tr_created_at x \<le> tr_created_at (?dec a)" if "a \<in> set rows" for a
      unfolding y(2) using r(3) that rest by (intro le) (auto simp: sorted_wrt_append)
    ultimately show ?thesis by (auto simp: r(2))
  qed
  from 1 2 3 show ?thesis by blast
qed


definition demo_order :: "task_cols list \<Rightarrow> task_cols list" where
  "demo_order rows = rev (sort_key t_created_at rows)"

lemma demo_order_newest_first: "newest_first demo_order"
  unfolding newest_first_def demo_order_def
proof (intro allI conjI)
  fix rows :: "task_cols list"
  show "mset (rev (sort_key t_created_at rows)) = mset rows" by simp
  have "sorted (map t_created_at (sort_key t_created_at rows))" by simp
  then show "sorted_wrt (\<lambda>a b. t_created_at b \<le> t_created_at a) (rev (sort_key t_created_at rows))"
    by (simp add: sorted_wrt_rev sorted_map)
qed


subsection \<open>The push limit over a run\<close>

fun bounded_by :: "usize \<Rightarrow> store_op \<Rightarrow> bool" where
  "bounded_by m (SPush cfg) = False"
| "bounded_by m (SPushBounded cfg m') = (m' = m)"
| "bounded_by m _ = True"

lemma or_same_push:
  assumes "\<And>s'. r = Inr s' \<Longrightarrow> push_notification_configs s' = push_notification_configs s"
  shows "push_notification_configs (or_same s r) = push_notification_configs s"
proof (cases r)
  case (Inr s')
  then show ?thesis using assms [OF Inr] by (simp add: or_same_def)
qed (simp add: or_same_def)

lemma no_push_change:
  "upsert_task cd s row = Inr s' \<Longrightarrow> push_notification_configs s' = push_notification_configs s"
  "append_artifact cd now s tid aid j = Inr s' \<Longrightarrow> push_notification_configs s' = push_notification_configs s"
  "idempotency_put cd s e = Inr s' \<Longrightarrow> push_notification_configs s' = push_notification_configs s"
  by (auto simp: upsert_task_def append_artifact_def idempotency_put_def and_then_Inr Let_def split: if_splits)

lemma fleet_no_push_change:
  "fleet_dispatch pick cd s row = Inr (d, s') \<Longrightarrow> push_notification_configs s' = push_notification_configs s"
  "observe_fleet_workload cd s cid n nxt = Inr (d', s') \<Longrightarrow> push_notification_configs s' = push_notification_configs s"
  by (auto simp: fleet_dispatch_def observe_fleet_workload_def and_then_Inr Let_def split: option.splits if_splits)

lemma store_step_push_bound:
  assumes "bounded_by m op" and "int (push_count s tid) \<le> max 0 (sint m)"
  shows "int (push_count (store_step env s op) tid) \<le> max 0 (sint m)"
proof -
  have same: ?thesis if "push_notification_configs (store_step env s op) = push_notification_configs s"
    using that assms(2) by (simp add: push_count_def)
  have fewer: ?thesis if "\<exists>q. push_notification_configs (store_step env s op) = tbl_delete q (push_notification_configs s)"
  proof -
    from that obtain q where "push_notification_configs (store_step env s op) = tbl_delete q (push_notification_configs s)"
      by blast
    with assms(2) sql_changes_delete_le [of "\<lambda>p. p_task_id p = tid" q "push_notification_configs s"]
    show ?thesis by (simp add: push_count_def)
  qed
  show ?thesis
  proof (cases op)
    case (SPushBounded cfg m')
    show ?thesis
    proof (cases "put_push_config_bounded (se_codec env) s cfg m'")
      case (Inr x)
      obtain d s' where x: "x = (d, s')" by (cases x)
      from Inr put_push_config_bounded_count(1,2) [of "se_codec env" s cfg m' d s'] assms show ?thesis
        by (cases "d = Created \<and> tid = pc_task_id cfg") (auto simp: SPushBounded x or_same_def)
    qed (use assms(2) in \<open>simp add: SPushBounded or_same_def\<close>)
  next
    case (SUpsert row)
    then show ?thesis by (intro same) (simp add: or_same_push no_push_change)
  next
    case (SArtifact now t aid j)
    then show ?thesis by (intro same) (simp add: or_same_push no_push_change)
  next
    case (SIdemPut e)
    then show ?thesis by (intro same) (simp add: or_same_push no_push_change)
  next
    case (SDispatch row)
    then show ?thesis using fleet_no_push_change(1) [of "se_pick env" "se_codec env" s row]
      by (intro same) (cases "fleet_dispatch (se_pick env) (se_codec env) s row"; auto simp: or_same_def)
  next
    case (SObserve cid e nxt)
    then show ?thesis using fleet_no_push_change(2) [of "se_codec env" s cid e nxt]
      by (intro same) (cases "observe_fleet_workload (se_codec env) s cid e nxt"; auto simp: or_same_def)
  next
    case (SDelete k)
    then show ?thesis by (intro fewer) (auto simp: delete_task_def)
  next
    case (SDeletePush k)
    then show ?thesis by (intro fewer) (auto simp: delete_push_config_def)
  next
    case (SPurge now d)
    then show ?thesis by (intro fewer) (auto simp: purge_expired_def Let_def)
  qed (use assms same in \<open>auto simp: idempotency_purge_expired_def idempotency_evict_oldest_def Let_def\<close>)
qed

lemma push_bound_run:
  assumes "list_all (bounded_by m) ops" and "int (push_count s tid) \<le> max 0 (sint m)"
  shows "int (push_count (run (store_step env) s ops) tid) \<le> max 0 (sint m)"
  using assms by (induction ops arbitrary: s) (auto intro: store_step_push_bound)

text \<open>
  C23. The callback limit is enforced: if configs are only ever written through the bounded operation
  with one limit, no task ever has more callback configs than the limit, whatever else happens in
  the store.
\<close>

theorem store_push_configs_bounded:
  assumes "list_all (bounded_by m) ops"
  shows "int (push_count (run (store_step env) empty_store ops) tid) \<le> max 0 (sint m)"
  by (rule push_bound_run [OF assms]) (simp add: push_count_def empty_store_def sql_changes_def)

theorem store_push_configs_bounded_witness:
  "int (push_count (run (store_step demo_store_env) empty_store (demo_store_ops @
      [SPushBounded \<lparr>pc_config_id = ''p'', pc_task_id = ''a'', pc_url = ''u'', pc_auth_json = None, pc_created_at = 1\<rparr> 1,
       SPushBounded \<lparr>pc_config_id = ''q'', pc_task_id = ''a'', pc_url = ''u'', pc_auth_json = None, pc_created_at = 1\<rparr> 1])) ''a'')
     \<le> 1"
proof -
  have "list_all (bounded_by 1) (demo_store_ops @
      [SPushBounded \<lparr>pc_config_id = ''p'', pc_task_id = ''a'', pc_url = ''u'', pc_auth_json = None, pc_created_at = 1\<rparr> 1,
       SPushBounded \<lparr>pc_config_id = ''q'', pc_task_id = ''a'', pc_url = ''u'', pc_auth_json = None, pc_created_at = 1\<rparr> 1])"
    by (simp add: demo_store_ops_def)
  from store_push_configs_bounded [OF this, of demo_store_env "''a''"] show ?thesis by simp
qed

text \<open>
  C24. A workload is admitted at most once per idempotency key: over any sequence of store operations,
  the keys for which \<open>fleet_dispatch\<close> answered \<open>Inserted\<close> are pairwise different, whichever
  matching row \<open>LIMIT 1\<close> selects.
\<close>

theorem fleet_dispatch_at_most_once:
  "distinct (grants (store_step env) (dispatched env) empty_store ops)"
  by (rule fleet_admission.grants_distinct [OF empty_store_ok])

text \<open>
  Fleet observations are compare-and-swap: for each workload and each expected revision at most
  one observation is accepted, so two observers that read the same revision cannot both overwrite it.
\<close>

theorem fleet_observation_compare_and_swap:
  "distinct (grants (store_step env) (observed env) empty_store ops)"
  by (rule fleet_cas.grants_distinct [OF empty_store_ok])

end
