(* ===== verification/Idempotency.thy ===== *)
theory Idempotency
  imports Task_Store Extension_Context "HOL-Library.AList"
begin

section \<open>The idempotency cache and its extension (\<open>store/idempotency.rs\<close>, \<open>extensions/idempotency.rs\<close>)\<close>

text \<open>
  The cache stores the response of a request under its message id together with the digest of the
  request, for a time to live. JSON canonicalization (\<open>serde_jcs\<close>), the hexadecimal SHA-256 digest and
  the range of representable instants are parameters; the table is the one of the task store. The
  clock reading of an operation is its argument \<open>now\<close>.
\<close>

subsection \<open>Cache\<close>

record idem_env =
  idem_codec :: store_codec
  idem_jcs :: "json \<Rightarrow> string option"
  idem_sha256_hex :: "string \<Rightarrow> string"
  idem_representable :: "timestamp \<Rightarrow> bool"
  idem_oldest :: "idem_cols list \<Rightarrow> idem_cols list"

datatype idem_error = StoreError store_error | Canonicalization | DateOverflow

definition DEFAULT_TTL_SECONDS :: int where "DEFAULT_TTL_SECONDS = 86400"
definition DEFAULT_MAX_ENTRIES :: u64 where "DEFAULT_MAX_ENTRIES = 100000"

datatype IdempotencyOutcome = Fresh | Replay u16 json | Collision

record IdempotencyMetrics =
  hits :: u64
  misses :: u64
  collisions :: u64
  evictions :: u64
  purged_expired :: u64
  hits_by_op :: "(string \<times> u64) list"

definition default_metrics :: IdempotencyMetrics where
  "default_metrics = \<lparr>hits = 0, misses = 0, collisions = 0, evictions = 0, purged_expired = 0, hits_by_op = []\<rparr>"

definition record_hit_for_op :: "IdempotencyMetrics \<Rightarrow> string \<Rightarrow> IdempotencyMetrics" where
  "record_hit_for_op m operation =
     m\<lparr>hits_by_op := AList.update operation
         ((case map_of (hits_by_op m) operation of Some n \<Rightarrow> n | None \<Rightarrow> 0) + 1) (hits_by_op m)\<rparr>"

definition hits_by_op_snapshot :: "IdempotencyMetrics \<Rightarrow> (string \<times> u64) list" where
  "hits_by_op_snapshot m = sort_key fst (hits_by_op m)"

record IdempotencyCache =
  ca_store :: TaskStore
  ca_ttl :: int
  ca_max_entries :: u64
  ca_metrics :: IdempotencyMetrics

definition new_cache :: "TaskStore \<Rightarrow> IdempotencyCache" where
  "new_cache store = \<lparr>ca_store = store, ca_ttl = DEFAULT_TTL_SECONDS * 10 ^ 9,
     ca_max_entries = DEFAULT_MAX_ENTRIES, ca_metrics = default_metrics\<rparr>"

definition with_ttl :: "IdempotencyCache \<Rightarrow> int \<Rightarrow> IdempotencyCache" where
  "with_ttl c ttl = c\<lparr>ca_ttl := ttl\<rparr>"

definition with_max_entries :: "IdempotencyCache \<Rightarrow> u64 \<Rightarrow> IdempotencyCache" where
  "with_max_entries c n = c\<lparr>ca_max_entries := n\<rparr>"

text \<open>\<open>get_mut(key).and_then(as_object_mut)\<close> followed by a change of the object found.\<close>

definition update_object :: "string \<Rightarrow> ((string \<times> json) list \<Rightarrow> (string \<times> json) list) \<Rightarrow>
  (string \<times> json) list \<Rightarrow> (string \<times> json) list" where
  "update_object key f = map (\<lambda>(k, v). (k, if k = key then (case v of JObj m \<Rightarrow> JObj (f m) | _ \<Rightarrow> v) else v))"

definition strip_message_id :: "json \<Rightarrow> json" where
  "strip_message_id v =
     (case v of
        JObj obj \<Rightarrow>
          JObj (update_object ''params'' (update_object ''message'' (jremove ''messageId''))
                 (update_object ''message'' (jremove ''messageId'') obj))
      | _ \<Rightarrow> v)"

definition hash_request :: "idem_env \<Rightarrow> json \<Rightarrow> idem_error + string" where
  "hash_request env body =
     and_then (ok_or Canonicalization (idem_jcs env (strip_message_id body)))
       (\<lambda>canonical. Inr (idem_sha256_hex env canonical))"

definition check :: "idem_env \<Rightarrow> timestamp \<Rightarrow> IdempotencyCache \<Rightarrow> string \<Rightarrow> json \<Rightarrow>
  idem_error + IdempotencyOutcome \<times> IdempotencyCache" where
  "check env now c message_id request_body =
     and_then (hash_request env request_body) (\<lambda>hash.
     and_then (map_sum StoreError id (idempotency_get (idem_codec env) (ca_store c) message_id)) (\<lambda>found.
       case found of
         None \<Rightarrow> Inr (Fresh, c\<lparr>ca_metrics := (ca_metrics c)\<lparr>misses := misses (ca_metrics c) + 1\<rparr>\<rparr>)
       | Some entry \<Rightarrow>
           if ie_expires_at entry \<le> now
           then Inr (Fresh, c\<lparr>ca_metrics := (ca_metrics c)\<lparr>misses := misses (ca_metrics c) + 1\<rparr>\<rparr>)
           else if ie_request_hash entry = hash
           then Inr (Replay (ie_response_status entry) (ie_response_body entry),
                     c\<lparr>ca_metrics := (ca_metrics c)\<lparr>hits := hits (ca_metrics c) + 1\<rparr>\<rparr>)
           else Inr (Collision, c\<lparr>ca_metrics := (ca_metrics c)\<lparr>collisions := collisions (ca_metrics c) + 1\<rparr>\<rparr>)))"

text \<open>\<open>now + ttl\<close> panics when the sum is not a representable instant (\<open>DateOverflow\<close>).\<close>

definition record_response :: "idem_env \<Rightarrow> timestamp \<Rightarrow> IdempotencyCache \<Rightarrow> string \<Rightarrow> json \<Rightarrow> u16 \<Rightarrow> json \<Rightarrow>
  idem_error + IdempotencyCache" where
  "record_response env now c message_id request_body status response_body =
     and_then (hash_request env request_body) (\<lambda>hash.
       if \<not> idem_representable env (now + ca_ttl c) then Inl DateOverflow
       else and_then (map_sum StoreError id (idempotency_put (idem_codec env) (ca_store c)
              \<lparr>ie_message_id = message_id, ie_request_hash = hash, ie_response_status = status,
               ie_response_body = response_body, ie_created_at = now, ie_expires_at = now + ca_ttl c\<rparr>))
              (\<lambda>store. Inr (c\<lparr>ca_store := store\<rparr>)))"

definition sweep_expired :: "idem_env \<Rightarrow> timestamp \<Rightarrow> IdempotencyCache \<Rightarrow> u64 \<times> IdempotencyCache" where
  "sweep_expired env now c =
     (let (n, store) = idempotency_purge_expired (idem_codec env) now (ca_store c);
          c' = c\<lparr>ca_store := store\<rparr>
      in (n, if n > 0 then c'\<lparr>ca_metrics := (ca_metrics c)\<lparr>purged_expired := purged_expired (ca_metrics c) + n\<rparr>\<rparr>
             else c'))"

definition evict_to_cap :: "idem_env \<Rightarrow> IdempotencyCache \<Rightarrow> u64 \<times> IdempotencyCache" where
  "evict_to_cap env c =
     (let count = idempotency_count (ca_store c)
      in if count \<le> ca_max_entries c then (0, c)
         else let excess = count - ca_max_entries c;
                  (removed, store) = idempotency_evict_oldest (idem_oldest env) (ca_store c) excess;
                  c' = c\<lparr>ca_store := store\<rparr>
              in (removed, if removed > 0
                    then c'\<lparr>ca_metrics := (ca_metrics c)\<lparr>evictions := evictions (ca_metrics c) + removed\<rparr>\<rparr>
                    else c'))"

subsection \<open>The extension\<close>

definition IDEMPOTENCY_URI :: string where
  "IDEMPOTENCY_URI = ''https://agentic-sandbox.aiwg.io/extensions/idempotency/v1''"

definition versioned_request_body :: "string \<Rightarrow> json \<Rightarrow> json" where
  "versioned_request_body protocol_version body =
     jobj [(''protocolVersion'', JStr protocol_version), (''request'', body)]"

definition collision_body :: json where
  "collision_body = jobj
     [(''type'', JStr ''https://agentic-sandbox.aiwg.io/errors/idempotency-collision''),
      (''title'', JStr ''Idempotency key reused with different payload''), (''status'', JInt 422),
      (''detail'', JStr ''The provided messageId was previously used with a different request body''),
      (''code'', JStr ''idempotency.key_reused'')]"

definition idem_pre_request :: "idem_env \<Rightarrow> timestamp \<Rightarrow> IdempotencyCache \<Rightarrow> PreRequestCtx \<Rightarrow>
  ExtensionOutcome \<times> IdempotencyCache" where
  "idem_pre_request env now c ctx =
     (if \<not> activated_contains (pre_activated ctx) IDEMPOTENCY_URI then (Continue, c)
      else case pre_message_id ctx of
        None \<Rightarrow> (Continue, c)
      | Some mid \<Rightarrow>
          (case check env now c mid (versioned_request_body (pre_protocol_version ctx) (pre_request_body ctx)) of
             Inr (Replay status body, c') \<Rightarrow> (ExtensionOutcome.Replay status body, c')
           | Inr (Collision, c') \<Rightarrow> (Reject 422 collision_body, c')
           | Inr (Fresh, c') \<Rightarrow> (Continue, c')
           | Inl _ \<Rightarrow> (Continue, c)))"


subsection \<open>Runs of the cache\<close>

datatype cache_op =
    CCheck timestamp string json
  | CRecord timestamp string json u16 json
  | CSweep timestamp
  | CEvict
  | CHit string

fun cache_step :: "idem_env \<Rightarrow> IdempotencyCache \<Rightarrow> cache_op \<Rightarrow> IdempotencyCache" where
  "cache_step env c (CCheck now mid body) = (case check env now c mid body of Inl _ \<Rightarrow> c | Inr (_, c') \<Rightarrow> c')"
| "cache_step env c (CRecord now mid body status resp) =
     (case record_response env now c mid body status resp of Inl _ \<Rightarrow> c | Inr c' \<Rightarrow> c')"
| "cache_step env c (CSweep now) = snd (sweep_expired env now c)"
| "cache_step env c CEvict = snd (evict_to_cap env c)"
| "cache_step env c (CHit operation) = c\<lparr>ca_metrics := record_hit_for_op (ca_metrics c) operation\<rparr>"

text \<open>
  Every row decodes, and its expiry text is the rendering of a representable four-digit-year instant;
  the time to live and the cap never change.
\<close>

definition idem_row_ok :: "store_codec \<Rightarrow> idem_cols \<Rightarrow> bool" where
  "idem_row_ok cd r \<longleftrightarrow>
     (\<exists>e. row_to_idem cd r = Inr e \<and> ts_valid (ie_expires_at e) \<and> i_expires_at r = fmt_ts cd (ie_expires_at e))"

definition idem_ok :: "store_codec \<Rightarrow> IdempotencyCache \<Rightarrow> bool" where
  "idem_ok cd c \<longleftrightarrow> key_unique i_message_id (idempotency_cache (ca_store c)) \<and>
     (\<forall>r \<in> set (idempotency_cache (ca_store c)). idem_row_ok cd r)"

fun cache_op_valid :: "int \<Rightarrow> cache_op \<Rightarrow> bool" where
  "cache_op_valid ttl (CRecord now mid body status resp) \<longleftrightarrow> ts_valid now \<and> ts_valid (now + ttl)"
| "cache_op_valid ttl _ \<longleftrightarrow> True"

definition cached :: "store_codec \<Rightarrow> IdempotencyCache \<Rightarrow> string \<Rightarrow> IdempotencyEntry option" where
  "cached cd c mid =
     Option.bind (tbl_get i_message_id mid (idempotency_cache (ca_store c)))
       (\<lambda>r. case row_to_idem cd r of Inl _ \<Rightarrow> None | Inr e \<Rightarrow> Some e)"

lemma check_step_store [simp]:
  "ca_store (case check env now c mid body of Inl _ \<Rightarrow> c | Inr (_, c') \<Rightarrow> c') = ca_store c"
  "ca_ttl (case check env now c mid body of Inl _ \<Rightarrow> c | Inr (_, c') \<Rightarrow> c') = ca_ttl c"
  by (auto simp: check_def and_then_Inr split: option.splits if_splits sum.splits)

lemma record_Inr:
  assumes "record_response env now c mid body status resp = Inr c'"
  obtains hash where "hash_request env body = Inr hash"
    and "idempotency_put (idem_codec env) (ca_store c)
      \<lparr>ie_message_id = mid, ie_request_hash = hash, ie_response_status = status,
       ie_response_body = resp, ie_created_at = now, ie_expires_at = now + ca_ttl c\<rparr> = Inr (ca_store c')"
    and "ca_ttl c' = ca_ttl c"
  using assms
  by (auto simp: record_response_def and_then_Inr map_sum_Inr split: if_splits)

lemma idempotency_get_cached:
  assumes "idem_ok cd c"
  shows "idempotency_get cd (ca_store c) mid = Inr (cached cd c mid)"
proof (cases "tbl_get i_message_id mid (idempotency_cache (ca_store c))")
  case (Some r)
  then have "idem_row_ok cd r"
    using assms tbl_get_SomeD unfolding idem_ok_def by metis
  with Some show ?thesis
    by (auto simp: idempotency_get_def cached_def idem_row_ok_def)
qed (simp add: idempotency_get_def cached_def)

lemma idempotency_put_text:
  assumes "idempotency_put cd s e = Inr s'"
  obtains t where "json_text cd (ie_response_body e) = Inr t"
  using assms by (auto simp: idempotency_put_def and_then_Inr)

lemma idempotency_put_get:
  assumes "idempotency_put cd s e = Inr s'" and "json_text cd (ie_response_body e) = Inr t"
  shows "tbl_get i_message_id mid (idempotency_cache s') =
      (if mid = ie_message_id e
       then Some \<lparr>i_message_id = mid, i_request_hash = ie_request_hash e,
              i_response_status = uint (ie_response_status e), i_response_body = t,
              i_created_at = (case tbl_get i_message_id mid (idempotency_cache s) of
                None \<Rightarrow> fmt_ts cd (ie_created_at e) | Some r \<Rightarrow> i_created_at r),
              i_expires_at = fmt_ts cd (ie_expires_at e)\<rparr>
       else tbl_get i_message_id mid (idempotency_cache s))"
proof (cases "tbl_get i_message_id (ie_message_id e) (idempotency_cache s)")
  case None
  with assms show ?thesis
    by (auto simp: idempotency_put_def and_then_Inr table_simps split: option.splits)
next
  case (Some r)
  have "i_message_id r = ie_message_id e"
    using tbl_get_SomeD [OF Some] by simp
  with assms Some show ?thesis
    by (auto simp: idempotency_put_def and_then_Inr table_simps)
qed

lemma idempotency_put_unique:
  assumes "idempotency_put cd s e = Inr s'" and "key_unique i_message_id (idempotency_cache s)"
  shows "key_unique i_message_id (idempotency_cache s')"
  using assms
  by (cases "tbl_get i_message_id (ie_message_id e) (idempotency_cache s)")
    (auto simp: idempotency_put_def and_then_Inr intro!: key_unique_intros)

lemma idem_row_decode:
  assumes "codec_ok cd" and "json_text cd body = Inr t" and "ts_valid ex" and "parse_ts cd created = Inr cr"
  shows "row_to_idem cd \<lparr>i_message_id = mid, i_request_hash = h, i_response_status = uint st,
      i_response_body = t, i_created_at = created, i_expires_at = fmt_ts cd ex\<rparr> =
    Inr \<lparr>ie_message_id = mid, ie_request_hash = h, ie_response_status = st, ie_response_body = body,
      ie_created_at = cr, ie_expires_at = ex\<rparr>"
  using assms by (simp add: row_to_idem_def parse_json_text parse_fmt_ts)

lemma idem_row_created: "idem_row_ok cd r \<Longrightarrow> \<exists>cr. parse_ts cd (i_created_at r) = Inr cr"
  by (auto simp: idem_row_ok_def row_to_idem_def and_then_Inr)

lemma put_cached:
  assumes cd: "codec_ok cd" and ok: "idem_ok cd c"
    and put: "idempotency_put cd (ca_store c) e = Inr (ca_store c')"
    and ts: "ts_valid (ie_created_at e)" "ts_valid (ie_expires_at e)"
  shows "idem_ok cd c'" and "\<exists>cr. cached cd c' (ie_message_id e) = Some (e\<lparr>ie_created_at := cr\<rparr>)"
    and "mid \<noteq> ie_message_id e \<Longrightarrow> cached cd c' mid = cached cd c mid"
proof -
  obtain t where t: "json_text cd (ie_response_body e) = Inr t"
    by (rule idempotency_put_text [OF put])
  note get = idempotency_put_get [OF put t]
  obtain cr where cr: "parse_ts cd (case tbl_get i_message_id (ie_message_id e) (idempotency_cache (ca_store c)) of
      None \<Rightarrow> fmt_ts cd (ie_created_at e) | Some r \<Rightarrow> i_created_at r) = Inr cr"
  proof (cases "tbl_get i_message_id (ie_message_id e) (idempotency_cache (ca_store c))")
    case None
    with parse_fmt_ts [OF cd ts(1)] that show thesis by simp
  next
    case (Some r)
    with ok have "idem_row_ok cd r"
      using tbl_get_SomeD [OF Some] by (auto simp: idem_ok_def)
    with Some that idem_row_created show thesis by force
  qed
  note row = idem_row_decode [OF cd t ts(2) cr]
  show "\<exists>cr. cached cd c' (ie_message_id e) = Some (e\<lparr>ie_created_at := cr\<rparr>)"
    by (intro exI [of _ cr]) (simp add: cached_def get row)
  show "mid \<noteq> ie_message_id e \<Longrightarrow> cached cd c' mid = cached cd c mid"
    by (simp add: cached_def get)
  have uniq: "key_unique i_message_id (idempotency_cache (ca_store c'))"
    using idempotency_put_unique [OF put] ok by (simp add: idem_ok_def)
  have "idem_row_ok cd r" if "r \<in> set (idempotency_cache (ca_store c'))" for r
  proof -
    have "tbl_get i_message_id (i_message_id r) (idempotency_cache (ca_store c')) = Some r"
      using tbl_get_SomeI [OF uniq that] .
    then show ?thesis
      using ok ts(2) by (auto simp: get row idem_row_ok_def [of _ "\<lparr>i_message_id = _, i_request_hash = _, i_response_status = _,
          i_response_body = _, i_created_at = _, i_expires_at = _\<rparr>"] idem_ok_def dest: tbl_get_SomeD split: if_splits)
  qed
  then show "idem_ok cd c'"
    using uniq by (simp add: idem_ok_def)
qed

lemma record_response_cached:
  assumes cd: "codec_ok (idem_codec env)" and ok: "idem_ok (idem_codec env) c"
    and rec: "record_response env now c mid body status resp = Inr c'"
    and ts: "ts_valid now" "ts_valid (now + ca_ttl c)"
  obtains hash cr where "hash_request env body = Inr hash" and "idem_ok (idem_codec env) c'" and "ca_ttl c' = ca_ttl c"
    and "cached (idem_codec env) c' mid = Some \<lparr>ie_message_id = mid, ie_request_hash = hash,
      ie_response_status = status, ie_response_body = resp, ie_created_at = cr, ie_expires_at = now + ca_ttl c\<rparr>"
    and "\<And>k. k \<noteq> mid \<Longrightarrow> cached (idem_codec env) c' k = cached (idem_codec env) c k"
proof -
  obtain hash where hash: "hash_request env body = Inr hash" and ttl: "ca_ttl c' = ca_ttl c"
    and put: "idempotency_put (idem_codec env) (ca_store c)
      \<lparr>ie_message_id = mid, ie_request_hash = hash, ie_response_status = status,
       ie_response_body = resp, ie_created_at = now, ie_expires_at = now + ca_ttl c\<rparr> = Inr (ca_store c')"
    by (rule record_Inr [OF rec])
  from put_cached(1) [OF cd ok put] put_cached(2) [OF cd ok put] put_cached(3) [OF cd ok put] ts
  show thesis
    by (auto intro: that [OF hash _ ttl])
qed

lemma idem_ok_delete:
  assumes "idem_ok cd c" and "idempotency_cache (ca_store c') = tbl_delete p (idempotency_cache (ca_store c))"
  shows "idem_ok cd c'"
  using assms by (auto simp: idem_ok_def intro: key_unique_delete)

lemma sweep_store:
  "ca_store (snd (sweep_expired env now c)) = snd (idempotency_purge_expired (idem_codec env) now (ca_store c))"
  "ca_ttl (snd (sweep_expired env now c)) = ca_ttl c"
  by (auto simp: sweep_expired_def Let_def split: prod.splits)

lemma evict_store:
  "ca_store (snd (evict_to_cap env c)) =
     (if idempotency_count (ca_store c) \<le> ca_max_entries c then ca_store c
      else snd (idempotency_evict_oldest (idem_oldest env) (ca_store c) (idempotency_count (ca_store c) - ca_max_entries c)))"
  "ca_ttl (snd (evict_to_cap env c)) = ca_ttl c"
  by (auto simp: evict_to_cap_def Let_def split: prod.splits)

lemma cache_step_ok:
  assumes cd: "codec_ok (idem_codec env)" and ok: "idem_ok (idem_codec env) c" and "cache_op_valid (ca_ttl c) opn"
  shows "idem_ok (idem_codec env) (cache_step env c opn) \<and> ca_ttl (cache_step env c opn) = ca_ttl c"
proof (cases opn)
  case (CCheck now mid body)
  then show ?thesis
    using ok by (simp add: idem_ok_def)
next
  case (CRecord now mid body status resp)
  show ?thesis
  proof (cases "record_response env now c mid body status resp")
    case (Inr c')
    have "ts_valid now" "ts_valid (now + ca_ttl c)"
      using assms(3) CRecord by simp_all
    then have "idem_ok (idem_codec env) c' \<and> ca_ttl c' = ca_ttl c"
      by (rule record_response_cached [OF cd ok Inr]) simp
    with CRecord Inr show ?thesis by simp
  qed (use CRecord ok in simp)
next
  case (CSweep now)
  then show ?thesis
    by (auto simp: sweep_store idempotency_purge_expired_def Let_def intro: idem_ok_delete [OF ok])
next
  case CEvict
  then show ?thesis
    using ok by (auto simp: evict_store idempotency_evict_oldest_def Let_def idem_ok_def intro: key_unique_delete)
next
  case (CHit operation)
  then show ?thesis using ok by (simp add: idem_ok_def)
qed

lemma cache_run_ok:
  assumes "codec_ok (idem_codec env)" and "idem_ok (idem_codec env) c" and "list_all (cache_op_valid (ca_ttl c)) ops"
  shows "idem_ok (idem_codec env) (run (cache_step env) c ops) \<and> ca_ttl (run (cache_step env) c ops) = ca_ttl c"
  using assms
proof (induction ops arbitrary: c)
  case (Cons opn ops)
  then show ?case using cache_step_ok [of env c opn] by simp
qed simp

text \<open>Operations that leave the entry of a message id alone, given its expiry.\<close>

fun spares :: "string \<Rightarrow> timestamp \<Rightarrow> cache_op \<Rightarrow> bool" where
  "spares mid expires (CRecord now k body status resp) \<longleftrightarrow> k \<noteq> mid"
| "spares mid expires (CSweep now) \<longleftrightarrow> ts_valid now \<and> now \<le> expires"
| "spares mid expires CEvict \<longleftrightarrow> False"
| "spares mid expires _ \<longleftrightarrow> True"

lemma cache_step_spares:
  assumes cd: "codec_ok (idem_codec env)" and ok: "idem_ok (idem_codec env) c"
    and valid: "cache_op_valid (ca_ttl c) opn" and entry: "cached (idem_codec env) c mid = Some e"
    and spares: "spares mid (ie_expires_at e) opn"
  shows "cached (idem_codec env) (cache_step env c opn) mid = Some e"
proof (cases opn)
  case (CCheck now k body)
  then show ?thesis
    using entry by (simp add: cached_def)
next
  case (CRecord now k body status resp)
  show ?thesis
  proof (cases "record_response env now c k body status resp")
    case (Inr c')
    have "ts_valid now" "ts_valid (now + ca_ttl c)"
      using valid CRecord by simp_all
    then have "cached (idem_codec env) c' mid = cached (idem_codec env) c mid"
      by (rule record_response_cached [OF cd ok Inr]) (use spares CRecord in simp)
    with CRecord Inr entry show ?thesis by simp
  qed (use CRecord entry in simp)
next
  case (CSweep now)
  obtain r where r: "tbl_get i_message_id mid (idempotency_cache (ca_store c)) = Some r"
    and e: "row_to_idem (idem_codec env) r = Inr e"
    using entry by (cases "tbl_get i_message_id mid (idempotency_cache (ca_store c))") (auto simp: cached_def split: sum.split_asm)
  have "idem_row_ok (idem_codec env) r"
    using ok tbl_get_SomeD [OF r] by (simp add: idem_ok_def)
  then have "i_expires_at r = fmt_ts (idem_codec env) (ie_expires_at e)" "ts_valid (ie_expires_at e)"
    by (auto simp: idem_row_ok_def e)
  then have "\<not> i_expires_at r < fmt_ts (idem_codec env) now"
    using spares CSweep fmt_ts_less [OF cd] by simp
  with ok r e CSweep show ?thesis
    by (simp add: cached_def sweep_store idempotency_purge_expired_def Let_def tbl_get_delete idem_ok_def)
next
  case CEvict
  with spares show ?thesis by simp
next
  case (CHit operation)
  with entry show ?thesis by (simp add: cached_def)
qed

lemma cache_run_spares:
  assumes "codec_ok (idem_codec env)" and "idem_ok (idem_codec env) c"
    and "list_all (cache_op_valid (ca_ttl c)) ops" and "cached (idem_codec env) c mid = Some e"
    and "list_all (spares mid (ie_expires_at e)) ops"
  shows "cached (idem_codec env) (run (cache_step env) c ops) mid = Some e"
  using assms
proof (induction ops arbitrary: c)
  case (Cons opn ops)
  then show ?case using cache_step_ok [of env c opn] cache_step_spares [of env c opn mid e] by simp
qed simp

text \<open>The answer of the hook, by the cached entry.\<close>

lemma idem_pre_request_cached:
  assumes "idem_ok (idem_codec env) c" and "activated_contains (pre_activated ctx) IDEMPOTENCY_URI"
    and "pre_message_id ctx = Some mid"
    and "hash_request env (versioned_request_body (pre_protocol_version ctx) (pre_request_body ctx)) = Inr h"
  shows "fst (idem_pre_request env now c ctx) =
    (case cached (idem_codec env) c mid of
       None \<Rightarrow> Continue
     | Some e \<Rightarrow> if ie_expires_at e \<le> now then Continue
         else if ie_request_hash e = h then ExtensionOutcome.Replay (ie_response_status e) (ie_response_body e)
         else Reject 422 collision_body)"
  using assms
  by (auto simp: idem_pre_request_def check_def idempotency_get_cached split: option.splits)

subsection \<open>Eviction\<close>

text \<open>\<open>ORDER BY created_at ASC\<close>: the rows, oldest first.\<close>

definition oldest_first :: "(idem_cols list \<Rightarrow> idem_cols list) \<Rightarrow> bool" where
  "oldest_first ord \<longleftrightarrow> (\<forall>rows. mset (ord rows) = mset rows \<and> sorted_wrt (\<lambda>a b. i_created_at a \<le> i_created_at b) (ord rows))"

lemma evict_oldest_exact:
  assumes ord: "oldest_first ord" and uniq: "key_unique i_message_id (idempotency_cache s)"
    and n: "0 < n" "uint n < 2 ^ 63" "unat n \<le> length (idempotency_cache s)"
    and ev: "idempotency_evict_oldest ord s n = (removed, s')"
  shows "set (idempotency_cache s') = set (drop (unat n) (ord (idempotency_cache s)))"
    and "set (idempotency_cache s) - set (idempotency_cache s') = set (take (unat n) (ord (idempotency_cache s)))"
    and "length (idempotency_cache s') = length (idempotency_cache s) - unat n" and "removed = n"
proof -
  define rows where "rows = idempotency_cache s"
  define old where "old = take (unat n) (ord rows)"
  have sint: "sint n = uint n"
    using n(2) signed_take_bit_int_eq_self [of 63 "uint n"] uint_ge_0 [of n] by (simp add: sint_uint)
  have nz: "n \<noteq> 0"
    using n(1) by auto
  have ms: "mset (ord rows) = mset rows"
    using ord by (simp add: oldest_first_def)
  have dist: "distinct (map i_message_id rows)"
    using uniq by (simp add: key_unique_def rows_def)
  then have inj: "inj_on i_message_id (set rows)" and drows: "distinct rows"
    by (simp_all add: distinct_map)
  have dord: "distinct (ord rows)"
    using drows ms by (metis mset_eq_imp_distinct_iff)
  have sub: "set old \<subseteq> set rows"
    unfolding old_def using set_take_subset mset_eq_setD [OF ms] by fast
  have p: "i_message_id r \<in> i_message_id ` set old \<longleftrightarrow> r \<in> set old" if "r \<in> set rows" for r
    using inj sub that by (auto dest: inj_onD)
  have f: "filter (\<lambda>r. i_message_id r \<notin> i_message_id ` set old) rows = filter (\<lambda>r. r \<notin> set old) rows"
    "filter (\<lambda>r. i_message_id r \<in> i_message_id ` set old) rows = filter (\<lambda>r. r \<in> set old) rows"
    using p by (simp_all cong: filter_cong)
  have del: "idempotency_cache s' = filter (\<lambda>r. r \<notin> set old) rows"
    and rem: "removed = of_nat (length (filter (\<lambda>r. r \<in> set old) rows))"
    using ev nz sint f
    by (auto simp: idempotency_evict_oldest_def Let_def tbl_delete_def sql_changes_def old_def rows_def)
  have "set rows = set (ord rows)"
    using mset_eq_setD [OF ms] by simp
  also have "\<dots> = set old \<union> set (drop (unat n) (ord rows))"
    unfolding old_def by (metis append_take_drop_id set_append)
  finally have un: "set rows = set old \<union> set (drop (unat n) (ord rows))" .
  have dj: "set old \<inter> set (drop (unat n) (ord rows)) = {}"
    unfolding old_def using dord by (metis append_take_drop_id distinct_append)
  have len: "length (filter (\<lambda>r. r \<in> set old) rows) = unat n"
  proof -
    have "length (filter (\<lambda>r. r \<in> set old) rows) = card (set old)"
      using drows sub by (metis distinct_card distinct_filter filter_set Set.filter_eq Int_absorb2 Int_def mem_Collect_eq Collect_mem_eq inf.absorb_iff2 inf_commute)
    also have "\<dots> = unat n"
      using dord n(3) mset_eq_length [OF ms] by (simp add: old_def distinct_card rows_def)
    finally show ?thesis .
  qed
  show "set (idempotency_cache s') = set (drop (unat n) (ord (idempotency_cache s)))"
    and "set (idempotency_cache s) - set (idempotency_cache s') = set (take (unat n) (ord (idempotency_cache s)))"
    using un dj sub by (auto simp: del rows_def [symmetric] old_def [symmetric])
  show "length (idempotency_cache s') = length (idempotency_cache s) - unat n"
    using sum_length_filter_compl [of "\<lambda>r. r \<in> set old" rows] len by (simp add: del rows_def [symmetric])
  show "removed = n"
    by (simp add: rem len)
qed

subsection \<open>Digests\<close>

text \<open>A request body with a given message id in \<open>message\<close>, wrapped in \<open>params\<close> or not.\<close>

definition set_message_id :: "string \<Rightarrow> (string \<times> json) list \<Rightarrow> (string \<times> json) list" where
  "set_message_id mid = update_object ''message'' (jinsert ''messageId'' (JStr mid))"

lemma jremove_jinsert: "jremove k (jinsert k v m) = jremove k m"
  by (induction m) (auto simp: jremove_def)

lemma update_object_twice: "update_object k f (update_object k g m) = update_object k (\<lambda>x. f (g x)) m"
  by (auto simp: update_object_def split: json.splits)

lemma update_object_commute:
  "k \<noteq> l \<Longrightarrow> update_object k f (update_object l g m) = update_object l g (update_object k f m)"
  by (auto simp: update_object_def)

lemma update_object_cong: "(\<And>x. f x = g x) \<Longrightarrow> update_object k f m = update_object k g m"
  by (auto simp: update_object_def split: json.splits)

lemma strip_set_message_id:
  "strip_message_id (JObj (set_message_id mid obj)) = strip_message_id (JObj obj)"
  "strip_message_id (JObj (update_object ''params'' (set_message_id mid) obj)) = strip_message_id (JObj obj)"
proof -
  have strip: "update_object ''message'' (jremove ''messageId'') (set_message_id mid m) =
      update_object ''message'' (jremove ''messageId'') m" for m
    unfolding set_message_id_def update_object_twice by (simp add: jremove_jinsert)
  then show "strip_message_id (JObj (set_message_id mid obj)) = strip_message_id (JObj obj)"
    by (simp add: strip_message_id_def)
  have "update_object ''message'' (jremove ''messageId'') (update_object ''params'' (set_message_id mid) obj) =
      update_object ''params'' (set_message_id mid) (update_object ''message'' (jremove ''messageId'') obj)"
    by (rule update_object_commute) simp
  then show "strip_message_id (JObj (update_object ''params'' (set_message_id mid) obj)) = strip_message_id (JObj obj)"
    by (simp add: strip_message_id_def update_object_twice strip)
qed

lemma strip_versioned: "strip_message_id (versioned_request_body v body) = versioned_request_body v body"
  by (simp add: strip_message_id_def versioned_request_body_def jobj_def update_object_def)

subsection \<open>Properties\<close>

definition demo_idem_env :: idem_env where
  "demo_idem_env = \<lparr>idem_codec = demo_store_codec,
     idem_jcs = (\<lambda>v. case jget ''request'' v of Some (JStr s) \<Rightarrow> Some s | _ \<Rightarrow> Some []),
     idem_sha256_hex = (\<lambda>s. s), idem_representable = ts_valid, idem_oldest = sort_key i_created_at\<rparr>"

definition demo_cache :: IdempotencyCache where
  "demo_cache = with_max_entries (with_ttl (new_cache empty_store) 5) 1"

definition demo_idem_ctx :: "json \<Rightarrow> PreRequestCtx" where
  "demo_idem_ctx body = \<lparr>pre_activated = [IDEMPOTENCY_URI], pre_task_id = None, pre_message_id = Some ''m'',
     pre_request_body = body, pre_protocol_version = ''1.0''\<rparr>"

lemmas idem_demo = demo_idem_env_def demo_cache_def demo_idem_ctx_def with_max_entries_def with_ttl_def new_cache_def
  default_metrics_def empty_store_def record_response_def hash_request_def versioned_request_body_def
  strip_message_id_def update_object_def idempotency_put_def check_def sweep_expired_def
  idempotency_purge_expired_def idempotency_get_def row_to_idem_def Let_def
  json_text_def fmt_ts_def parse_ts_def parse_json_def ts_valid_def store_demo

text \<open>
  C10. A retransmission never runs twice while its entry lives: after a response was recorded for a
  message id, and as long as nothing re-records that id, evicts, or sweeps beyond its expiry, the hook
  answers a request with that id by the recorded status and body when the digest is the same, by 422
  when it differs, and lets it through exactly from the instant of expiry on. This holds after any
  earlier operations of the cache and through any later checks, sweeps and recordings of other ids.
\<close>

theorem idem_retransmission:
  assumes "codec_ok (idem_codec env)" and "idempotency_cache (ca_store c0) = []"
    and "list_all (cache_op_valid (ca_ttl c0)) (before @ CRecord t mid body status resp # after)"
    and "record_response env t (run (cache_step env) c0 before) mid body status resp = Inr c1"
    and "list_all (spares mid (t + ca_ttl c0)) after"
    and "hash_request env body = Inr h"
    and "activated_contains (pre_activated ctx) IDEMPOTENCY_URI" and "pre_message_id ctx = Some mid"
    and "hash_request env (versioned_request_body (pre_protocol_version ctx) (pre_request_body ctx)) = Inr h'"
  shows "fst (idem_pre_request env now (run (cache_step env) c1 after) ctx) =
    (if t + ca_ttl c0 \<le> now then Continue
     else if h = h' then ExtensionOutcome.Replay status resp
     else Reject 422 collision_body)"
proof -
  let ?c = "run (cache_step env) c0 before"
  have "idem_ok (idem_codec env) c0"
    using assms(2) by (simp add: idem_ok_def)
  then have ok: "idem_ok (idem_codec env) ?c" and ttl: "ca_ttl ?c = ca_ttl c0"
    using cache_run_ok [OF assms(1)] assms(3) by simp_all
  have ts: "ts_valid t" "ts_valid (t + ca_ttl ?c)"
    using assms(3) ttl by simp_all
  obtain cr where ok1: "idem_ok (idem_codec env) c1" and ttl1: "ca_ttl c1 = ca_ttl c0"
    and entry: "cached (idem_codec env) c1 mid = Some \<lparr>ie_message_id = mid, ie_request_hash = h,
      ie_response_status = status, ie_response_body = resp, ie_created_at = cr, ie_expires_at = t + ca_ttl c0\<rparr>"
    using record_response_cached [OF assms(1) ok assms(4) ts] assms(6) ttl by (metis sum.inject(2))
  have valid: "list_all (cache_op_valid (ca_ttl c1)) after"
    using assms(3) ttl1 by simp
  have "cached (idem_codec env) (run (cache_step env) c1 after) mid = Some \<lparr>ie_message_id = mid, ie_request_hash = h,
      ie_response_status = status, ie_response_body = resp, ie_created_at = cr, ie_expires_at = t + ca_ttl c0\<rparr>"
    by (rule cache_run_spares [OF assms(1) ok1 valid entry]) (simp add: assms(5))
  moreover have "idem_ok (idem_codec env) (run (cache_step env) c1 after)"
    using cache_run_ok [OF assms(1) ok1 valid] by simp
  ultimately show ?thesis
    using idem_pre_request_cached [OF _ assms(7-9)] by simp
qed

definition demo_cache1 :: IdempotencyCache where
  "demo_cache1 = cache_step demo_idem_env
     (run (cache_step demo_idem_env) demo_cache [CRecord 4 ''k'' (JStr ''z'') 200 (JStr ''no'')])
     (CRecord 10 ''m'' (versioned_request_body ''1.0'' (JStr ''x'')) 200 (JStr ''ok''))"

definition demo_after :: "cache_op list" where
  "demo_after = [CSweep 12, CCheck 12 ''m'' (JStr ''x''), CRecord 12 ''j'' (JStr ''y'') 500 (JStr ''no'')]"

lemma demo_record:
  "record_response demo_idem_env 10 (run (cache_step demo_idem_env) demo_cache [CRecord 4 ''k'' (JStr ''z'') 200 (JStr ''no'')])
     ''m'' (versioned_request_body ''1.0'' (JStr ''x'')) 200 (JStr ''ok'') = Inr demo_cache1"
  unfolding demo_cache1_def by (simp add: idem_demo)

lemma demo_hash: "hash_request demo_idem_env (versioned_request_body v (JStr s)) = Inr s"
  by (simp add: idem_demo)

theorem idem_retransmission_witness:
  "fst (idem_pre_request demo_idem_env 13 (run (cache_step demo_idem_env) demo_cache1 demo_after)
       (demo_idem_ctx (JStr ''x''))) = ExtensionOutcome.Replay 200 (JStr ''ok'') \<and>
   fst (idem_pre_request demo_idem_env 13 (run (cache_step demo_idem_env) demo_cache1 demo_after)
       (demo_idem_ctx (JStr ''y''))) = Reject 422 collision_body \<and>
   fst (idem_pre_request demo_idem_env 15 (run (cache_step demo_idem_env) demo_cache1 demo_after)
       (demo_idem_ctx (JStr ''x''))) = Continue"
proof -
  have ttl: "ca_ttl demo_cache = 5"
    by (simp add: idem_demo)
  have all: "fst (idem_pre_request demo_idem_env now (run (cache_step demo_idem_env) demo_cache1 demo_after)
       (demo_idem_ctx (JStr s))) =
    (if 10 + ca_ttl demo_cache \<le> now then Continue
     else if ''x'' = s then ExtensionOutcome.Replay 200 (JStr ''ok'') else Reject 422 collision_body)" for now s
    by (rule idem_retransmission [OF _ _ _ demo_record])
      (simp_all add: demo_idem_env_def demo_codec_ok demo_cache_def empty_store_def new_cache_def with_ttl_def
        with_max_entries_def demo_after_def ts_valid_def demo_hash [unfolded demo_idem_env_def]
        demo_idem_ctx_def activated_contains_self)
  show ?thesis
    by (simp add: all ttl)
qed

text \<open>
  Enforcing the cap leaves exactly the smaller of the cap and the number of entries, reports the
  number removed, and removes only entries created no later than every entry it keeps.
\<close>

theorem idem_eviction_exact:
  assumes "oldest_first (idem_oldest env)" and "key_unique i_message_id (idempotency_cache (ca_store c))"
    and "length (idempotency_cache (ca_store c)) < 2 ^ 63"
    and "evict_to_cap env c = (removed, c')"
  shows "length (idempotency_cache (ca_store c')) = min (length (idempotency_cache (ca_store c))) (unat (ca_max_entries c)) \<and>
    unat removed = length (idempotency_cache (ca_store c)) - length (idempotency_cache (ca_store c')) \<and>
    (\<forall>gone \<in> set (idempotency_cache (ca_store c)) - set (idempotency_cache (ca_store c')).
     \<forall>kept \<in> set (idempotency_cache (ca_store c')). i_created_at gone \<le> i_created_at kept)"
proof -
  let ?rows = "idempotency_cache (ca_store c)"
  have count: "unat (idempotency_count (ca_store c)) = length ?rows"
    using assms(3) by (simp add: idempotency_count_def unat_of_nat take_bit_nat_eq_self)
  show ?thesis
  proof (cases "idempotency_count (ca_store c) \<le> ca_max_entries c")
    case True
    then show ?thesis
      using assms(4) count by (simp add: evict_to_cap_def Let_def word_le_nat_alt)
  next
    case False
    define n where "n = idempotency_count (ca_store c) - ca_max_entries c"
    have n: "unat n = length ?rows - unat (ca_max_entries c)" "unat (ca_max_entries c) < length ?rows"
      using False count by (simp_all add: n_def unat_sub_if' word_le_nat_alt)
    have small: "unat n < 2 ^ 63" "0 < unat n"
      using n assms(3) by simp_all
    have bounds: "0 < n" "uint n < 2 ^ 63" "unat n \<le> length ?rows"
      using small(2) n uint_less_power [OF small(1)] by (simp_all add: word_less_nat_alt)
    have ev: "idempotency_evict_oldest (idem_oldest env) (ca_store c) n = (removed, ca_store c')"
      using assms(4) False
      by (auto simp: evict_to_cap_def Let_def n_def [symmetric] split: prod.splits if_splits)
    note exact = evict_oldest_exact [OF assms(1,2) bounds ev]
    have sorted: "sorted_wrt (\<lambda>a b. i_created_at a \<le> i_created_at b) (idem_oldest env ?rows)"
      using assms(1) by (simp add: oldest_first_def)
    show ?thesis
      using exact n sorted_wrt_take_drop [OF sorted] by auto
  qed
qed

lemma demo_oldest_first: "oldest_first (idem_oldest demo_idem_env)"
  unfolding oldest_first_def demo_idem_env_def
proof (intro allI conjI)
  fix rows :: "idem_cols list"
  have "sorted (map i_created_at (sort_key i_created_at rows))" by simp
  then show "sorted_wrt (\<lambda>a b. i_created_at a \<le> i_created_at b)
      (idem_oldest \<lparr>idem_codec = demo_store_codec,
        idem_jcs = (\<lambda>v. case jget ''request'' v of Some (JStr s) \<Rightarrow> Some s | _ \<Rightarrow> Some []),
        idem_sha256_hex = (\<lambda>s. s), idem_representable = ts_valid, idem_oldest = sort_key i_created_at\<rparr> rows)"
    by (simp add: sorted_map)
qed simp

theorem idem_eviction_exact_witness:
  "length (idempotency_cache (ca_store (snd (evict_to_cap demo_idem_env demo_cache1)))) = 1 \<and>
   unat (fst (evict_to_cap demo_idem_env demo_cache1)) = 1"
proof -
  have rows: "key_unique i_message_id (idempotency_cache (ca_store demo_cache1))"
    "length (idempotency_cache (ca_store demo_cache1)) = 2" "ca_max_entries demo_cache1 = 1"
    by (simp_all add: demo_cache1_def key_unique_def idem_demo)
  show ?thesis
    using idem_eviction_exact [of demo_idem_env demo_cache1 "fst (evict_to_cap demo_idem_env demo_cache1)"
        "snd (evict_to_cap demo_idem_env demo_cache1)", OF demo_oldest_first rows(1)] rows
    by simp
qed

text \<open>
  The request digest does not depend on the message id, whether the body is the request itself or
  wraps it in \<open>params\<close>. On the versioned bodies that the hook digests, however, nothing is removed:
  the digest there is the one of the full body, message id included.
\<close>

theorem hash_request_message_id:
  "hash_request env (JObj (set_message_id a obj)) = hash_request env (JObj (set_message_id b obj)) \<and>
   hash_request env (JObj (update_object ''params'' (set_message_id a) obj)) =
     hash_request env (JObj (update_object ''params'' (set_message_id b) obj)) \<and>
   hash_request env (versioned_request_body v body) =
     (case idem_jcs env (versioned_request_body v body) of
        None \<Rightarrow> Inl Canonicalization | Some canonical \<Rightarrow> Inr (idem_sha256_hex env canonical))"
  by (simp add: hash_request_def strip_set_message_id strip_versioned split: option.splits)

end
