(* ===== verification/A2a_Extensions.thy ===== *)
theory A2a_Extensions
  imports Flow_Graph Idempotency
begin

section \<open>The extension registry (\<open>extensions/mod.rs\<close>, \<open>runtime.rs\<close>, \<open>hitl_prompt.rs\<close>, \<open>multi_tenant.rs\<close>, \<open>pty_extensions.rs\<close>)\<close>

text \<open>
  The remaining extensions, the registry that runs the hooks of all of them in registration order, and
  the middleware that enforces the required ones. Log records that the code emits instead of failing
  are returned as values (\<open>hitl_warning\<close>); the tracing span of the multi-tenant extension is the tenant
  id it records.
\<close>

subsection \<open>Runtime metadata\<close>

definition RUNTIME_URI :: string where "RUNTIME_URI = ''https://agentic-sandbox.aiwg.io/extensions/runtime/v1''"

fun kind_str :: "RuntimeKind \<Rightarrow> string" where
  "kind_str Vm = ''vm''"
| "kind_str Container = ''container''"
| "kind_str Host = ''host''"

record RuntimeExtension =
  re_runtime_kind :: RuntimeKind
  re_loadout :: string
  re_host :: string

definition is_success :: "u16 \<Rightarrow> bool" where
  "is_success status \<longleftrightarrow> 200 \<le> status \<and> status < 300"

definition runtime_entries :: "RuntimeExtension \<Rightarrow> PostResponseCtx \<Rightarrow> (string \<times> json) list" where
  "runtime_entries ext ctx =
     (let (kind, host, instance_id, provider, capabilities) =
        (case post_instance ctx of
           Some i \<Rightarrow> (kind_str (ic_runtime_kind i), ic_host i, ic_instance_id i, ic_runtime_provider i,
                      ic_runtime_capabilities i)
         | None \<Rightarrow> (kind_str (re_runtime_kind ext), re_host ext, post_task_id ctx, None, []))
      in [(''runtime.instance_id'', JStr instance_id), (''runtime.kind'', JStr kind), (''runtime.host'', JStr host)] @
         (case provider of Some p \<Rightarrow> [(''runtime.provider'', JStr p)] | None \<Rightarrow> []) @
         (if capabilities = [] then [] else [(''runtime.capabilities'', JArr (map JStr capabilities))]))"

definition runtime_post_response :: "RuntimeExtension \<Rightarrow> PostResponseCtx \<Rightarrow> json" where
  "runtime_post_response ext ctx =
     (if \<not> activated_contains (post_activated ctx) RUNTIME_URI then post_response_body ctx
      else if \<not> is_success (post_status ctx) then post_response_body ctx
      else case post_response_body ctx of
        JObj obj \<Rightarrow>
          let obj' = (if map_of obj ''metadata'' = None then jinsert ''metadata'' (JObj []) obj else obj)
          in (case map_of obj' ''metadata'' of
                Some (JObj metadata) \<Rightarrow>
                  JObj (jinsert ''metadata''
                    (JObj (foldl (\<lambda>m (k, v). jinsert k v m) metadata (runtime_entries ext ctx))) obj')
              | _ \<Rightarrow> JObj obj')
      | body \<Rightarrow> body)"

subsection \<open>HITL prompt envelopes\<close>

definition HITL_URI :: string where "HITL_URI = ''https://agentic-sandbox.aiwg.io/extensions/hitl-prompt/v1''"

definition REQUIRED_ENVELOPE_KEYS :: "string list" where
  "REQUIRED_ENVELOPE_KEYS = [''prompt_id'', ''prompt'', ''response_schema'']"

datatype hitl_warning = MissingKey string | MissingEnvelope

definition as_str :: "json \<Rightarrow> string option" where
  "as_str j = (case j of JStr s \<Rightarrow> Some s | _ \<Rightarrow> None)"

definition hitl_post_response :: "PostResponseCtx \<Rightarrow> hitl_warning list" where
  "hitl_post_response ctx =
     (if \<not> activated_contains (post_activated ctx) HITL_URI then []
      else if \<not> is_success (post_status ctx) then []
      else
        let body = post_response_body ctx;
            state = (case Option.bind (Option.bind (jget ''status'' body) (jget ''state'')) as_str of
                       Some s \<Rightarrow> s | None \<Rightarrow> [])
        in if state \<noteq> ''input-required'' then []
           else case Option.bind (Option.bind (Option.bind (jget ''status'' body) (jget ''message''))
                       (jget ''metadata'')) (jget HITL_URI) of
             Some (JObj env) \<Rightarrow>
               map MissingKey (filter (\<lambda>k. map_of env k = None) REQUIRED_ENVELOPE_KEYS)
           | _ \<Rightarrow> [MissingEnvelope])"

fun check_required :: "(string \<times> json) list \<Rightarrow> json list \<Rightarrow> string + unit" where
  "check_required payload [] = Inr ()"
| "check_required payload (v # vs) =
     (case as_str v of
        Some key \<Rightarrow> if map_of payload key = None then Inl (''response payload missing required property '' @ key)
                    else check_required payload vs
      | None \<Rightarrow> check_required payload vs)"

fun check_additional :: "(string \<times> json) list \<Rightarrow> string list \<Rightarrow> string + unit" where
  "check_additional properties [] = Inr ()"
| "check_additional properties (key # keys) =
     (if map_of properties key = None
      then Inl (''additional property '' @ [CHR 0x27] @ key @ [CHR 0x27] @ '' is not permitted'')
      else check_additional properties keys)"

definition type_error :: "string option \<Rightarrow> json \<Rightarrow> string option" where
  "type_error ty value =
     (if ty = Some ''boolean'' \<and> (case value of JBool _ \<Rightarrow> False | _ \<Rightarrow> True) then Some ''boolean''
      else if ty = Some ''string'' \<and> (case value of JStr _ \<Rightarrow> False | _ \<Rightarrow> True) then Some ''string''
      else if ty = Some ''object'' \<and> (case value of JObj _ \<Rightarrow> False | _ \<Rightarrow> True) then Some ''object''
      else if ty = Some ''array'' \<and> (case value of JArr _ \<Rightarrow> False | _ \<Rightarrow> True) then Some ''array''
      else None)"

fun check_types :: "(string \<times> json) list \<Rightarrow> (string \<times> json) list \<Rightarrow> string + unit" where
  "check_types payload [] = Inr ()"
| "check_types payload ((key, prop_schema) # props) =
     (case map_of payload key of
        None \<Rightarrow> check_types payload props
      | Some value \<Rightarrow>
          (case type_error (Option.bind (jget ''type'' prop_schema) as_str) value of
             Some ty \<Rightarrow> Inl (''expected '' @ ty @ '' at /'' @ key)
           | None \<Rightarrow> check_types payload props))"

definition validate_response_schema :: "json \<Rightarrow> json \<Rightarrow> string + unit" where
  "validate_response_schema schema payload =
     (if Option.bind (jget ''type'' schema) as_str \<noteq> Some ''object'' then Inl ''response_schema type must be object''
      else case payload of
        JObj obj \<Rightarrow>
          let properties = (case jget ''properties'' schema of Some (JObj p) \<Rightarrow> p | _ \<Rightarrow> [])
          in and_then (case jget ''required'' schema of Some (JArr r) \<Rightarrow> check_required obj r | _ \<Rightarrow> Inr ()) (\<lambda>_.
             and_then (if jget ''additionalProperties'' schema = Some (JBool False)
                       then check_additional properties (map fst obj) else Inr ()) (\<lambda>_.
               check_types obj properties))
      | _ \<Rightarrow> Inl ''response payload.payload must be an object'')"

definition validate_hitl_response :: "json \<Rightarrow> json \<Rightarrow> string + unit" where
  "validate_hitl_response stored_envelope response_payload =
     and_then (ok_or ''stored envelope missing prompt_id''
       (Option.bind (jget ''prompt_id'' stored_envelope) as_str)) (\<lambda>env_pid.
     and_then (case response_payload of JObj o' \<Rightarrow> Inr o' | _ \<Rightarrow> Inl ''response payload must be an object'') (\<lambda>resp_obj.
     and_then (ok_or ''response payload missing prompt_id''
       (Option.bind (map_of resp_obj ''prompt_id'') as_str)) (\<lambda>resp_pid.
       if env_pid \<noteq> resp_pid
       then Inl (''prompt_id mismatch: envelope='' @ env_pid @ '', response='' @ resp_pid)
       else and_then (ok_or ''response payload missing payload'' (map_of resp_obj ''payload'')) (\<lambda>payload.
            and_then (ok_or ''stored envelope missing response_schema'' (jget ''response_schema'' stored_envelope))
              (\<lambda>schema. validate_response_schema schema payload)))))"


subsection \<open>Multi-tenant and PTY extensions\<close>

definition TENANT_URI :: string where "TENANT_URI = ''https://agentic-sandbox.aiwg.io/extensions/multi-tenant/v1''"
definition PTY_URI :: string where "PTY_URI = ''https://agentic-sandbox.aiwg.io/extensions/pty-extensions/v1''"

text \<open>The outcome of the hook and the tenant id recorded on the tracing span.\<close>

definition tenant_pre_request :: "PreRequestCtx \<Rightarrow> ExtensionOutcome \<times> string option" where
  "tenant_pre_request ctx =
     (if \<not> activated_contains (pre_activated ctx) TENANT_URI then (Continue, None)
      else (Continue, Some (case Option.bind (Option.bind (jget ''metadata'' (pre_request_body ctx)) (jget ''tenant_id'')) as_str of
              Some t \<Rightarrow> t | None \<Rightarrow> ''default'')))"

subsection \<open>Registry\<close>

datatype ExtensionHandler =
    RuntimeHandler RuntimeExtension
  | HitlPromptHandler
  | IdempotencyHandler
  | FlowGraphHandler
  | MultiTenantHandler
  | PtyHandler

type_synonym ExtensionRegistry = "ExtensionHandler list"

fun handler_uri :: "ExtensionHandler \<Rightarrow> string" where
  "handler_uri (RuntimeHandler _) = RUNTIME_URI"
| "handler_uri HitlPromptHandler = HITL_URI"
| "handler_uri IdempotencyHandler = IDEMPOTENCY_URI"
| "handler_uri FlowGraphHandler = FLOW_URI"
| "handler_uri MultiTenantHandler = TENANT_URI"
| "handler_uri PtyHandler = PTY_URI"

fun handler_required :: "ExtensionHandler \<Rightarrow> bool" where
  "handler_required (RuntimeHandler _) = True"
| "handler_required _ = False"

text \<open>The shared idempotency cache is threaded through the hooks.\<close>

fun handler_pre_request :: "idem_env \<Rightarrow> timestamp \<Rightarrow> IdempotencyCache \<Rightarrow> PreRequestCtx \<Rightarrow> ExtensionHandler \<Rightarrow>
  ExtensionOutcome \<times> IdempotencyCache" where
  "handler_pre_request env now c ctx IdempotencyHandler = idem_pre_request env now c ctx"
| "handler_pre_request env now c ctx FlowGraphHandler = (flow_pre_request ctx, c)"
| "handler_pre_request env now c ctx MultiTenantHandler = (fst (tenant_pre_request ctx), c)"
| "handler_pre_request env now c ctx _ = (Continue, c)"

fun handler_post_response :: "PostResponseCtx \<Rightarrow> ExtensionHandler \<Rightarrow> json" where
  "handler_post_response ctx (RuntimeHandler ext) = runtime_post_response ext ctx"
| "handler_post_response ctx _ = post_response_body ctx"

definition register :: "ExtensionRegistry \<Rightarrow> ExtensionHandler \<Rightarrow> ExtensionRegistry" where
  "register r h = r @ [h]"

fun registry_pre_request :: "idem_env \<Rightarrow> timestamp \<Rightarrow> IdempotencyCache \<Rightarrow> PreRequestCtx \<Rightarrow> ExtensionRegistry \<Rightarrow>
  ExtensionOutcome \<times> IdempotencyCache" where
  "registry_pre_request env now c ctx [] = (Continue, c)"
| "registry_pre_request env now c ctx (h # hs) =
     (case handler_pre_request env now c ctx h of
        (Continue, c') \<Rightarrow> registry_pre_request env now c' ctx hs
      | other \<Rightarrow> other)"

definition registry_post_response :: "PostResponseCtx \<Rightarrow> ExtensionRegistry \<Rightarrow> json" where
  "registry_post_response ctx hs =
     post_response_body (foldl (\<lambda>x h. x\<lparr>post_response_body := handler_post_response x h\<rparr>) ctx hs)"

definition required_body :: "string \<Rightarrow> json" where
  "required_body uri = jobj
     [(''type'', JStr ''https://agentic-sandbox.aiwg.io/errors/extension-required''),
      (''title'', JStr ''Required extension not activated''), (''status'', JInt 400),
      (''code'', JStr ''extension.required_not_activated''),
      (''detail'', JStr (''Required extension '' @ uri @ '' not in A2A-Extensions header''))]"

fun enforce_required :: "ExtensionRegistry \<Rightarrow> ActivatedExtensions \<Rightarrow> json + unit" where
  "enforce_required [] activated = Inr ()"
| "enforce_required (h # hs) activated =
     (if handler_required h \<and> \<not> activated_contains activated (handler_uri h)
      then Inl (required_body (handler_uri h)) else enforce_required hs activated)"

definition echo_activated :: "ExtensionRegistry \<Rightarrow> ActivatedExtensions \<Rightarrow> ActivatedExtensions" where
  "echo_activated hs activated =
     (let registered = map handler_uri hs
      in filter (\<lambda>u. list_ex (\<lambda>r. eq_ignore_ascii_case r u) registered) activated)"

definition build_default_registry :: "RuntimeKind \<Rightarrow> string \<Rightarrow> string \<Rightarrow> ExtensionRegistry" where
  "build_default_registry kind loadout host =
     foldl register []
       [RuntimeHandler \<lparr>re_runtime_kind = kind, re_loadout = loadout, re_host = host\<rparr>, HitlPromptHandler,
        IdempotencyHandler, FlowGraphHandler, MultiTenantHandler, PtyHandler]"

text \<open>\<open>nxt\<close> is the response of the routes behind the middleware, \<open>conformance\<close> the environment switch.\<close>

definition require_extensions_middleware ::
  "(string \<Rightarrow> string option) \<Rightarrow> bool \<Rightarrow> ExtensionRegistry \<Rightarrow> string list \<Rightarrow> u16 \<times> json \<Rightarrow> u16 \<times> json" where
  "require_extensions_middleware to_str conformance registry values nxt =
     (if conformance then nxt
      else case enforce_required registry (from_headers to_str values) of
        Inl body \<Rightarrow> (400, body)
      | Inr _ \<Rightarrow> nxt)"

subsection \<open>Laws of the registry\<close>

lemmas extension_uris = RUNTIME_URI_def HITL_URI_def IDEMPOTENCY_URI_def FLOW_URI_def TENANT_URI_def PTY_URI_def

lemma default_registry_handlers:
  "build_default_registry kind loadout host =
     [RuntimeHandler \<lparr>re_runtime_kind = kind, re_loadout = loadout, re_host = host\<rparr>, HitlPromptHandler,
      IdempotencyHandler, FlowGraphHandler, MultiTenantHandler, PtyHandler]"
  by (simp add: build_default_registry_def register_def)

lemma enforce_required_iff:
  "enforce_required hs activated = Inr () \<longleftrightarrow>
     (\<forall>h \<in> set hs. handler_required h \<longrightarrow> activated_contains activated (handler_uri h))"
  by (induction hs) auto

lemma registry_pre_request_append:
  "registry_pre_request env now c ctx (hs @ hs') =
     (case registry_pre_request env now c ctx hs of
        (Continue, c') \<Rightarrow> registry_pre_request env now c' ctx hs'
      | other \<Rightarrow> other)"
  by (induction hs arbitrary: c) (auto split: prod.splits ExtensionOutcome.splits)

lemma tenant_continues [simp]: "fst (tenant_pre_request ctx) = Continue"
  by (simp add: tenant_pre_request_def)

lemma default_pre_request:
  "registry_pre_request env now c ctx (build_default_registry kind loadout host) =
     (case idem_pre_request env now c ctx of
        (Continue, c') \<Rightarrow> (flow_pre_request ctx, c')
      | other \<Rightarrow> other)"
  by (simp add: default_registry_handlers split: prod.splits ExtensionOutcome.splits)

lemma runtime_entries_keys: "k \<in> fst ` set (runtime_entries ext ctx) \<Longrightarrow>
   k \<in> {''runtime.instance_id'', ''runtime.kind'', ''runtime.host'', ''runtime.provider'', ''runtime.capabilities''}"
  by (auto simp: runtime_entries_def Let_def split: option.splits if_splits prod.splits)

lemma runtime_post_response_other:
  assumes "k \<noteq> ''metadata''"
  shows "jget k (runtime_post_response ext ctx) = jget k (post_response_body ctx)"
  using assms
  by (auto simp: runtime_post_response_def jget_def Let_def split: json.splits option.splits)

lemma runtime_post_response_metadata:
  assumes "k \<notin> {''runtime.instance_id'', ''runtime.kind'', ''runtime.host'', ''runtime.provider'', ''runtime.capabilities''}"
  shows "Option.bind (jget ''metadata'' (runtime_post_response ext ctx)) (jget k) =
         Option.bind (jget ''metadata'' (post_response_body ctx)) (jget k)"
proof -
  have "k \<notin> fst ` set (rev (runtime_entries ext ctx))"
    using assms runtime_entries_keys [of k ext ctx] by auto
  then have "map_of (rev (runtime_entries ext ctx)) k = None"
    by (simp only: map_of_eq_None_iff) simp
  then show ?thesis
    by (auto simp: runtime_post_response_def jget_def Let_def map_of_jinsert_fold split: json.splits option.splits)
qed

lemma registry_post_response_default:
  "registry_post_response ctx (build_default_registry kind loadout host) =
     runtime_post_response \<lparr>re_runtime_kind = kind, re_loadout = loadout, re_host = host\<rparr> ctx"
  by (simp add: registry_post_response_def default_registry_handlers)

text \<open>What a response payload has to satisfy for a schema of the supported subset.\<close>

definition schema_type :: "json \<Rightarrow> string option" where
  "schema_type schema = Option.bind (jget ''type'' schema) as_str"

definition has_type :: "string option \<Rightarrow> json \<Rightarrow> bool" where
  "has_type ty v \<longleftrightarrow>
     (ty = Some ''boolean'' \<longrightarrow> (\<exists>b. v = JBool b)) \<and> (ty = Some ''string'' \<longrightarrow> (\<exists>s. v = JStr s)) \<and>
     (ty = Some ''object'' \<longrightarrow> (\<exists>m. v = JObj m)) \<and> (ty = Some ''array'' \<longrightarrow> (\<exists>xs. v = JArr xs))"

definition conforms :: "json \<Rightarrow> (string \<times> json) list \<Rightarrow> bool" where
  "conforms schema obj \<longleftrightarrow>
     schema_type schema = Some ''object'' \<and>
     (\<forall>req k. jget ''required'' schema = Some (JArr req) \<longrightarrow> JStr k \<in> set req \<longrightarrow> map_of obj k \<noteq> None) \<and>
     (let props = (case jget ''properties'' schema of Some (JObj p) \<Rightarrow> p | _ \<Rightarrow> [])
      in (jget ''additionalProperties'' schema = Some (JBool False) \<longrightarrow> fst ` set obj \<subseteq> fst ` set props) \<and>
         (\<forall>(k, s) \<in> set props. \<forall>v. map_of obj k = Some v \<longrightarrow> has_type (schema_type s) v))"

lemma as_str_Some: "as_str j = Some s \<longleftrightarrow> j = JStr s"
  by (simp add: as_str_def split: json.splits)

lemma check_required_ok: "check_required obj vs = Inr () \<longleftrightarrow> (\<forall>k. JStr k \<in> set vs \<longrightarrow> map_of obj k \<noteq> None)"
  by (induction vs) (auto simp: as_str_def split: option.splits json.splits)

lemma check_additional_ok: "check_additional props ks = Inr () \<longleftrightarrow> set ks \<subseteq> fst ` set props"
  by (induction ks) (auto simp: map_of_eq_None_iff)

lemma type_error_None: "type_error ty v = None \<longleftrightarrow> has_type ty v"
  by (cases v) (auto simp: type_error_def has_type_def)

lemma check_types_ok:
  "check_types obj props = Inr () \<longleftrightarrow>
     (\<forall>(k, s) \<in> set props. \<forall>v. map_of obj k = Some v \<longrightarrow> has_type (schema_type s) v)"
proof (induction props)
  case (Cons p props)
  then show ?case
    using type_error_None [of "schema_type (snd p)" "the (map_of obj (fst p))"]
    by (cases p) (auto simp: schema_type_def split: option.splits)
qed simp

lemma validate_response_schema_ok:
  "validate_response_schema schema payload = Inr () \<longleftrightarrow> (\<exists>obj. payload = JObj obj \<and> conforms schema obj)"
proof (cases payload)
  case (JObj obj)
  have "(case jget ''required'' schema of Some (JArr r) \<Rightarrow> check_required obj r | _ \<Rightarrow> Inr ()) = Inr () \<longleftrightarrow>
      (\<forall>req k. jget ''required'' schema = Some (JArr req) \<longrightarrow> JStr k \<in> set req \<longrightarrow> map_of obj k \<noteq> None)"
    by (auto simp: check_required_ok split: option.splits json.splits)
  then show ?thesis
    by (simp add: JObj validate_response_schema_def conforms_def schema_type_def Let_def and_then_Inr
        check_additional_ok check_types_ok)
qed (auto simp: validate_response_schema_def)

subsection \<open>Properties\<close>

text \<open>
  With the default registry, a mutating request is let through by the middleware exactly when the
  runtime extension is activated (400 otherwise); the hooks then answer it from the idempotency cache
  whenever the cache replays or refuses it, and only otherwise hand it to the flow-graph validation,
  whose verdict is final.
\<close>

theorem default_registry_request:
  "require_extensions_middleware to_str False (build_default_registry kind loadout host) values nxt =
     (if activated_contains (from_headers to_str values) RUNTIME_URI then nxt else (400, required_body RUNTIME_URI)) \<and>
   registry_pre_request env now c ctx (build_default_registry kind loadout host) =
     (if fst (idem_pre_request env now c ctx) = Continue
      then (flow_pre_request ctx, snd (idem_pre_request env now c ctx))
      else idem_pre_request env now c ctx)"
proof -
  have "enforce_required (build_default_registry kind loadout host) activated =
      (if activated_contains activated RUNTIME_URI then Inr () else Inl (required_body RUNTIME_URI))" for activated
    by (simp add: default_registry_handlers)
  then show ?thesis
    by (simp add: require_extensions_middleware_def default_pre_request split: prod.splits ExtensionOutcome.splits)
qed

text \<open>
  The response hooks of the default registry add or replace only the \<open>runtime.*\<close> entries of the
  response metadata: every other member of the body and of its metadata is the one of the handler, and
  a response that is not a success passes unchanged.
\<close>

theorem default_registry_response:
  assumes "k \<noteq> ''metadata''"
    and "m \<notin> {''runtime.instance_id'', ''runtime.kind'', ''runtime.host'', ''runtime.provider'', ''runtime.capabilities''}"
  shows "jget k (registry_post_response ctx (build_default_registry kind loadout host)) = jget k (post_response_body ctx) \<and>
    Option.bind (jget ''metadata'' (registry_post_response ctx (build_default_registry kind loadout host))) (jget m) =
      Option.bind (jget ''metadata'' (post_response_body ctx)) (jget m) \<and>
    (is_success (post_status ctx) \<or>
      registry_post_response ctx (build_default_registry kind loadout host) = post_response_body ctx)"
  using runtime_post_response_other [OF assms(1)] runtime_post_response_metadata [OF assms(2)]
  by (simp add: registry_post_response_default runtime_post_response_def)

definition demo_response :: "u16 \<Rightarrow> PostResponseCtx" where
  "demo_response status = \<lparr>post_activated = [RUNTIME_URI], post_task_id = ''t'', post_status = status,
     post_response_body = JObj [(''id'', JStr ''t''), (''metadata'', JObj [(''a'', JInt 1)])], post_instance = None\<rparr>"

theorem default_registry_response_witness:
  "jget ''id'' (registry_post_response (demo_response 200) (build_default_registry Vm ''l'' ''h'')) = Some (JStr ''t'') \<and>
   Option.bind (jget ''metadata'' (registry_post_response (demo_response 200) (build_default_registry Vm ''l'' ''h'')))
     (jget ''a'') = Some (JInt 1) \<and>
   registry_post_response (demo_response 500) (build_default_registry Vm ''l'' ''h'') = post_response_body (demo_response 500)"
  using default_registry_response [of "''id''" "''a''" "demo_response 200" Vm "''l''" "''h''"]
    default_registry_response [of "''id''" "''a''" "demo_response 500" Vm "''l''" "''h''"]
  by (simp add: demo_response_def jget_def is_success_def)


end
