(* ===== verification/Task_Handlers.thy ===== *)
theory Task_Handlers
  imports A2a_Extensions
begin

section \<open>The A2A task handlers (\<open>handlers/\<close>, \<open>bindings/rest.rs\<close>, restart recovery of \<open>store/task_store.rs\<close>)\<close>

text \<open>
  The handlers that read, list, cancel and checkpoint tasks, and the recovery of graph tasks after a
  restart. A handler maps the application state and the decoded request to a response and the next
  state; \<open>None\<close> stands for a panic. Bodies are JSON values (their text is the JSON library's), error
  values are rendered by the parameter \<open>he_err\<close>, and URL-safe base64 is the pair \<open>he_b64_encode\<close>,
  \<open>he_b64_decode\<close>.
\<close>

subsection \<open>Responses and application state\<close>

record Response =
  rs_status :: u16
  rs_headers :: "(string \<times> string) list"
  rs_body :: "json option"

record DeliveryEvent =
  de_task_id :: string
  de_status_event :: json

text \<open>The store is the one the idempotency cache wraps; the delivery channel is its queue.\<close>

record AppState =
  as_idem :: IdempotencyCache
  as_extensions :: ExtensionRegistry
  as_delivery :: "DeliveryEvent list"

abbreviation as_store :: "AppState \<Rightarrow> TaskStore" where "as_store st \<equiv> ca_store (as_idem st)"

definition set_store :: "AppState \<Rightarrow> TaskStore \<Rightarrow> AppState" where
  "set_store st s = st\<lparr>as_idem := (as_idem st)\<lparr>ca_store := s\<rparr>\<rparr>"

record handler_env =
  he_idem :: idem_env
  he_err :: "store_error \<Rightarrow> string"
  he_newest :: "task_cols list \<Rightarrow> task_cols list"
  he_artifacts :: "artifact_cols list \<Rightarrow> artifact_cols list"
  he_b64_encode :: "string \<Rightarrow> string"
  he_b64_decode :: "string \<Rightarrow> string option"

abbreviation he_codec :: "handler_env \<Rightarrow> store_codec" where "he_codec env \<equiv> idem_codec (he_idem env)"

abbreviation rfc3339 :: "handler_env \<Rightarrow> timestamp \<Rightarrow> string" where "rfc3339 env \<equiv> sc_rfc3339 (he_codec env)"

definition CHANNEL_CAPACITY :: nat where "CHANNEL_CAPACITY = 1024"

definition try_send :: "AppState \<Rightarrow> DeliveryEvent \<Rightarrow> AppState" where
  "try_send st ev =
     (if length (as_delivery st) < CHANNEL_CAPACITY then st\<lparr>as_delivery := as_delivery st @ [ev]\<rparr> else st)"

definition error_response ::
  "u16 \<Rightarrow> string \<Rightarrow> string \<Rightarrow> string \<Rightarrow> string \<Rightarrow> string option \<Rightarrow> string option \<Rightarrow> Response" where
  "error_response status type_uri title detail code trace_id instance_id =
     \<lparr>rs_status = status, rs_headers = [(''content-type'', ''application/problem+json'')],
      rs_body = Some (jobj [(''type'', JStr type_uri), (''title'', JStr title), (''status'', JInt (uint status)),
        (''detail'', JStr detail), (''code'', JStr code),
        (''trace_id'', JStr (case trace_id of Some t \<Rightarrow> t | None \<Rightarrow> [])),
        (''instance_id'', JStr (case instance_id of Some i \<Rightarrow> i | None \<Rightarrow> []))])\<rparr>"

definition json_response :: "json \<Rightarrow> Response" where
  "json_response body = \<lparr>rs_status = 200, rs_headers = [(''content-type'', ''application/json'')], rs_body = Some body\<rparr>"

definition task_not_found :: "string \<Rightarrow> string \<Rightarrow> Response" where
  "task_not_found instance_id detail =
     error_response 404 ''https://agentic-sandbox.aiwg.io/errors/task-not-found'' ''Task not found'' detail
       ''task.not_found'' None (Some instance_id)"

definition internal_error :: "string \<Rightarrow> string \<Rightarrow> Response" where
  "internal_error instance_id detail =
     error_response 500 ''https://agentic-sandbox.aiwg.io/errors/internal'' ''Internal server error'' detail
       ''internal.error'' None (Some instance_id)"

definition quoted :: "string \<Rightarrow> string" where "quoted s = [CHR 0x27] @ s @ [CHR 0x27]"

subsection \<open>Task rows on the wire\<close>

definition jentry_or :: "string \<Rightarrow> json \<Rightarrow> (string \<times> json) list \<Rightarrow> (string \<times> json) list" where
  "jentry_or k v m = (if map_of m k = None then jinsert k v m else m)"

definition status_extras :: "handler_env \<Rightarrow> TaskRow \<Rightarrow> (string \<times> json) list \<Rightarrow> (string \<times> json) list" where
  "status_extras env row m =
     (let m1 = (case tr_fail_kind row of
                  Some f \<Rightarrow> jinsert ''fail_kind'' (JStr (fail_as_str f)) m | None \<Rightarrow> m)
      in case tr_terminal_at row of
           Some t \<Rightarrow> jinsert ''terminal_at'' (JStr (rfc3339 env t)) m1 | None \<Rightarrow> m1)"

definition wire_status :: "handler_env \<Rightarrow> TaskRow \<Rightarrow> json" where
  "wire_status env row =
     (let state = JStr (state_as_str (tr_state row));
          stamp = JStr (rfc3339 env (tr_updated_at row))
      in case tr_status_json row of
           JObj obj \<Rightarrow> JObj (status_extras env row (jentry_or ''timestamp'' stamp (jinsert ''state'' state obj)))
         | _ \<Rightarrow> JObj (status_extras env row (jinsert ''timestamp'' stamp (jinsert ''state'' state []))))"

definition task_row_to_a2a :: "handler_env \<Rightarrow> TaskRow \<Rightarrow> json" where
  "task_row_to_a2a env row =
     (let base = [(''id'', JStr (tr_task_id row)), (''kind'', JStr ''task''), (''status'', wire_status env row)];
          ctx = (case tr_context_id row of Some c \<Rightarrow> [(''contextId'', JStr c)] | None \<Rightarrow> []);
          rest = (case tr_metadata_json row of
             None \<Rightarrow> []
           | Some meta \<Rightarrow>
               let internal = (case meta of JObj m \<Rightarrow> map_of m ''_a2a'' | _ \<Rightarrow> None);
                   public = (case meta of JObj m \<Rightarrow> JObj (jremove ''_a2a'' m) | _ \<Rightarrow> meta);
                   carry = (\<lambda>k. case Option.bind internal (jget k) of Some v \<Rightarrow> [(k, v)] | None \<Rightarrow> [])
               in carry ''history'' @ carry ''artifacts'' @
                  (case public of JObj (_ # _) \<Rightarrow> [(''metadata'', public)] | _ \<Rightarrow> []))
      in jobj (base @ ctx @ rest))"

definition parse_state :: "string \<Rightarrow> TaskState option" where
  "parse_state s = (case state_from_str s of Inr st \<Rightarrow> Some st | Inl _ \<Rightarrow> None)"

subsection \<open>\<open>tasks/get\<close> and artifacts\<close>

definition trim_history :: "usize option \<Rightarrow> json \<Rightarrow> json" where
  "trim_history limit task =
     (case limit of
        None \<Rightarrow> task
      | Some n \<Rightarrow>
          (case task of
             JObj m \<Rightarrow>
               let m1 = map (\<lambda>(k, v). (k, if k = ''history''
                          then (case v of JArr xs \<Rightarrow> JArr (drop (length xs - unat n) xs) | _ \<Rightarrow> v) else v)) m
               in JObj (if n = 0 then jremove ''history'' m1 else m1)
           | _ \<Rightarrow> task))"

definition get_task_handler :: "handler_env \<Rightarrow> AppState \<Rightarrow> string \<Rightarrow> string \<Rightarrow> usize option \<Rightarrow> Response" where
  "get_task_handler env st instance_id tid history_length =
     (case get_task_for_instance (he_codec env) (as_store st) instance_id tid of
        Inr (Some row) \<Rightarrow> json_response (trim_history history_length (task_row_to_a2a env row))
      | Inr None \<Rightarrow> task_not_found instance_id (''Task '' @ quoted tid @ '' not found'')
      | Inl e \<Rightarrow> internal_error instance_id (''Failed to read task: '' @ he_err env e))"

definition ensure_task_visible :: "handler_env \<Rightarrow> AppState \<Rightarrow> string \<Rightarrow> string \<Rightarrow> Response option" where
  "ensure_task_visible env st instance_id tid =
     (case get_task_for_instance (he_codec env) (as_store st) instance_id tid of
        Inr (Some _) \<Rightarrow> None
      | Inr None \<Rightarrow> Some (task_not_found instance_id (''Task '' @ tid @ '' not found''))
      | Inl e \<Rightarrow> Some (internal_error instance_id (''Failed to read task: '' @ he_err env e)))"

definition artifact_to_json :: "handler_env \<Rightarrow> ArtifactRow \<Rightarrow> json" where
  "artifact_to_json env row =
     jobj [(''artifact_id'', JStr (ar_artifact_id row)), (''task_id'', JStr (ar_task_id row)),
           (''created_at'', JStr (rfc3339 env (ar_created_at row))), (''artifact'', ar_artifact_json row)]"

definition artifacts_list :: "handler_env \<Rightarrow> AppState \<Rightarrow> string \<Rightarrow> string \<Rightarrow> Response" where
  "artifacts_list env st instance_id tid =
     (case ensure_task_visible env st instance_id tid of
        Some resp \<Rightarrow> resp
      | None \<Rightarrow>
          (case list_artifacts (he_artifacts env) (he_codec env) (as_store st) tid of
             Inr rows \<Rightarrow> json_response (jobj [(''task_id'', JStr tid),
               (''artifacts'', JArr (map (artifact_to_json env) rows))])
           | Inl e \<Rightarrow> internal_error instance_id (''Failed to list task artifacts: '' @ he_err env e)))"

definition artifacts_get :: "handler_env \<Rightarrow> AppState \<Rightarrow> string \<Rightarrow> string \<Rightarrow> string \<Rightarrow> Response" where
  "artifacts_get env st instance_id tid artifact_id =
     (case ensure_task_visible env st instance_id tid of
        Some resp \<Rightarrow> resp
      | None \<Rightarrow>
          (case get_artifact (he_codec env) (as_store st) tid artifact_id of
             Inr (Some row) \<Rightarrow> json_response (artifact_to_json env row)
           | Inr None \<Rightarrow> error_response 404 ''https://agentic-sandbox.aiwg.io/errors/artifact-not-found''
               ''Artifact not found'' (''Artifact '' @ artifact_id @ '' not found for task '' @ tid)
               ''artifact.not_found'' None (Some instance_id)
           | Inl e \<Rightarrow> internal_error instance_id (''Failed to read task artifact: '' @ he_err env e)))"


subsection \<open>\<open>tasks/list\<close>\<close>

definition DEFAULT_LIMIT :: u64 where "DEFAULT_LIMIT = 25"
definition MAX_LIMIT :: u64 where "MAX_LIMIT = 100"

record ListQuery =
  lq_limit :: "u64 option"
  lq_cursor :: "string option"
  lq_state :: "string option"

definition timestamp_millis :: "timestamp \<Rightarrow> int" where "timestamp_millis t = t div 10 ^ 6"

definition encode_cursor :: "handler_env \<Rightarrow> int \<Rightarrow> string" where
  "encode_cursor env ms = he_b64_encode env (i64_to_string ms)"

definition decode_cursor :: "handler_env \<Rightarrow> string \<Rightarrow> int option" where
  "decode_cursor env s = Option.bind (he_b64_decode env s) parse_i64"

definition page_limit :: "u64 option \<Rightarrow> u64" where
  "page_limit l = max 1 (min MAX_LIMIT (case l of Some n \<Rightarrow> n | None \<Rightarrow> DEFAULT_LIMIT))"

definition invalid_params :: "string \<Rightarrow> string \<Rightarrow> Response" where
  "invalid_params instance_id detail =
     error_response 400 ''https://agentic-sandbox.aiwg.io/errors/invalid-params'' ''Invalid params'' detail
       ''request.invalid_params'' None (Some instance_id)"

definition list_page :: "u64 \<Rightarrow> int option \<Rightarrow> TaskRow list \<Rightarrow> TaskRow list" where
  "list_page limit cursor_ms rows =
     take (unat limit)
       (case cursor_ms of
          Some ms \<Rightarrow> filter (\<lambda>r. timestamp_millis (tr_created_at r) < ms) rows
        | None \<Rightarrow> rows)"

definition next_cursor :: "handler_env \<Rightarrow> u64 \<Rightarrow> TaskRow list \<Rightarrow> string option" where
  "next_cursor env limit page =
     (if of_nat (length page) = limit \<and> page \<noteq> []
      then Some (encode_cursor env (timestamp_millis (tr_created_at (last page)))) else None)"

definition list_filter :: "string \<Rightarrow> TaskState option \<Rightarrow> u64 \<Rightarrow> ListFilter" where
  "list_filter instance_id state limit =
     \<lparr>flt_state = state, flt_limit = Some (max (limit * 4) (limit + 10)), flt_include_terminal = True,
      flt_instance_id = Some instance_id\<rparr>"

definition list_tasks_handler :: "handler_env \<Rightarrow> AppState \<Rightarrow> string \<Rightarrow> ListQuery \<Rightarrow> Response" where
  "list_tasks_handler env st instance_id query =
     (let limit = page_limit (lq_limit query);
          state_filter = map_option parse_state (lq_state query)
      in if state_filter = Some None
         then invalid_params instance_id (''Unknown task state: '' @ the (lq_state query))
         else
           let cursor = map_option (decode_cursor env) (lq_cursor query)
           in if cursor = Some None
              then invalid_params instance_id ''Cursor must be base64url-encoded epoch milliseconds''
              else
                (case list_tasks (he_newest env) (he_codec env) (as_store st)
                        (list_filter instance_id (Option.bind state_filter id) limit) of
                   Inl e \<Rightarrow> internal_error instance_id (''Failed to list tasks: '' @ he_err env e)
                 | Inr rows \<Rightarrow>
                     let page = list_page limit (Option.bind cursor id) rows;
                         body = [(''tasks'', JArr (map (task_row_to_a2a env) page))]
                     in json_response (jobj (body @
                          (case next_cursor env limit page of Some c \<Rightarrow> [(''next_cursor'', JStr c)] | None \<Rightarrow> [])))))"

subsection \<open>\<open>tasks/cancel\<close>\<close>

definition canceled_row :: "handler_env \<Rightarrow> timestamp \<Rightarrow> TaskRow \<Rightarrow> TaskRow option" where
  "canceled_row env now row =
     map_option (\<lambda>meta. row\<lparr>tr_state := Canceled, tr_updated_at := now, tr_terminal_at := Some now,
         tr_status_json := jobj [(''state'', JStr (state_as_str Canceled)), (''timestamp'', JStr (rfc3339 env now)),
           (''terminal_reason'', JStr ''caller_cancellation'')],
         tr_metadata_json := meta\<rparr>)
       (latest_event (tr_metadata_json row)
          (terminal_event (rfc3339 env) ''canceled'' (tr_created_at row) now
             (jobj [(''status'', JStr ''not_applicable''), (''reason'', JStr ''caller canceled task'')]) (JArr [])
             (Some ''caller_cancellation'')))"

definition jindex :: "string \<Rightarrow> json \<Rightarrow> json" where
  "jindex k j = (case jget k j of Some v \<Rightarrow> v | None \<Rightarrow> JNull)"

definition cancel_task :: "handler_env \<Rightarrow> timestamp \<Rightarrow> AppState \<Rightarrow> string \<Rightarrow> string \<Rightarrow> (Response \<times> AppState) option" where
  "cancel_task env now st instance_id tid =
     (case get_task_for_instance (he_codec env) (as_store st) instance_id tid of
        Inr None \<Rightarrow> Some (task_not_found instance_id (''Task '' @ quoted tid @ '' not found''), st)
      | Inl e \<Rightarrow> Some (internal_error instance_id (''Failed to read task: '' @ he_err env e), st)
      | Inr (Some row) \<Rightarrow>
          if state_is_terminal (tr_state row)
          then Some (error_response 409 ''https://agentic-sandbox.aiwg.io/errors/task-not-cancelable''
                 ''Task not cancelable''
                 (''Task '' @ quoted tid @ '' is in terminal state '' @ quoted (state_as_str (tr_state row)))
                 ''task.not_cancelable'' None (Some instance_id), st)
          else Option.bind (canceled_row env now row) (\<lambda>row'.
            case upsert_task (he_codec env) (as_store st) row' of
              Inl e \<Rightarrow> Some (internal_error instance_id (''Failed to persist canceled task: '' @ he_err env e), st)
            | Inr s' \<Rightarrow>
                let task_json = task_row_to_a2a env row';
                    status_event = jobj [(''kind'', JStr ''task_status''), (''task_id'', JStr (tr_task_id row')),
                      (''status'', jindex ''status'' task_json)]
                in Some (json_response task_json,
                     try_send (set_store st s') \<lparr>de_task_id = tr_task_id row', de_status_event = status_event\<rparr>)))"

subsection \<open>Checkpoint events\<close>

definition is_lower_hex :: "char \<Rightarrow> bool" where
  "is_lower_hex c \<longleftrightarrow> is_ascii_digit c \<or> (CHR ''a'' \<le> c \<and> c \<le> CHR ''f'')"

definition checkpoint_event :: "handler_env \<Rightarrow> timestamp \<Rightarrow> json \<Rightarrow> string + json" where
  "checkpoint_event env now body =
     and_then (ok_or ''state is required'' (Option.bind (jget ''state'' body) as_str)) (\<lambda>state.
     if state \<notin> {''created'', ''restored'', ''restore_failed''}
     then Inl ''state must be created, restored, or restore_failed''
     else and_then (ok_or ''resumability is required'' (Option.bind (jget ''resumability'' body) as_str)) (\<lambda>resumability.
       if resumability \<notin> {''resumable'', ''non_resumable'', ''unknown''} then Inl ''invalid resumability''
       else
         let nonempty = (\<lambda>k. Option.bind (Option.bind (jget k body) as_str) (\<lambda>s. if s = [] then None else Some s));
             event = [(''type'', JStr ''checkpoint''), (''state'', JStr state),
                      (''observed_at'', JStr (rfc3339 env now)), (''resumability'', JStr resumability)]
         in if state = ''restore_failed''
            then and_then (ok_or ''restore_failed requires reason'' (nonempty ''reason''))
                   (\<lambda>reason. Inr (jobj (event @ [(''reason'', JStr reason)])))
            else and_then (ok_or ''checkpoint_id is required'' (nonempty ''checkpoint_id'')) (\<lambda>checkpoint_id.
                 and_then (ok_or ''checkpoint_digest is required''
                   (Option.bind (jget ''checkpoint_digest'' body) as_str)) (\<lambda>digest.
                   if length digest \<noteq> 71 \<or> \<not> starts_with ''sha256:'' digest \<or> \<not> list_all is_lower_hex (drop 7 digest)
                   then Inl ''checkpoint_digest must be lowercase sha256:<64 hex>''
                   else Inr (jobj (event @ [(''checkpoint_id'', JStr checkpoint_id),
                          (''checkpoint_digest'', JStr digest)]))))))"

text \<open>\<open>parsed\<close> is the JSON decoding of the request body, \<open>at_time\<close> and \<open>now\<close> the two clock readings.\<close>

definition graph_checkpoint :: "handler_env \<Rightarrow> timestamp \<Rightarrow> timestamp \<Rightarrow> ActivatedExtensions \<Rightarrow> AppState \<Rightarrow>
  string \<Rightarrow> string \<Rightarrow> string + json \<Rightarrow> (Response \<times> AppState) option" where
  "graph_checkpoint env at_time now activated st instance_id tid parsed =
     (if \<not> activated_contains activated FLOW_URI
      then Some (error_response 400 ''https://agentic-sandbox.aiwg.io/errors/extension-required''
             ''Flow graph extension not activated'' ''checkpoint events require flow-graph/v1 activation''
             ''flow_graph.extension_required'' None (Some instance_id), st)
      else case parsed of
        Inl detail \<Rightarrow> Some (error_response 400 ''https://agentic-sandbox.aiwg.io/errors/invalid-json''
             ''Invalid JSON body'' detail ''request.invalid_json'' None (Some instance_id), st)
      | Inr body \<Rightarrow>
          (case checkpoint_event env at_time body of
             Inl detail \<Rightarrow> Some (error_response 422 ''https://agentic-sandbox.aiwg.io/errors/flow-graph-checkpoint''
               ''Invalid checkpoint event'' detail ''flow_graph.invalid_checkpoint'' None (Some instance_id), st)
           | Inr event \<Rightarrow>
               (case get_task_for_instance (he_codec env) (as_store st) instance_id tid of
                  Inr None \<Rightarrow> Some (task_not_found instance_id (''Task '' @ tid @ '' not found''), st)
                | Inl e \<Rightarrow> Some (internal_error instance_id (he_err env e), st)
                | Inr (Some row) \<Rightarrow>
                    if Option.bind (tr_metadata_json row) (jget FLOW_URI) = None
                    then Some (error_response 409 ''https://agentic-sandbox.aiwg.io/errors/not-a-graph-task''
                           ''Task is not a Flow graph task''
                           ''checkpoint events cannot be attached to an ordinary A2A task''
                           ''flow_graph.not_graph_task'' None (Some instance_id), st)
                    else Option.bind (latest_event (tr_metadata_json row) event) (\<lambda>meta.
                      let row' = row\<lparr>tr_metadata_json := meta, tr_updated_at := now\<rparr>
                      in case upsert_task (he_codec env) (as_store st) row' of
                           Inl e \<Rightarrow> Some (internal_error instance_id (he_err env e), st)
                         | Inr s' \<Rightarrow> Some (json_response (task_row_to_a2a env row'), set_store st s')))))"

subsection \<open>Recovery after a restart\<close>

definition recovered_row :: "store_codec \<Rightarrow> timestamp \<Rightarrow> TaskRow \<Rightarrow> TaskRow option" where
  "recovered_row cd observed_at row =
     map_option (\<lambda>meta. row\<lparr>tr_state := Failed, tr_fail_kind := Some Infrastructure,
         tr_status_json := jobj [(''state'', JStr (state_as_str Failed)),
           (''timestamp'', JStr (sc_rfc3339 cd observed_at)),
           (''summary'', JStr ''management restarted before durable terminal observation''),
           (''terminal_reason'', JStr ''management_restart_unknown'')],
         tr_metadata_json := meta, tr_updated_at := observed_at, tr_terminal_at := Some observed_at\<rparr>)
       (latest_event (tr_metadata_json row)
          (terminal_event (sc_rfc3339 cd) ''unknown'' (tr_created_at row) observed_at
             (jobj [(''status'', JStr ''unknown''),
                    (''reason'', JStr ''no durable process result survived management restart'')]) (JArr [])
             (Some ''management restarted before durable terminal observation'')))"

definition is_graph_task :: "TaskRow \<Rightarrow> bool" where
  "is_graph_task row \<longleftrightarrow> Option.bind (tr_metadata_json row) (jget FLOW_URI) \<noteq> None"

text \<open>The loop over the listed rows; it stops at the first error and keeps the writes made so far.\<close>

fun recover_rows :: "store_codec \<Rightarrow> timestamp \<Rightarrow> TaskStore \<Rightarrow> nat \<Rightarrow> TaskRow list \<Rightarrow> (store_error + nat) \<times> TaskStore" where
  "recover_rows cd at s n [] = (Inr n, s)"
| "recover_rows cd at s n (row # rows) =
     (if \<not> is_graph_task row then recover_rows cd at s n rows
      else case recovered_row cd at row of
        None \<Rightarrow> (Inl (Panicked ''cannot access key in JSON value''), s)
      | Some row' \<Rightarrow>
          (case upsert_task cd s row' of
             Inl e \<Rightarrow> (Inl e, s)
           | Inr s' \<Rightarrow> recover_rows cd at s' (n + 1) rows))"

definition recover_graph_tasks_after_restart ::
  "(task_cols list \<Rightarrow> task_cols list) \<Rightarrow> store_codec \<Rightarrow> timestamp \<Rightarrow> TaskStore \<Rightarrow> (store_error + nat) \<times> TaskStore" where
  "recover_graph_tasks_after_restart ord cd observed_at s =
     (case list_tasks ord cd s \<lparr>flt_state = None, flt_limit = None, flt_include_terminal = False, flt_instance_id = None\<rparr> of
        Inl e \<Rightarrow> (Inl e, s)
      | Inr rows \<Rightarrow> recover_rows cd observed_at s 0 rows)"


subsection \<open>Handlers on the abstract tasks\<close>

text \<open>The stored tasks decode and satisfy the invariant of the store.\<close>

definition app_ok :: "handler_env \<Rightarrow> AppState \<Rightarrow> bool" where
  "app_ok env st \<longleftrightarrow> codec_ok (he_codec env) \<and> store_ok (as_store st) \<and> rows_ok (he_codec env) (as_store st)"

definition owned_task :: "handler_env \<Rightarrow> AppState \<Rightarrow> string \<Rightarrow> string \<Rightarrow> TaskRow option" where
  "owned_task env st inst tid =
     (case task_view (he_codec env) (as_store st) tid of
        Some r \<Rightarrow> if tr_instance_id r = Some inst then Some r else None | None \<Rightarrow> None)"

lemma get_owned: "app_ok env st \<Longrightarrow>
    get_task_for_instance (he_codec env) (as_store st) inst tid = Inr (owned_task env st inst tid)"
  by (simp add: get_task_for_instance_view app_ok_def store_ok_def owned_task_def)

lemma set_store_simps [simp]:
  "as_store (set_store st s) = s" "as_delivery (set_store st s) = as_delivery st"
  "as_extensions (set_store st s) = as_extensions st"
  "as_idem (try_send st ev) = as_idem st" "as_extensions (try_send st ev) = as_extensions st"
  "ca_ttl (as_idem (set_store st s)) = ca_ttl (as_idem st)"
  "ca_metrics (as_idem (set_store st s)) = ca_metrics (as_idem st)"
  by (simp_all add: set_store_def try_send_def)

lemma owned_task_try_send [simp]: "owned_task env (try_send st ev) = owned_task env st"
  by (simp add: owned_task_def fun_eq_iff)

lemma app_ok_try_send [simp]: "app_ok env (try_send st ev) \<longleftrightarrow> app_ok env st"
  by (simp add: app_ok_def)

lemma task_view_Some:
  assumes "rows_ok cd s" and "task_view cd s k = Some row"
  obtains r where "r \<in> set (tasks s)" "t_task_id r = k" "row_to_task cd r = Inr row" "times_valid row"
proof -
  obtain r where r: "tbl_get t_task_id k (tasks s) = Some r" "row = projr (row_to_task cd r)"
    using assms by (auto simp: task_view_rows)
  then have "r \<in> set (tasks s)" "t_task_id r = k"
    by (auto dest: tbl_get_SomeD)
  moreover from this assms(1) have "task_cols_ok cd r"
    by (simp add: rows_ok_def)
  ultimately show thesis
    using r(2) by (intro that [of r]) (auto simp: task_cols_ok_def)
qed

lemma owned_task_id:
  assumes "app_ok env st" and "owned_task env st inst tid = Some row"
  shows "tr_task_id row = tid \<and> tr_instance_id row = Some inst \<and> task_view (he_codec env) (as_store st) tid = Some row"
    and "times_valid row"
proof -
  have v: "task_view (he_codec env) (as_store st) tid = Some row" "tr_instance_id row = Some inst"
    using assms(2) by (auto simp: owned_task_def split: option.splits if_splits)
  have "rows_ok (he_codec env) (as_store st)"
    using assms(1) by (simp add: app_ok_def)
  then obtain r where "t_task_id r = tid" "row_to_task (he_codec env) r = Inr row" "times_valid row"
    using v(1) by (rule task_view_Some)
  with v row_to_task_sel [of "he_codec env" r row]
  show "tr_task_id row = tid \<and> tr_instance_id row = Some inst \<and> task_view (he_codec env) (as_store st) tid = Some row"
    and "times_valid row"
    by simp_all
qed

text \<open>An update of an owned task: the store stays well formed and the task is the merged row.\<close>

lemma upsert_owned:
  assumes ok: "app_ok env st" and own: "owned_task env st inst tid = Some row"
    and id: "tr_task_id row' = tid" "tr_instance_id row' = Some inst" and times: "times_valid row'"
    and up: "upsert_task (he_codec env) (as_store st) row' = Inr s'"
  shows "app_ok env (set_store st s')"
    and "owned_task env (set_store st s') inst tid = Some (merge_task (Some row) row')"
    and "k \<noteq> tid \<Longrightarrow> owned_task env (set_store st s') i k = owned_task env st i k"
proof -
  have cd: "codec_ok (he_codec env)" and sok: "store_ok (as_store st)" and rok: "rows_ok (he_codec env) (as_store st)"
    using ok by (simp_all add: app_ok_def)
  have row: "task_view (he_codec env) (as_store st) tid = Some row" "tr_instance_id row = Some inst"
    using owned_task_id(1) [OF ok own] by auto
  note ref = upsert_task_refines [OF cd rok times up sok]
  show "app_ok env (set_store st s')"
    using cd upsert_task_ok [OF sok up] ref(1) by (simp add: app_ok_def)
  show "owned_task env (set_store st s') inst tid = Some (merge_task (Some row) row')"
    using ref(2) row id by (simp add: owned_task_def merge_task_def Let_def)
  show "k \<noteq> tid \<Longrightarrow> owned_task env (set_store st s') i k = owned_task env st i k"
    using ref(2) id by (simp add: owned_task_def)
qed

lemma canceled_row_sel:
  "canceled_row env now row = Some row' \<Longrightarrow>
     tr_task_id row' = tr_task_id row \<and> tr_instance_id row' = tr_instance_id row \<and> tr_state row' = Canceled \<and>
     tr_created_at row' = tr_created_at row \<and> tr_terminal_at row' = Some now \<and> tr_updated_at row' = now \<and>
     tr_context_id row' = tr_context_id row"
  by (auto simp: canceled_row_def)

text \<open>The three ways \<open>cancel_task\<close> ends.\<close>

lemma cancel_task_cases:
  assumes ok: "app_ok env st" and ts: "ts_valid now" and res: "cancel_task env now st inst tid = Some (r, st')"
  obtains (refused) "st' = st" "rs_status r \<noteq> 200" "owned_task env st inst tid = None \<Longrightarrow> rs_status r = 404"
      "\<And>row. owned_task env st inst tid = Some row \<Longrightarrow> state_is_terminal (tr_state row) \<Longrightarrow> rs_status r = 409"
  | (canceled) row row' where "owned_task env st inst tid = Some row" "\<not> state_is_terminal (tr_state row)"
      "rs_status r = 200" "app_ok env st'" "owned_task env st' inst tid = Some (merge_task (Some row) row')"
      "tr_state row' = Canceled" "\<And>k i. k \<noteq> tid \<Longrightarrow> owned_task env st' i k = owned_task env st i k"
proof (cases "owned_task env st inst tid")
  case None
  with res show ?thesis
    by (intro refused) (auto simp: cancel_task_def get_owned [OF ok] task_not_found_def error_response_def)
next
  case (Some row)
  show ?thesis
  proof (cases "state_is_terminal (tr_state row)")
    case True
    with res Some show ?thesis
      by (intro refused) (auto simp: cancel_task_def get_owned [OF ok] error_response_def)
  next
    case False
    obtain row' where row': "canceled_row env now row = Some row'"
      using res Some False by (auto simp: cancel_task_def get_owned [OF ok] bind_eq_Some_conv)
    note sel = canceled_row_sel [OF row']
    have id: "tr_task_id row' = tid" "tr_instance_id row' = Some inst" "times_valid row'"
      using sel owned_task_id [OF ok Some] ts by (auto simp: times_valid_def)
    show ?thesis
    proof (cases "upsert_task (he_codec env) (as_store st) row'")
      case (Inl e)
      with res Some False row' show ?thesis
        by (intro refused) (auto simp: cancel_task_def get_owned [OF ok] internal_error_def error_response_def)
    next
      case (Inr s')
      note up = upsert_owned [OF ok Some id Inr]
      have st': "\<exists>ev. st' = try_send (set_store st s') ev" "rs_status r = 200"
        using res Some False row' Inr
        by (auto simp: cancel_task_def get_owned [OF ok] Let_def json_response_def)
      show ?thesis
        by (rule canceled [OF Some False st'(2)]) (use st'(1) up sel in auto)
    qed
  qed
qed

subsection \<open>Recovery on the abstract tasks\<close>

lemma recovered_row_sel:
  "recovered_row cd at row = Some row' \<Longrightarrow>
     tr_task_id row' = tr_task_id row \<and> tr_instance_id row' = tr_instance_id row \<and> tr_context_id row' = tr_context_id row \<and>
     tr_state row' = Failed \<and> tr_fail_kind row' = Some Infrastructure \<and> tr_created_at row' = tr_created_at row \<and>
     tr_terminal_at row' = Some at \<and> tr_updated_at row' = at"
  by (auto simp: recovered_row_def)

lemma recover_rows_view:
  assumes "codec_ok cd" and "ts_valid at" and "recover_rows cd at s n rows = (Inr m, s')"
    and "store_ok s" and "rows_ok cd s" and "distinct (map tr_task_id rows)"
    and "\<And>row. row \<in> set rows \<Longrightarrow> task_view cd s (tr_task_id row) = Some row"
  shows "store_ok s' \<and> rows_ok cd s' \<and> m = n + length (filter is_graph_task rows) \<and>
    (\<forall>row \<in> set rows. is_graph_task row \<longrightarrow>
       (\<exists>row'. recovered_row cd at row = Some row' \<and> task_view cd s' (tr_task_id row) = Some (merge_task (Some row) row'))) \<and>
    (\<forall>k. (\<forall>row \<in> set rows. tr_task_id row = k \<longrightarrow> \<not> is_graph_task row) \<longrightarrow> task_view cd s' k = task_view cd s k)"
  using assms(3-)
proof (induction rows arbitrary: s n)
  case (Cons row rows)
  show ?case
  proof (cases "is_graph_task row")
    case False
    with Cons show ?thesis by auto
  next
    case True
    then obtain row' s1 where row': "recovered_row cd at row = Some row'"
      and up: "upsert_task cd s row' = Inr s1" and rest: "recover_rows cd at s1 (n + 1) rows = (Inr m, s')"
      using Cons.prems(1) by (auto split: option.splits sum.splits)
    note sel = recovered_row_sel [OF row']
    have view: "task_view cd s (tr_task_id row) = Some row"
      using Cons.prems(5) by simp
    then have "times_valid row"
      by (rule task_view_Some [OF Cons.prems(3)])
    then have "times_valid row'"
      using sel assms(2) by (simp add: times_valid_def)
    note ref = upsert_task_refines [OF assms(1) Cons.prems(3) this up Cons.prems(2)]
    have s1: "task_view cd s1 = (task_view cd s)(tr_task_id row \<mapsto> merge_task (Some row) row')"
      using ref(2) sel view by simp
    have other: "tr_task_id x \<noteq> tr_task_id row" if "x \<in> set rows" for x
      using Cons.prems(4) that by (auto simp: image_iff)
    have views: "task_view cd s1 (tr_task_id x) = Some x" if "x \<in> set rows" for x
      using Cons.prems(5) [of x] other [OF that] that by (simp add: s1)
    note IH = Cons.IH [OF rest upsert_task_ok [OF Cons.prems(2) up] ref(1) _ views]
    have "task_view cd s' (tr_task_id row) = Some (merge_task (Some row) row')"
      using IH Cons.prems(4) other by (simp add: s1)
    then show ?thesis
      using IH Cons.prems(4) True row' by (auto simp: s1)
  qed
qed auto

lemma listing_total:
  assumes rok: "rows_ok cd s" and ord: "newest_first ord" and lim: "\<And>n. flt_limit f = Some n \<Longrightarrow> u64_to_sql n \<noteq> None"
  obtains rows where "list_tasks ord cd s f = Inr rows"
proof -
  have dec: "row_to_task cd r = Inr (projr (row_to_task cd r))" if "r \<in> set (tasks s)" for r
    using rok that by (auto simp: rows_ok_def task_cols_ok_def)
  have "mset (ord (filter (list_where f) (tasks s))) = mset (filter (list_where f) (tasks s))"
    using ord by (simp add: newest_first_def)
  then have sub: "set (ord (filter (list_where f) (tasks s))) \<subseteq> set (tasks s)"
    using mset_eq_setD by fastforce
  have all: "collect (row_to_task cd) rows = Inr (map (\<lambda>r. projr (row_to_task cd r)) rows)"
    if "set rows \<subseteq> set (ord (filter (list_where f) (tasks s)))" for rows
    using that dec sub by (intro collect_all_ok) blast
  show thesis
  proof (cases "flt_limit f")
    case None
    with that all show thesis by (simp add: list_tasks_def)
  next
    case (Some n)
    with that lim [OF Some] all [OF set_take_subset] show thesis by (auto simp: list_tasks_def)
  qed
qed

text \<open>The loop returns when every open graph task can be rewritten.\<close>

lemma recover_rows_returns:
  assumes "\<And>row. row \<in> set rows \<Longrightarrow> is_graph_task row \<Longrightarrow> \<exists>row'. recovered_row cd at row = Some row' \<and> serializable cd row'"
  shows "\<exists>m s'. recover_rows cd at s n rows = (Inr m, s')"
  using assms
proof (induction rows arbitrary: s n)
  case (Cons row rows)
  show ?case
  proof (cases "is_graph_task row")
    case True
    then obtain row' where "recovered_row cd at row = Some row'" "serializable cd row'"
      using Cons.prems by force
    with Cons upsert_task_success [of cd row' s] True show ?thesis by auto
  qed (use Cons in auto)
qed simp

lemma listing_distinct:
  assumes "codec_ok cd" and sok: "store_ok s" and rok: "rows_ok cd s" and "newest_first ord"
    and "list_tasks ord cd s f = Inr rows"
  shows "distinct (map tr_task_id rows)"
proof -
  obtain cols rest where cols: "mset (cols @ rest) = mset (filter (list_where f) (tasks s))"
    "rows = map (\<lambda>r. projr (row_to_task cd r)) cols"
    using list_tasks_rows [OF assms] by blast
  have u: "key_unique t_task_id (tasks s)"
    using sok by (simp add: store_ok_def)
  have "tr_task_id (projr (row_to_task cd r)) = t_task_id r" if "r \<in> set cols" for r
  proof -
    have "r \<in> set (tasks s)"
      using that mset_eq_setD [OF cols(1)] by auto
    then show ?thesis
      using view_of_row(1) [OF rok u] row_to_task_sel [of cd r] by metis
  qed
  then have "map tr_task_id rows = map t_task_id cols"
    by (simp add: cols(2))
  moreover have "distinct (map t_task_id (cols @ rest))"
  proof -
    have "mset (map t_task_id (cols @ rest)) = mset (map t_task_id (filter (list_where f) (tasks s)))"
      by (simp only: mset_map cols(1))
    moreover have "distinct (map t_task_id (filter (list_where f) (tasks s)))"
      using u by (simp add: key_unique_def distinct_map_filter)
    ultimately show ?thesis
      using mset_eq_imp_distinct_iff by blast
  qed
  ultimately show ?thesis by simp
qed

lemma recover_view:
  assumes cd: "codec_ok cd" and ts: "ts_valid at" and sok: "store_ok s" and rok: "rows_ok cd s" and ord: "newest_first ord"
    and res: "recover_graph_tasks_after_restart ord cd at s = (Inr n, s')"
  obtains rows where "store_ok s'" and "rows_ok cd s'" and "n = length (filter is_graph_task rows)"
    and "distinct (map tr_task_id rows)"
    and "\<And>k row. task_view cd s k = Some row \<Longrightarrow> tr_terminal_at row = None \<longleftrightarrow> row \<in> set rows"
    and "\<And>row. row \<in> set rows \<Longrightarrow> task_view cd s (tr_task_id row) = Some row"
    and "\<And>row. row \<in> set rows \<Longrightarrow> is_graph_task row \<Longrightarrow>
       \<exists>row'. recovered_row cd at row = Some row' \<and> task_view cd s' (tr_task_id row) = Some (merge_task (Some row) row')"
    and "\<And>k. (\<forall>row \<in> set rows. tr_task_id row = k \<longrightarrow> \<not> is_graph_task row) \<Longrightarrow> task_view cd s' k = task_view cd s k"
proof -
  let ?f = "\<lparr>flt_state = None, flt_limit = None, flt_include_terminal = False, flt_instance_id = None\<rparr>"
  obtain rows where rows: "list_tasks ord cd s ?f = Inr rows" and loop: "recover_rows cd at s 0 rows = (Inr n, s')"
    using res by (auto simp: recover_graph_tasks_after_restart_def split: sum.splits)
  note exact = listing_exact [OF cd sok rok ord rows]
  have views: "task_view cd s (tr_task_id row) = Some row" if "row \<in> set rows" for row
    using exact that get_task_view [OF rok] by auto
  have "distinct (map tr_task_id rows)"
    by (rule listing_distinct [OF cd sok rok ord rows])
  moreover note recover_rows_view [OF cd ts loop sok rok this views]
  moreover have "tr_terminal_at row = None \<longleftrightarrow> row \<in> set rows" if "task_view cd s k = Some row" for k row
    using exact that by (auto simp: get_task_view [OF rok] filter_matches_def) (metis option.distinct(1))
  ultimately show thesis
    using views by (intro that [of rows]) auto
qed

subsection \<open>Pages\<close>

lemma page_limit_bounds: "1 \<le> unat (page_limit l) \<and> unat (page_limit l) \<le> 100"
proof -
  have "1 \<le> page_limit l" "page_limit l \<le> 100"
    by (simp_all add: page_limit_def MAX_LIMIT_def)
  then show ?thesis by (simp add: word_le_nat_alt)
qed

text \<open>The window the handler fetches before it applies the cursor.\<close>

definition page_window :: "u64 \<Rightarrow> nat" where
  "page_window limit = max (4 * unat limit) (unat limit + 10)"

lemma page_window_word:
  assumes "unat limit \<le> 100"
  shows "unat (max (limit * 4) (limit + 10)) = page_window limit" and "u64_to_sql (max (limit * 4) (limit + 10)) \<noteq> None"
proof -
  have m: "unat (limit * 4) = 4 * unat limit"
    using assms by (simp add: unat_word_ariths)
  have a: "unat (limit + 10) = unat limit + 10"
    using assms by (simp add: unat_word_ariths)
  show w: "unat (max (limit * 4) (limit + 10)) = page_window limit"
    using m a by (simp add: max_def page_window_def word_le_nat_alt)
  have "unat (max (limit * 4) (limit + 10)) < 2 ^ 63"
    using assms unfolding w page_window_def by simp
  from uint_less_power [OF this] show "u64_to_sql (max (limit * 4) (limit + 10)) \<noteq> None"
    by (simp add: u64_to_sql_def)
qed

lemma sorted_wrt_filter_take:
  "sorted_wrt P xs \<Longrightarrow> sorted_wrt P (take n (filter q xs))"
  by (simp add: sorted_wrt_filter sorted_wrt_take)

lemma list_page_sorted: "sorted_wrt P rows \<Longrightarrow> sorted_wrt P (list_page limit cursor rows)"
  by (cases cursor) (simp_all add: list_page_def sorted_wrt_filter sorted_wrt_take)

lemma list_page_set: "row \<in> set (list_page limit cursor rows) \<Longrightarrow>
   row \<in> set rows \<and> (\<forall>ms. cursor = Some ms \<longrightarrow> timestamp_millis (tr_created_at row) < ms)"
  by (cases cursor) (auto simp: list_page_def dest: in_set_takeD)

lemma list_page_length: "length (list_page limit cursor rows) \<le> unat limit"
  by (simp add: list_page_def)

lemma take_length_less: "length (take n xs) < n \<Longrightarrow> take n xs = xs"
  by simp

definition matches_state :: "TaskState option \<Rightarrow> TaskRow \<Rightarrow> bool" where
  "matches_state sf row \<longleftrightarrow> (case sf of None \<Rightarrow> True | Some s \<Rightarrow> tr_state row = s)"

definition older_than :: "int option \<Rightarrow> TaskRow \<Rightarrow> bool" where
  "older_than cursor row \<longleftrightarrow> (case cursor of None \<Rightarrow> True | Some ms \<Rightarrow> timestamp_millis (tr_created_at row) < ms)"

lemma list_page_alt: "list_page limit cursor rows = take (unat limit) (filter (older_than cursor) rows)"
proof (cases cursor)
  case None
  then have "older_than cursor = (\<lambda>_. True)" by (simp add: older_than_def fun_eq_iff)
  with None show ?thesis by (simp add: list_page_def)
next
  case (Some ms)
  then have "older_than cursor = (\<lambda>r. timestamp_millis (tr_created_at r) < ms)" by (simp add: older_than_def fun_eq_iff)
  with Some show ?thesis by (simp add: list_page_def)
qed

lemma fetched_rows:
  assumes ok: "app_ok env st" and ord: "newest_first (he_newest env)" and lim: "unat limit \<le> 100"
  obtains rows where "list_tasks (he_newest env) (he_codec env) (as_store st) (list_filter inst sf limit) = Inr rows"
    and "sorted_wrt (\<lambda>a b. tr_created_at b \<le> tr_created_at a) rows" and "distinct (map tr_task_id rows)"
    and "\<forall>row \<in> set rows. owned_task env st inst (tr_task_id row) = Some row \<and> matches_state sf row"
    and "\<forall>row. owned_task env st inst (tr_task_id row) = Some row \<and> matches_state sf row \<and> row \<notin> set rows \<longrightarrow>
      length rows = page_window limit \<and> (\<forall>x \<in> set rows. tr_created_at row \<le> tr_created_at x)"
proof -
  let ?cd = "he_codec env" and ?s = "as_store st" and ?f = "list_filter inst sf limit"
  have cd: "codec_ok ?cd" and sok: "store_ok ?s" and rok: "rows_ok ?cd ?s"
    using ok by (simp_all add: app_ok_def)
  obtain rows where rows: "list_tasks (he_newest env) ?cd ?s ?f = Inr rows"
    by (rule listing_total [OF rok ord, of ?f]) (use page_window_word(2) [OF lim] in \<open>auto simp: list_filter_def\<close>)
  note exact = listing_exact [OF cd sok rok ord rows]
  have own: "owned_task env st inst k = Some row \<longleftrightarrow> get_task ?cd ?s k = Inr (Some row) \<and> tr_instance_id row = Some inst" for k row
    by (auto simp: owned_task_def get_task_view [OF rok] split: option.splits)
  have m: "filter_matches ?f row \<longleftrightarrow> matches_state sf row \<and> tr_instance_id row = Some inst" for row
    by (auto simp: filter_matches_def list_filter_def matches_state_def)
  show thesis
    by (rule that [OF rows _ listing_distinct [OF cd sok rok ord rows]])
      (use exact own m page_window_word(1) [OF lim] in \<open>auto simp: list_filter_def\<close>)
qed

subsection \<open>Properties\<close>

text \<open>
  C27. Cancellation happens once: a cancel request answered 200 leaves the task canceled with a terminal
  time and every other task as it was, and every further cancel of it is answered 409 and changes
  nothing. A task of another instance is answered 404; every refused request leaves the state as it is.
\<close>

theorem cancel_once:
  assumes "app_ok env st" and "ts_valid now" and "cancel_task env now st inst tid = Some (r, st')"
  shows "if rs_status r = 200
    then (\<exists>row. owned_task env st' inst tid = Some row \<and> tr_state row = Canceled \<and> tr_terminal_at row \<noteq> None) \<and>
      (\<forall>i k. k \<noteq> tid \<longrightarrow> owned_task env st' i k = owned_task env st i k) \<and>
      (\<forall>later. \<exists>r'. cancel_task env later st' inst tid = Some (r', st') \<and> rs_status r' = 409)
    else st' = st \<and> (owned_task env st inst tid = None \<longrightarrow> rs_status r = 404)"
  using assms
proof (cases rule: cancel_task_cases)
  case refused
  then show ?thesis by simp
next
  case (canceled row row')
  have "tr_state (merge_task (Some row) row') = Canceled" "tr_terminal_at (merge_task (Some row) row') \<noteq> None"
    using canceled(6) by (auto simp: merge_task_def Let_def split: option.splits)
  with canceled show ?thesis
    by (auto simp: cancel_task_def get_owned error_response_def)
qed

definition demo_graph_task :: TaskRow where
  "demo_graph_task = (demo_task ''g'' Working 2)\<lparr>tr_metadata_json := Some (JObj [(FLOW_URI, JObj [])])\<rparr>"

definition demo_recovered :: TaskRow where
  "demo_recovered = the (recovered_row demo_store_codec 5 demo_graph_task)"

definition demo_canceled_status :: json where
  "demo_canceled_status = jobj [(''state'', JStr ''canceled''), (''timestamp'', JStr (unary_ts 5)),
     (''terminal_reason'', JStr ''caller_cancellation'')]"

definition demo_task_codec :: store_codec where
  "demo_task_codec = demo_store_codec\<lparr>sc_json := table_codec [JStr ''x'', JObj [(FLOW_URI, JObj [])],
     demo_canceled_status, tr_status_json demo_recovered, the (tr_metadata_json demo_recovered)]\<rparr>"

definition demo_handler_env :: handler_env where
  "demo_handler_env = \<lparr>he_idem = demo_idem_env\<lparr>idem_codec := demo_task_codec\<rparr>, he_err = (\<lambda>_. ''error''),
     he_newest = demo_order, he_artifacts = (\<lambda>xs. xs), he_b64_encode = (\<lambda>s. s), he_b64_decode = Some\<rparr>"

definition demo_task_ops :: "store_op list" where
  "demo_task_ops = [SUpsert (demo_task ''a'' Working 1), SUpsert demo_graph_task]"

definition demo_tasks :: TaskStore where
  "demo_tasks = run (store_step (demo_store_env\<lparr>se_codec := demo_task_codec\<rparr>)) empty_store demo_task_ops"

definition demo_app :: AppState where
  "demo_app = \<lparr>as_idem = new_cache demo_tasks, as_extensions = [], as_delivery = []\<rparr>"

lemma demo_task_codec_ok: "codec_ok demo_task_codec"
  using demo_codec_ok
  by (simp add: codec_ok_def demo_task_codec_def demo_store_codec_def table_codec_roundtrip)

lemma demo_env_simps [simp]:
  "he_codec demo_handler_env = demo_task_codec" "he_newest demo_handler_env = demo_order"
  "as_store demo_app = demo_tasks"
  by (simp_all add: demo_handler_env_def demo_app_def new_cache_def)

lemma demo_tasks_ok: "store_ok demo_tasks" "rows_ok demo_task_codec demo_tasks"
proof -
  let ?env = "demo_store_env\<lparr>se_codec := demo_task_codec\<rparr>"
  show "store_ok demo_tasks"
    unfolding demo_tasks_def by (rule store_ops.inv_run [OF empty_store_ok])
  have "list_all op_valid demo_task_ops"
    by (simp add: demo_task_ops_def demo_graph_task_def demo_task_def times_valid_def ts_valid_def)
  moreover have "rows_ok demo_task_codec empty_store"
    by (simp add: rows_ok_def empty_store_def)
  ultimately show "rows_ok demo_task_codec demo_tasks"
    using store_run_refines [of ?env empty_store demo_task_ops] demo_task_codec_ok empty_store_ok
    by (simp add: demo_tasks_def)
qed

lemma demo_app_ok: "app_ok demo_handler_env demo_app"
  by (simp add: app_ok_def demo_task_codec_ok demo_tasks_ok)

lemma demo_views:
  "task_view demo_task_codec demo_tasks ''a'' = Some (demo_task ''a'' Working 1)"
  "task_view demo_task_codec demo_tasks ''g'' = Some demo_graph_task"
  "k \<notin> {''a'', ''g''} \<Longrightarrow> task_view demo_task_codec demo_tasks k = None"
proof -
  let ?env = "demo_store_env\<lparr>se_codec := demo_task_codec\<rparr>"
  have "list_all op_valid demo_task_ops"
    by (simp add: demo_task_ops_def demo_graph_task_def demo_task_def times_valid_def ts_valid_def)
  moreover have "rows_ok demo_task_codec empty_store"
    by (simp add: rows_ok_def empty_store_def)
  ultimately have "task_view demo_task_codec demo_tasks =
      run (spec_step demo_task_codec) (task_view demo_task_codec empty_store) demo_task_ops"
    using store_run_refines [of ?env empty_store demo_task_ops] demo_task_codec_ok empty_store_ok
    by (simp add: demo_tasks_def)
  moreover have "serializable demo_task_codec (demo_task ''a'' Working 1)" "serializable demo_task_codec demo_graph_task"
    by (simp_all add: serializable_def demo_graph_task_def demo_task_def json_text_def json_opt_text_def
        demo_task_codec_def demo_store_codec_def table_codec_def)
  moreover have "task_view demo_task_codec empty_store = Map.empty"
    by (simp add: task_view_def get_task_def empty_store_def fun_eq_iff)
  ultimately show "task_view demo_task_codec demo_tasks ''a'' = Some (demo_task ''a'' Working 1)"
    and "task_view demo_task_codec demo_tasks ''g'' = Some demo_graph_task"
    and "k \<notin> {''a'', ''g''} \<Longrightarrow> task_view demo_task_codec demo_tasks k = None"
    by (simp_all add: demo_task_ops_def demo_graph_task_def demo_task_def merge_task_def)
qed

lemma demo_owned: "owned_task demo_handler_env demo_app ''i1'' ''a'' = Some (demo_task ''a'' Working 1)"
  by (simp add: owned_task_def demo_views) (simp add: demo_task_def)

lemma demo_cancel:
  obtains r st' where "cancel_task demo_handler_env 5 demo_app ''i1'' ''a'' = Some (r, st')" "rs_status r = 200"
proof -
  let ?row = "demo_task ''a'' Working 1"
  obtain row' where row': "canceled_row demo_handler_env 5 ?row = Some row'"
    by (simp add: canceled_row_def latest_event_def demo_task_def)
  have "tr_status_json row' = demo_canceled_status" "tr_metadata_json row' = None"
    using row' by (auto simp: canceled_row_def demo_canceled_status_def latest_event_def demo_task_def
        demo_task_codec_def demo_store_codec_def)
  then have "serializable demo_task_codec row'"
    by (simp add: serializable_def json_text_def json_opt_text_def demo_task_codec_def table_codec_def)
  then obtain s' where "upsert_task demo_task_codec demo_tasks row' = Inr s'"
    using upsert_task_success by blast
  then show thesis
    using that row' get_owned [OF demo_app_ok, of "''i1''" "''a''"]
    by (simp add: cancel_task_def demo_owned Let_def json_response_def demo_task_def)
qed

theorem cancel_once_witness:
  "\<exists>r st' r'. cancel_task demo_handler_env 5 demo_app ''i1'' ''a'' = Some (r, st') \<and> rs_status r = 200 \<and>
     cancel_task demo_handler_env 7 st' ''i1'' ''a'' = Some (r', st') \<and> rs_status r' = 409"
proof -
  obtain r st' where res: "cancel_task demo_handler_env 5 demo_app ''i1'' ''a'' = Some (r, st')" "rs_status r = 200"
    by (rule demo_cancel)
  have "ts_valid 5" by (simp add: ts_valid_def)
  from cancel_once [OF demo_app_ok this res(1)] res show ?thesis by auto
qed

text \<open>
  C28. Recovery after a restart leaves no graph task open: when it returns, every graph task has a
  terminal time, each one that was open is failed as an infrastructure failure at the time of recovery
  with its identity kept, every other task is unchanged, and the count returned is the number of tasks
  that were open.
\<close>

theorem recovery_closes_graph_tasks:
  assumes "codec_ok cd" and "store_ok s" and "rows_ok cd s" and "newest_first ord" and "ts_valid at"
    and "recover_graph_tasks_after_restart ord cd at s = (Inr n, s')"
  shows "(\<forall>k row. task_view cd s' k = Some row \<and> is_graph_task row \<longrightarrow> tr_terminal_at row \<noteq> None) \<and>
    (\<forall>k row. task_view cd s k = Some row \<longrightarrow>
      (if is_graph_task row \<and> tr_terminal_at row = None
       then \<exists>row'. task_view cd s' k = Some row' \<and> tr_state row' = Failed \<and> tr_fail_kind row' = Some Infrastructure \<and>
         tr_terminal_at row' = Some at \<and> tr_instance_id row' = tr_instance_id row \<and>
         tr_context_id row' = tr_context_id row \<and> tr_created_at row' = tr_created_at row
       else task_view cd s' k = Some row)) \<and>
    n = card {k. \<exists>row. task_view cd s k = Some row \<and> is_graph_task row \<and> tr_terminal_at row = None}"
  using assms(1,5,2,3,4,6)
proof (rule recover_view)
  fix rows
  assume n: "n = length (filter is_graph_task rows)" and dist: "distinct (map tr_task_id rows)"
    and open_rows: "\<And>k row. task_view cd s k = Some row \<Longrightarrow> tr_terminal_at row = None \<longleftrightarrow> row \<in> set rows"
    and views: "\<And>row. row \<in> set rows \<Longrightarrow> task_view cd s (tr_task_id row) = Some row"
    and recovered: "\<And>row. row \<in> set rows \<Longrightarrow> is_graph_task row \<Longrightarrow>
       \<exists>row'. recovered_row cd at row = Some row' \<and> task_view cd s' (tr_task_id row) = Some (merge_task (Some row) row')"
    and kept: "\<And>k. (\<forall>row \<in> set rows. tr_task_id row = k \<longrightarrow> \<not> is_graph_task row) \<Longrightarrow> task_view cd s' k = task_view cd s k"
  have id: "tr_task_id row = k" if "task_view cd s k = Some row" for k row
    by (rule task_view_Some [OF assms(3) that]) (simp add: row_to_task_sel)
  have closed: "\<exists>row'. task_view cd s' k = Some row' \<and> tr_state row' = Failed \<and> tr_fail_kind row' = Some Infrastructure \<and>
         tr_terminal_at row' = Some at \<and> tr_instance_id row' = tr_instance_id row \<and>
         tr_context_id row' = tr_context_id row \<and> tr_created_at row' = tr_created_at row"
    if "task_view cd s k = Some row" "is_graph_task row" "tr_terminal_at row = None" for k row
  proof -
    note row = that
    have "row \<in> set rows" using open_rows [OF row(1)] row(3) by simp
    then obtain row' where row': "recovered_row cd at row = Some row'"
      "task_view cd s' k = Some (merge_task (Some row) row')"
      using recovered [OF _ row(2)] id [OF row(1)] by auto
    show ?thesis
      using row'(2) recovered_row_sel [OF row'(1)] row(3)
      by (auto simp: merge_task_def Let_def split: option.splits)
  qed
  have same: "task_view cd s' k = Some row"
    if "task_view cd s k = Some row" "\<not> (is_graph_task row \<and> tr_terminal_at row = None)" for k row
  proof -
    have "\<not> is_graph_task x" if "x \<in> set rows" "tr_task_id x = k" for x
      using views [OF that(1)] open_rows [OF views [OF that(1)]] that \<open>task_view cd s k = Some row\<close>
        \<open>\<not> (is_graph_task row \<and> tr_terminal_at row = None)\<close> by simp
    then show ?thesis using kept [of k] that(1) by simp
  qed
  have dom: "task_view cd s' k = None" if "task_view cd s k = None" for k
  proof -
    have "\<not> (x \<in> set rows \<and> tr_task_id x = k)" for x
      using views [of x] that by auto
    then show ?thesis using kept [of k] that by auto
  qed
  have "{k. \<exists>row. task_view cd s k = Some row \<and> is_graph_task row \<and> tr_terminal_at row = None} =
      tr_task_id ` set (filter is_graph_task rows)"
  proof (intro set_eqI iffI)
    fix k
    assume "k \<in> {k. \<exists>row. task_view cd s k = Some row \<and> is_graph_task row \<and> tr_terminal_at row = None}"
    then obtain row where row: "task_view cd s k = Some row" "is_graph_task row" "tr_terminal_at row = None" by blast
    then have "row \<in> set (filter is_graph_task rows)" using open_rows [OF row(1)] by simp
    then show "k \<in> tr_task_id ` set (filter is_graph_task rows)" using id [OF row(1)] by blast
  next
    fix k
    assume "k \<in> tr_task_id ` set (filter is_graph_task rows)"
    then obtain row where row: "row \<in> set rows" "is_graph_task row" "k = tr_task_id row" by auto
    then show "k \<in> {k. \<exists>row. task_view cd s k = Some row \<and> is_graph_task row \<and> tr_terminal_at row = None}"
      using views [OF row(1)] open_rows [OF views [OF row(1)]] by simp
  qed
  moreover have "distinct (map tr_task_id (filter is_graph_task rows))"
    using dist by (simp add: distinct_map_filter)
  ultimately have count: "n = card {k. \<exists>row. task_view cd s k = Some row \<and> is_graph_task row \<and> tr_terminal_at row = None}"
    using n distinct_card [of "map tr_task_id (filter is_graph_task rows)"] by simp
  have all_closed: "tr_terminal_at row \<noteq> None" if "task_view cd s' k = Some row" "is_graph_task row" for k row
  proof (cases "task_view cd s k")
    case None
    with dom that show ?thesis by simp
  next
    case (Some r)
    show ?thesis
    proof (cases "is_graph_task r \<and> tr_terminal_at r = None")
      case True
      with closed [OF Some] that show ?thesis by auto
    next
      case False
      with same [OF Some] that show ?thesis by auto
    qed
  qed
  have 1: "\<forall>k row. task_view cd s' k = Some row \<and> is_graph_task row \<longrightarrow> tr_terminal_at row \<noteq> None"
    using all_closed by blast
  have 2: "if is_graph_task row \<and> tr_terminal_at row = None
      then \<exists>row'. task_view cd s' k = Some row' \<and> tr_state row' = Failed \<and> tr_fail_kind row' = Some Infrastructure \<and>
        tr_terminal_at row' = Some at \<and> tr_instance_id row' = tr_instance_id row \<and>
        tr_context_id row' = tr_context_id row \<and> tr_created_at row' = tr_created_at row
      else task_view cd s' k = Some row" if "task_view cd s k = Some row" for k row
    using closed [OF that] same [OF that] by (cases "is_graph_task row \<and> tr_terminal_at row = None") simp_all
  show ?thesis
    by (intro conjI allI impI 1 2 count)
qed

lemma demo_view_cases:
  "task_view demo_task_codec demo_tasks k = Some row \<Longrightarrow>
     k = ''a'' \<and> row = demo_task ''a'' Working 1 \<or> k = ''g'' \<and> row = demo_graph_task"
  using demo_views(3) [of k] by (cases "k = ''a'' \<or> k = ''g''") (auto simp: demo_views(1,2))

theorem recovery_closes_graph_tasks_witness:
  "\<exists>n s'. recover_graph_tasks_after_restart demo_order demo_task_codec 5 demo_tasks = (Inr n, s') \<and> n = 1"
proof -
  let ?f = "\<lparr>flt_state = None, flt_limit = None, flt_include_terminal = False, flt_instance_id = None\<rparr>"
  let ?cd = demo_task_codec
  have ord: "newest_first demo_order" by (rule demo_order_newest_first)
  have ts: "ts_valid 5" by (simp add: ts_valid_def)
  have rec: "recovered_row ?cd 5 demo_graph_task = Some demo_recovered"
    by (simp add: demo_recovered_def recovered_row_def demo_graph_task_def latest_event_def jset_def
        demo_task_codec_def demo_store_codec_def)
  then have ser: "serializable ?cd demo_recovered"
    by (auto simp: serializable_def json_text_def json_opt_text_def demo_task_codec_def table_codec_def
        transpose_opt_def split: option.splits)

  have plain: "\<not> is_graph_task (demo_task ''a'' Working 1)" "is_graph_task demo_graph_task"
    by (simp_all add: is_graph_task_def demo_graph_task_def demo_task_def jget_def)
  obtain rows where rows: "list_tasks demo_order ?cd demo_tasks ?f = Inr rows"
    by (rule listing_total [OF demo_tasks_ok(2) ord, of ?f]) simp
  have "row = demo_task ''a'' Working 1 \<or> row = demo_graph_task" if "row \<in> set rows" for row
    using listing_exact [OF demo_task_codec_ok demo_tasks_ok ord rows] that
      demo_view_cases [of "tr_task_id row" row] get_task_view [OF demo_tasks_ok(2), of "tr_task_id row"]
    by auto
  then have "\<exists>m s'. recover_rows ?cd 5 demo_tasks 0 rows = (Inr m, s')"
    using rec ser plain by (intro recover_rows_returns) auto
  then obtain n s' where res: "recover_graph_tasks_after_restart demo_order ?cd 5 demo_tasks = (Inr n, s')"
    using rows by (auto simp: recover_graph_tasks_after_restart_def)
  have "{k. \<exists>row. task_view ?cd demo_tasks k = Some row \<and> is_graph_task row \<and> tr_terminal_at row = None} = {''g''}"
  proof -
    have "k = ''g''" if "task_view ?cd demo_tasks k = Some row" "is_graph_task row" for k row
      using demo_view_cases [OF that(1)] that(2) plain(1) by auto
    moreover have "tr_terminal_at demo_graph_task = None" by (simp add: demo_graph_task_def demo_task_def)
    ultimately show ?thesis using demo_views(2) plain(2) by blast
  qed
  with recovery_closes_graph_tasks [OF demo_task_codec_ok demo_tasks_ok ord ts res] res show ?thesis by simp
qed

text \<open>
  C29. Listing pages: for a valid state filter and a cursor the handler issued, the response lists at most
  the requested number of tasks (between 1 and 100), newest first, each one a task of the instance in
  the requested state and strictly older than the cursor, so following cursors never repeats a task;
  and as long as the matching tasks fit into the fetched window, no matching older task is skipped
  before the page is full.
\<close>

theorem list_tasks_page:
  assumes "app_ok env st" and "newest_first (he_newest env)"
    and "\<forall>x. he_b64_decode env (he_b64_encode env x) = Some x"
    and "lq_state q = map_option state_as_str sf" and "lq_cursor q = map_option (encode_cursor env) cursor"
    and "\<forall>ms. cursor = Some ms \<longrightarrow> - (2 ^ 63) \<le> ms \<and> ms < 2 ^ 63"
  shows "\<exists>page. list_tasks_handler env st inst q = json_response (jobj ([(''tasks'', JArr (map (task_row_to_a2a env) page))] @
       (case next_cursor env (page_limit (lq_limit q)) page of Some c \<Rightarrow> [(''next_cursor'', JStr c)] | None \<Rightarrow> []))) \<and>
     length page \<le> unat (page_limit (lq_limit q)) \<and> unat (page_limit (lq_limit q)) \<le> 100 \<and>
     sorted_wrt (\<lambda>a b. tr_created_at b \<le> tr_created_at a) page \<and> distinct (map tr_task_id page) \<and>
     (\<forall>row \<in> set page. owned_task env st inst (tr_task_id row) = Some row \<and> matches_state sf row \<and> older_than cursor row) \<and>
     (card {k. \<exists>row. owned_task env st inst k = Some row \<and> matches_state sf row} \<le> page_window (page_limit (lq_limit q)) \<longrightarrow>
      (\<forall>row. owned_task env st inst (tr_task_id row) = Some row \<and> matches_state sf row \<and> older_than cursor row \<and> row \<notin> set page \<longrightarrow>
        length page = unat (page_limit (lq_limit q)) \<and> (\<forall>x \<in> set page. tr_created_at row \<le> tr_created_at x)))"
proof -
  let ?limit = "page_limit (lq_limit q)" and ?match = "{k. \<exists>row. owned_task env st inst k = Some row \<and> matches_state sf row}"
  have lim: "unat ?limit \<le> 100"
    using page_limit_bounds by blast
  obtain rows where rows: "list_tasks (he_newest env) (he_codec env) (as_store st) (list_filter inst sf ?limit) = Inr rows"
    and sorted: "sorted_wrt (\<lambda>a b. tr_created_at b \<le> tr_created_at a) rows" and dist: "distinct (map tr_task_id rows)"
    and sound: "\<forall>row \<in> set rows. owned_task env st inst (tr_task_id row) = Some row \<and> matches_state sf row"
    and cut: "\<forall>row. owned_task env st inst (tr_task_id row) = Some row \<and> matches_state sf row \<and> row \<notin> set rows \<longrightarrow>
      length rows = page_window ?limit \<and> (\<forall>x \<in> set rows. tr_created_at row \<le> tr_created_at x)"
    by (rule fetched_rows [OF assms(1,2) lim, of inst sf])
  define page where "page = list_page ?limit cursor rows"
  have state: "map_option parse_state (lq_state q) = map_option Some sf"
    using assms(4) by (cases sf) (simp_all add: parse_state_def)
  have cur: "map_option (decode_cursor env) (lq_cursor q) = map_option Some cursor"
    using assms(3,5,6) by (cases cursor) (simp_all add: decode_cursor_def encode_cursor_def parse_i64_to_string)
  have handler: "list_tasks_handler env st inst q = json_response (jobj ([(''tasks'', JArr (map (task_row_to_a2a env) page))] @
       (case next_cursor env ?limit page of Some c \<Rightarrow> [(''next_cursor'', JStr c)] | None \<Rightarrow> [])))"
    using rows by (cases sf; cases cursor) (simp_all add: list_tasks_handler_def state cur Let_def page_def)
  have fin: "finite ?match"
  proof (rule finite_subset)
    show "?match \<subseteq> t_task_id ` set (tasks (as_store st))"
    proof
      fix k
      assume "k \<in> ?match"
      then obtain row where "owned_task env st inst k = Some row" by blast
      then have "task_view (he_codec env) (as_store st) k = Some row"
        using owned_task_id(1) [OF assms(1)] by blast
      then show "k \<in> t_task_id ` set (tasks (as_store st))"
        using assms(1) unfolding app_ok_def by (blast elim: task_view_Some)
    qed
  qed simp
  have complete: "row \<in> set rows"
    if "card ?match \<le> page_window ?limit" "owned_task env st inst (tr_task_id row) = Some row" "matches_state sf row" for row
  proof (rule ccontr)
    assume no: "row \<notin> set rows"
    have "tr_task_id row \<notin> tr_task_id ` set rows"
    proof
      assume "tr_task_id row \<in> tr_task_id ` set rows"
      then obtain x where "x \<in> set rows" "tr_task_id x = tr_task_id row" by auto
      with sound that(2) no show False by (metis option.inject)
    qed
    then have "card (insert (tr_task_id row) (tr_task_id ` set rows)) = Suc (page_window ?limit)"
      using distinct_card [OF dist] cut that(2,3) no by auto
    moreover have "insert (tr_task_id row) (tr_task_id ` set rows) \<subseteq> ?match"
      using sound that(2,3) by auto
    ultimately show False
      using card_mono [OF fin, of "insert (tr_task_id row) (tr_task_id ` set rows)"] that(1) by linarith
  qed
  have skipped: "length page = unat ?limit \<and> (\<forall>x \<in> set page. tr_created_at row \<le> tr_created_at x)"
    if "card ?match \<le> page_window ?limit" "owned_task env st inst (tr_task_id row) = Some row" "matches_state sf row"
      "older_than cursor row" "row \<notin> set page" for row
  proof -
    let ?old = "filter (older_than cursor) rows"
    have "row \<in> set ?old"
      using complete [OF that(1-3)] that(4) by simp
    then have "row \<in> set (drop (unat ?limit) ?old)"
      using that(5) append_take_drop_id [of "unat ?limit" ?old] unfolding page_def list_page_alt by (metis Un_iff set_append)
    then have "unat ?limit < length ?old" "\<forall>x \<in> set (take (unat ?limit) ?old). tr_created_at row \<le> tr_created_at x"
      using sorted_wrt_take_drop [OF sorted_wrt_filter [OF sorted]] by (auto dest: length_pos_if_in_set)
    then show ?thesis
      by (simp add: page_def list_page_alt)
  qed
  have sound_page: "owned_task env st inst (tr_task_id row) = Some row \<and> matches_state sf row \<and> older_than cursor row"
    if "row \<in> set page" for row
    using that sound unfolding page_def list_page_alt by (auto dest: in_set_takeD)
  have dist_page: "distinct (map tr_task_id page)"
    using distinct_map_filter [OF dist] unfolding page_def list_page_alt take_map [symmetric] by (rule distinct_take)
  show ?thesis
    using handler lim list_page_length list_page_sorted [OF sorted] dist_page sound_page skipped
    by (intro exI [of _ page]) (auto simp: page_def)
qed

theorem list_tasks_page_witness:
  "\<exists>page. list_tasks_handler demo_handler_env demo_app ''i1'' \<lparr>lq_limit = Some 1, lq_cursor = None, lq_state = None\<rparr> =
       json_response (jobj ([(''tasks'', JArr (map (task_row_to_a2a demo_handler_env) page))] @
         (case next_cursor demo_handler_env 1 page of Some c \<Rightarrow> [(''next_cursor'', JStr c)] | None \<Rightarrow> []))) \<and>
     length page \<le> 1"
proof -
  have "page_limit (Some 1) = 1"
    by (simp add: page_limit_def MAX_LIMIT_def min_def)
  then show ?thesis
    using list_tasks_page [OF demo_app_ok, of "\<lparr>lq_limit = Some 1, lq_cursor = None, lq_state = None\<rparr>" None None "''i1''"]
      demo_order_newest_first
    by (auto simp: demo_handler_env_def)
qed

end
