(* ===== verification/A2a_Protocol.thy ===== *)
theory A2a_Protocol
  imports Task_Handlers
begin

section \<open>Protocol versions and wire codecs (\<open>protocol.rs\<close>)\<close>

text \<open>
  The boundary between the two A2A protocol versions: negotiation of the version, the decoding of 1.0
  requests into the shape the executor keeps, the encoding of its responses for 1.0 clients, and the
  middleware that applies them around a handler. JSON text is the codec parameter, base64 validity the
  parameter \<open>b64_ok\<close> and the decoding of header values \<open>to_str\<close>, all of third-party libraries.
\<close>

subsection \<open>Version negotiation\<close>

datatype ProtocolVersion = V0_3 | V1_0

fun as_header_value :: "ProtocolVersion \<Rightarrow> string" where
  "as_header_value V0_3 = ''0.3''"
| "as_header_value V1_0 = ''1.0''"

datatype NegotiationError = InvalidFormat string | Unsupported string | LegacyPath string

definition is_major_minor :: "string \<Rightarrow> bool" where
  "is_major_minor value =
     (case split_once CHR ''.'' value of
        None \<Rightarrow> False
      | Some (major, minor) \<Rightarrow>
          major \<noteq> [] \<and> minor \<noteq> [] \<and> list_all is_ascii_digit major \<and> list_all is_ascii_digit minor
          \<and> CHR ''.'' \<notin> set minor)"

definition negotiate :: "string option \<Rightarrow> bool \<Rightarrow> NegotiationError + ProtocolVersion" where
  "negotiate value0 legacy_path =
     (let value = trim (case value0 of Some v \<Rightarrow> v | None \<Rightarrow> [])
      in and_then
           (if value = [] \<or> value = ''0.3'' then Inr V0_3
            else if value = ''1.0'' then Inr V1_0
            else if \<not> is_major_minor value then Inl (InvalidFormat value)
            else Inl (Unsupported value))
           (\<lambda>selected. if legacy_path \<and> selected \<noteq> V0_3 then Inl (LegacyPath value) else Inr selected))"

subsection \<open>Decoding 1.0 requests\<close>

type_synonym jmap = "(string \<times> json) list"

definition as_object :: "json \<Rightarrow> jmap option" where
  "as_object j = (case j of JObj m \<Rightarrow> Some m | _ \<Rightarrow> None)"

definition retain_known_map :: "string list \<Rightarrow> jmap \<Rightarrow> jmap" where
  "retain_known_map allowed m = filter (\<lambda>(k, _). k \<in> set allowed) m"

definition retain_known_fields :: "json \<Rightarrow> string list \<Rightarrow> string \<Rightarrow> string + json" where
  "retain_known_fields value allowed context_name =
     and_then (ok_or (context_name @ '' must be an object'') (as_object value))
       (\<lambda>m. Inr (JObj (retain_known_map allowed m)))"

definition copy_optional :: "string \<Rightarrow> json option \<Rightarrow> jmap \<Rightarrow> jmap" where
  "copy_optional key value m = (case value of Some v \<Rightarrow> jinsert key v m | None \<Rightarrow> m)"

definition PART_FIELDS :: "string list" where
  "PART_FIELDS = [''text'', ''raw'', ''url'', ''data'', ''metadata'', ''filename'', ''mediaType'']"

definition CONTENT_FIELDS :: "string list" where
  "CONTENT_FIELDS = [''text'', ''raw'', ''url'', ''data'']"

definition content_error :: "(string \<Rightarrow> bool) \<Rightarrow> string \<Rightarrow> json \<Rightarrow> string option" where
  "content_error b64_ok field value =
     (if field = ''text'' \<or> field = ''url''
      then (if as_str value = None then Some (field @ '' content must be a string'') else None)
      else if field = ''raw''
      then (case as_str value of
              None \<Rightarrow> Some ''raw content must be a base64 string''
            | Some raw \<Rightarrow> if b64_ok raw then None else Some ''raw content must use valid base64'')
      else None)"

definition legacy_part :: "string \<Rightarrow> json \<Rightarrow> json option \<Rightarrow> json option \<Rightarrow> json option \<Rightarrow> json" where
  "legacy_part field content media_type filename metadata =
     (if field = ''text'' \<or> field = ''data''
      then JObj (copy_optional ''filename'' filename (copy_optional ''mediaType'' media_type
             (copy_optional ''metadata'' metadata (jinsert field content [(''kind'', JStr field)]))))
      else
        let file = copy_optional ''name'' filename (copy_optional ''mimeType'' media_type
                     [((if field = ''raw'' then ''bytes'' else ''uri''), content)])
        in JObj (copy_optional ''metadata'' metadata (jinsert ''file'' (JObj file) [(''kind'', JStr ''file'')])))"

definition decode_v1_part :: "(string \<Rightarrow> bool) \<Rightarrow> json \<Rightarrow> string + json" where
  "decode_v1_part b64_ok part =
     and_then (ok_or ''part must be an object'' (as_object part)) (\<lambda>object0.
       if map_of object0 ''kind'' \<noteq> None
       then Inl (''1.0 parts must not contain the legacy '' @ quoted ''kind'' @ '' discriminator'')
       else
         let object = retain_known_map PART_FIELDS object0
         in case filter (\<lambda>f. map_of object f \<noteq> None) CONTENT_FIELDS of
              [field] \<Rightarrow>
                let content = the (map_of object field)
                in (case content_error b64_ok field content of
                      Some e \<Rightarrow> Inl e
                    | None \<Rightarrow> Inr (legacy_part field content (map_of object ''mediaType'')
                               (map_of object ''filename'') (map_of object ''metadata'')))
            | _ \<Rightarrow> Inl ''part must contain exactly one of text, raw, url, or data'')"

fun decode_v1_parts :: "(string \<Rightarrow> bool) \<Rightarrow> nat \<Rightarrow> json list \<Rightarrow> string + json list" where
  "decode_v1_parts b64_ok i [] = Inr []"
| "decode_v1_parts b64_ok i (p # ps) =
     (case decode_v1_part b64_ok p of
        Inl e \<Rightarrow> Inl (''message.parts['' @ digits i @ '']: '' @ e)
      | Inr p' \<Rightarrow> and_then (decode_v1_parts b64_ok (i + 1) ps) (\<lambda>ps'. Inr (p' # ps')))"

definition MESSAGE_FIELDS :: "string list" where
  "MESSAGE_FIELDS = [''messageId'', ''contextId'', ''taskId'', ''role'', ''parts'', ''metadata'', ''extensions'',
     ''referenceTaskIds'']"

definition decode_v1_message :: "(string \<Rightarrow> bool) \<Rightarrow> jmap \<Rightarrow> string + jmap" where
  "decode_v1_message b64_ok message0 =
     (let message = retain_known_map MESSAGE_FIELDS message0 in
      and_then (ok_or ''message.messageId is required''
        (Option.bind (Option.bind (map_of message ''messageId'') as_str) (\<lambda>v. if v = [] then None else Some v))) (\<lambda>_.
      and_then (ok_or ''message.role is required'' (Option.bind (map_of message ''role'') as_str)) (\<lambda>role.
      and_then (if role = ''ROLE_USER'' then Inr ''user'' else if role = ''ROLE_AGENT'' then Inr ''agent''
                else Inl (''unsupported message.role '' @ quoted role)) (\<lambda>legacy_role.
      let message1 = jinsert ''role'' (JStr legacy_role) message in
      and_then (ok_or ''message.parts must contain at least one part''
        (case map_of message1 ''parts'' of Some (JArr (p # ps)) \<Rightarrow> Some (p # ps) | _ \<Rightarrow> None)) (\<lambda>parts.
      and_then (decode_v1_parts b64_ok 0 parts) (\<lambda>parts'.
      Inr (jinsert ''parts'' (JArr parts') message1)))))))"

definition decode_v1_request :: "(string \<Rightarrow> bool) \<Rightarrow> json \<Rightarrow> string + json" where
  "decode_v1_request b64_ok body0 =
     and_then (retain_known_fields body0 [''tenant'', ''message'', ''configuration'', ''metadata''] ''request'') (\<lambda>body1.
     and_then (case jget ''configuration'' body1 of
                 None \<Rightarrow> Inr body1
               | Some configuration \<Rightarrow>
                   and_then (retain_known_fields configuration
                     [''acceptedOutputModes'', ''taskPushNotificationConfig'', ''historyLength'', ''returnImmediately'']
                     ''request.configuration'') (\<lambda>c. ok_or [] (jset ''configuration'' c body1))) (\<lambda>body2.
     and_then (ok_or ''request.message must be an object'' (Option.bind (jget ''message'' body2) as_object)) (\<lambda>message.
     if map_of message ''kind'' \<noteq> None
     then Inl (''1.0 messages must not contain the legacy '' @ quoted ''kind'' @ '' discriminator'')
     else and_then (decode_v1_message b64_ok message) (\<lambda>message'. ok_or [] (jset ''message'' (JObj message') body2)))))"


subsection \<open>Encoding responses for 1.0 clients\<close>

definition strip_suffix :: "string \<Rightarrow> string \<Rightarrow> string option" where
  "strip_suffix p s = (if ends_with p s then Some (take (length s - length p) s) else None)"

definition encode_state :: "string \<Rightarrow> string" where
  "encode_state state =
     (if state = ''submitted'' then ''TASK_STATE_SUBMITTED''
      else if state = ''working'' then ''TASK_STATE_WORKING''
      else if state = ''completed'' then ''TASK_STATE_COMPLETED''
      else if state = ''failed'' then ''TASK_STATE_FAILED''
      else if state = ''canceled'' then ''TASK_STATE_CANCELED''
      else if state = ''rejected'' then ''TASK_STATE_REJECTED''
      else if state = ''input-required'' then ''TASK_STATE_INPUT_REQUIRED''
      else if state = ''auth-required'' then ''TASK_STATE_AUTH_REQUIRED''
      else state)"

definition protojson_field_name :: "string \<Rightarrow> string" where
  "protojson_field_name key =
     (if key = ''artifact_id'' then ''artifactId''
      else if key = ''task_id'' then ''taskId''
      else if key = ''created_at'' then ''createdAt''
      else if key = ''next_cursor'' then ''nextPageToken''
      else key)"

definition is_legacy_part :: "jmap \<Rightarrow> bool" where
  "is_legacy_part m = (Option.bind (map_of m ''kind'') as_str \<in> {Some ''text'', Some ''data'', Some ''file''})"

text \<open>Rewriting a string member in place, when it is there and is a string.\<close>

definition update_str :: "string \<Rightarrow> (string \<Rightarrow> string) \<Rightarrow> jmap \<Rightarrow> jmap" where
  "update_str key f m = map (\<lambda>(k, v). (k, if k = key then (case v of JStr s \<Rightarrow> JStr (f s) | _ \<Rightarrow> v) else v)) m"

definition encode_role :: "string \<Rightarrow> string" where
  "encode_role role = (if role = ''user'' then ''ROLE_USER'' else if role = ''agent'' then ''ROLE_AGENT'' else role)"

text \<open>The members of an object before its values are encoded.\<close>

definition wire_members :: "string option \<Rightarrow> jmap \<Rightarrow> jmap" where
  "wire_members parent_key m =
     jremove ''kind'' (update_str ''role'' encode_role
       (if parent_key = Some ''status''
        then jremove ''error'' (jremove ''terminal_at'' (jremove ''fail_kind'' (update_str ''state'' encode_state m)))
        else m))"

definition collect_map :: "jmap \<Rightarrow> jmap" where
  "collect_map kvs = foldl (\<lambda>m (k, v). jinsert k v m) [] kvs"

definition first_of :: "string list \<Rightarrow> jmap \<Rightarrow> json option" where
  "first_of ks m = (case List.find (\<lambda>k. map_of m k \<noteq> None) ks of Some k \<Rightarrow> map_of m k | None \<Rightarrow> None)"

definition encode_file :: "jmap \<Rightarrow> jmap" where
  "encode_file file =
     copy_optional ''filename'' (map_of file ''name'') (copy_optional ''mediaType'' (map_of file ''mimeType'')
       (case first_of [''bytes'', ''fileWithBytes''] file of
          Some v \<Rightarrow> [(''raw'', v)]
        | None \<Rightarrow> copy_optional ''url'' (first_of [''uri'', ''fileWithUri''] file) []))"

lemma size_member: "(k, v) \<in> set m \<Longrightarrow> size v < size (JObj m)"
  by (induction m) auto

lemma size_wire_member: "(k, v) \<in> set (wire_members pk m) \<Longrightarrow> size v < size (JObj m)"
  by (auto simp: wire_members_def jremove_def update_str_def dest!: size_member split: if_splits json.splits)

lemma size_element: "v \<in> set vs \<Longrightarrow> size v < size (JArr vs)"
  by (induction vs) auto

text \<open>A part, given the encoding of the values of its members.\<close>

definition encode_part :: "(string \<Rightarrow> json \<Rightarrow> json) \<Rightarrow> jmap \<Rightarrow> json" where
  "encode_part encode object =
     (let rest = jremove ''kind'' object in
      case Option.bind (map_of object ''kind'') as_str of
        Some kind \<Rightarrow>
          if kind = ''file''
          then let file = (case Option.bind (map_of rest ''file'') as_object of Some f \<Rightarrow> f | None \<Rightarrow> [])
               in JObj (case map_of rest ''metadata'' of
                    Some value \<Rightarrow> jinsert ''metadata'' (encode ''metadata'' value) (encode_file file)
                  | None \<Rightarrow> encode_file file)
          else if kind = ''text'' \<or> kind = ''data''
          then JObj (collect_map (map (\<lambda>(key, value). (key, encode key value)) rest))
          else JObj rest
      | None \<Rightarrow> JObj rest)"

lemma encode_part_cong [fundef_cong]:
  assumes "m = m'" and "\<And>k v. (k, v) \<in> set m' \<Longrightarrow> f k v = g k v"
  shows "encode_part f m = encode_part g m'"
proof -
  have members: "map (\<lambda>(k, v). (k, f k v)) (jremove ''kind'' m') = map (\<lambda>(k, v). (k, g k v)) (jremove ''kind'' m')"
    using assms(2) by (auto simp: jremove_def)
  have "map_of m' k = Some v \<Longrightarrow> f k v = g k v" for k v
    using assms(2) by (auto dest: map_of_SomeD)
  then show ?thesis
    unfolding assms(1) encode_part_def Let_def members by (simp split: option.split)
qed

function encode_value :: "string option \<Rightarrow> json \<Rightarrow> json" where
  "encode_value parent_key (JArr values) = JArr (map (encode_value parent_key) values)"
| "encode_value parent_key (JObj object) =
     (if is_legacy_part object then encode_part (\<lambda>key value. encode_value (Some key) value) object
      else JObj (collect_map (map (\<lambda>(key, value). (protojson_field_name key, encode_value (Some key) value))
                                  (wire_members parent_key object))))"
| "encode_value parent_key (JStr value) =
     (if parent_key = Some ''timestamp''
      then (case strip_suffix ''+00:00'' value of Some prefix \<Rightarrow> JStr (prefix @ ''Z'') | None \<Rightarrow> JStr value)
      else JStr value)"
| "encode_value parent_key JNull = JNull"
| "encode_value parent_key (JBool b) = JBool b"
| "encode_value parent_key (JInt i) = JInt i"
| "encode_value parent_key (JFloat x) = JFloat x"
  by pat_completeness auto
termination
  by (relation "measure (\<lambda>(_, v). size v)")
    (auto simp del: json.size simp: size_element dest: size_member size_wire_member)

definition encode_v1_response :: "json \<Rightarrow> json" where
  "encode_v1_response value = encode_value None value"

definition is_server_error :: "u16 \<Rightarrow> bool" where "is_server_error s \<longleftrightarrow> 500 \<le> s \<and> s \<le> 599"

definition canonical_status_name :: "u16 \<Rightarrow> string" where
  "canonical_status_name status =
     (if status = 400 then ''INVALID_ARGUMENT''
      else if status = 404 then ''NOT_FOUND''
      else if status = 409 \<or> status = 422 then ''FAILED_PRECONDITION''
      else if status = 401 then ''UNAUTHENTICATED''
      else if status = 403 then ''PERMISSION_DENIED''
      else if status = 503 then ''UNAVAILABLE''
      else if status = 502 then ''INTERNAL''
      else if is_server_error status then ''INTERNAL''
      else ''UNKNOWN'')"

text \<open>Character by character: the continuation bytes of a character yield nothing.\<close>

definition error_reason :: "string \<Rightarrow> string" where
  "error_reason code =
     map (\<lambda>c. if is_ascii_alphanumeric c
               then (if CHR ''a'' \<le> c \<and> c \<le> CHR ''z'' then char_of (of_char c - (32 :: nat)) else c) else CHR ''_'')
       (filter (\<lambda>c. \<not> (128 \<le> (of_char c :: nat) \<and> (of_char c :: nat) < 192)) code)"

definition rpc_error :: "int \<Rightarrow> string \<Rightarrow> string \<Rightarrow> json \<Rightarrow> json" where
  "rpc_error code status message detail =
     jobj [(''error'', jobj [(''code'', JInt code), (''status'', JStr status), (''message'', JStr message),
       (''details'', JArr [detail])])]"

definition error_info :: "string \<Rightarrow> (string \<times> json) list \<Rightarrow> json" where
  "error_info reason extra =
     jobj ([(''@type'', JStr ''type.googleapis.com/google.rpc.ErrorInfo''), (''reason'', JStr reason),
       (''domain'', JStr ''a2a-protocol.org'')] @ extra)"

definition encode_v1_error :: "json \<Rightarrow> u16 \<Rightarrow> json" where
  "encode_v1_error value status =
     (if jget ''error'' value \<noteq> None then value
      else
        let message = (case Option.bind (case jget ''detail'' value of Some d \<Rightarrow> Some d | None \<Rightarrow> jget ''title'' value) as_str of
                         Some m \<Rightarrow> m | None \<Rightarrow> ''A2A request failed'');
            legacy_code = (case Option.bind (jget ''code'' value) as_str of Some c \<Rightarrow> c | None \<Rightarrow> ''request.failed'')
        in rpc_error (uint status) (canonical_status_name status) message (error_info (error_reason legacy_code) []))"

subsection \<open>The middleware\<close>

record HttpRequest =
  rq_path :: string
  rq_method :: string
  rq_headers :: "(string \<times> string) list"
  rq_body :: string

record HttpResponse =
  hr_status :: u16
  hr_headers :: "(string \<times> string) list"
  hr_body :: string

record ProtocolMetricsSnapshot =
  pm_v03_requests :: u64
  pm_v10_requests :: u64
  pm_rejected_version_requests :: u64

record protocol_env =
  pe_json :: json_codec
  pe_json_error :: "string \<Rightarrow> string"
  pe_read_error :: string
  pe_b64_ok :: "string \<Rightarrow> bool"
  pe_to_str :: "string \<Rightarrow> string option"
  pe_from_str :: "string \<Rightarrow> string option"

definition MAX_PROTOCOL_BODY_BYTES :: nat where "MAX_PROTOCOL_BODY_BYTES = 4 * 1024 * 1024"
definition A2A_VERSION_HEADER :: string where "A2A_VERSION_HEADER = ''a2a-version''"
definition A2A_MEDIA_TYPE :: string where "A2A_MEDIA_TYPE = ''application/a2a+json''"

text \<open>\<open>Value::to_string\<close> does not fail.\<close>

definition body_text :: "protocol_env \<Rightarrow> json \<Rightarrow> string" where
  "body_text env v = (case json_to_string (pe_json env) v of Some t \<Rightarrow> t | None \<Rightarrow> [])"

definition hinsert :: "string \<Rightarrow> string \<Rightarrow> (string \<times> string) list \<Rightarrow> (string \<times> string) list" where
  "hinsert k v hs = filter (\<lambda>(k', _). k' \<noteq> k) hs @ [(k, v)]"

definition boundary_error :: "protocol_env \<Rightarrow> u16 \<Rightarrow> string \<Rightarrow> json \<Rightarrow> HttpResponse" where
  "boundary_error env status media_type body =
     \<lparr>hr_status = status, hr_headers = [(''content-type'', media_type), (A2A_VERSION_HEADER, ''1.0'')],
      hr_body = body_text env body\<rparr>"

fun requested_version :: "NegotiationError \<Rightarrow> string" where
  "requested_version (InvalidFormat v) = v"
| "requested_version (Unsupported v) = v"
| "requested_version (LegacyPath v) = v"

definition version_error :: "protocol_env \<Rightarrow> NegotiationError \<Rightarrow> string \<Rightarrow> HttpResponse" where
  "version_error env err media_type =
     (let requested = requested_version err;
          message = (case err of
              InvalidFormat _ \<Rightarrow> ''A2A-Version must use the Major.Minor format''
            | Unsupported _ \<Rightarrow> ''A2A protocol version '' @ quoted requested @
                '' is not supported; supported versions are 0.3 and 1.0''
            | LegacyPath _ \<Rightarrow> ''The /v1 compatibility path supports A2A 0.3 only; use the unprefixed interface for A2A 1.0'')
      in boundary_error env 400 media_type (rpc_error 400 ''FAILED_PRECONDITION'' message
           (error_info ''VERSION_NOT_SUPPORTED'' [(''metadata'',
              jobj [(''requestedVersion'', JStr requested), (''supportedVersions'', JStr ''0.3,1.0'')])])))"

definition invalid_v1_request :: "protocol_env \<Rightarrow> string \<Rightarrow> string \<Rightarrow> HttpResponse" where
  "invalid_v1_request env message media_type =
     boundary_error env 400 media_type (rpc_error 400 ''INVALID_ARGUMENT'' message (error_info ''INVALID_REQUEST'' []))"

definition unsupported_content_type :: "protocol_env \<Rightarrow> string \<Rightarrow> string \<Rightarrow> HttpResponse" where
  "unsupported_content_type env content_type media_type =
     boundary_error env 415 media_type (rpc_error 415 ''UNIMPLEMENTED''
       (''Content-Type '' @ quoted content_type @ '' is not supported'') (error_info ''CONTENT_TYPE_NOT_SUPPORTED'' []))"

definition header_text :: "protocol_env \<Rightarrow> string \<Rightarrow> (string \<times> string) list \<Rightarrow> string option" where
  "header_text env k hs = Option.bind (map_of hs k) (pe_to_str env)"

definition response_media_type :: "protocol_env \<Rightarrow> (string \<times> string) list \<Rightarrow> string" where
  "response_media_type env hs =
     (case Option.bind (case map_of hs ''content-type'' of Some v \<Rightarrow> Some v | None \<Rightarrow> map_of hs ''accept'') (pe_to_str env) of
        Some value \<Rightarrow> if list_ex (\<lambda>item. starts_with A2A_MEDIA_TYPE (trim item)) (split_char CHR '','' value)
                      then A2A_MEDIA_TYPE else ''application/json''
      | None \<Rightarrow> ''application/json'')"

definition is_send_path :: "string \<Rightarrow> bool" where
  "is_send_path path \<longleftrightarrow> ends_with ''/message:send'' path \<or> ends_with ''/message:stream'' path
     \<or> ends_with ''/messages:send'' path \<or> ends_with ''/messages:stream'' path"

text \<open>The request handed to the handler, or the response that refuses it.\<close>

definition transcode_request :: "protocol_env \<Rightarrow> string \<Rightarrow> HttpRequest \<Rightarrow> HttpResponse + HttpRequest" where
  "transcode_request env media_type request =
     (if length (rq_body request) > MAX_PROTOCOL_BODY_BYTES
      then Inl (invalid_v1_request env (''request body could not be read: '' @ pe_read_error env) media_type)
      else if rq_body request = [] then Inr request
      else
        let content_type = trim (hd (split_char CHR '';''
              (case header_text env ''content-type'' (rq_headers request) of Some v \<Rightarrow> v | None \<Rightarrow> [])))
        in if content_type \<noteq> ''application/json'' \<and> content_type \<noteq> A2A_MEDIA_TYPE
           then Inl (unsupported_content_type env content_type media_type)
           else
             (case and_then (ok_or (pe_json_error env (rq_body request)) (json_from_str (pe_json env) (rq_body request)))
                     (\<lambda>value. if is_send_path (rq_path request) then decode_v1_request (pe_b64_ok env) value else Inr value) of
                Inl e \<Rightarrow> Inl (invalid_v1_request env e media_type)
              | Inr value \<Rightarrow> Inr (request\<lparr>rq_body := body_text env value\<rparr>)))"

definition transcode_body :: "string \<Rightarrow> u16 \<Rightarrow> json \<Rightarrow> json" where
  "transcode_body path status value0 =
     (if is_success status
      then let value = encode_v1_response value0
           in if (ends_with ''/message:send'' path \<or> ends_with ''/messages:send'' path)
                \<and> jget ''id'' value \<noteq> None \<and> jget ''task'' value = None
              then jobj [(''task'', value)] else value
      else encode_v1_error value0 status)"

definition transcode_response :: "protocol_env \<Rightarrow> string \<Rightarrow> string \<Rightarrow> HttpResponse \<Rightarrow> HttpResponse" where
  "transcode_response env media_type path response0 =
     (let response = (case header_text env ''location'' (hr_headers response0) of
            Some location \<Rightarrow>
              (case pe_from_str env (replace_str ''/v1/tasks/'' ''/tasks/'' location) of
                 Some value \<Rightarrow> response0\<lparr>hr_headers := hinsert ''location'' value (hr_headers response0)\<rparr>
               | None \<Rightarrow> response0)
          | None \<Rightarrow> response0);
          content_type = (case header_text env ''content-type'' (hr_headers response) of Some v \<Rightarrow> v | None \<Rightarrow> []);
          typed = response\<lparr>hr_headers := hinsert ''content-type'' media_type (hr_headers response)\<rparr>
      in if starts_with ''text/event-stream'' content_type then response
         else if length (hr_body response) > MAX_PROTOCOL_BODY_BYTES
         then invalid_v1_request env (''response body could not be encoded: '' @ pe_read_error env) media_type
         else if hr_body response = [] then typed
         else
           (case json_from_str (pe_json env) (hr_body response) of
              None \<Rightarrow> response
            | Some value \<Rightarrow> typed\<lparr>hr_body := body_text env (transcode_body path (hr_status response) value)\<rparr>))"

text \<open>
  \<open>next\<close> is the wrapped handler, on the state \<open>h\<close> it may change; the metrics count the selected and the
  rejected versions.
\<close>

definition protocol_middleware ::
  "protocol_env \<Rightarrow> (ProtocolVersion \<Rightarrow> HttpRequest \<Rightarrow> 'h \<Rightarrow> HttpResponse \<times> 'h) \<Rightarrow>
   ProtocolMetricsSnapshot \<Rightarrow> 'h \<Rightarrow> HttpRequest \<Rightarrow> HttpResponse \<times> ProtocolMetricsSnapshot \<times> 'h" where
  "protocol_middleware env next_handler metrics h request =
     (let legacy_path = ''v1'' \<in> set (split_char CHR ''/'' (rq_path request));
          media_type = response_media_type env (rq_headers request)
      in case negotiate (header_text env A2A_VERSION_HEADER (rq_headers request)) legacy_path of
           Inl e \<Rightarrow> (version_error env e media_type,
             metrics\<lparr>pm_rejected_version_requests := pm_rejected_version_requests metrics + 1\<rparr>, h)
         | Inr version \<Rightarrow>
             let metrics' = (case version of
                     V0_3 \<Rightarrow> metrics\<lparr>pm_v03_requests := pm_v03_requests metrics + 1\<rparr>
                   | V1_0 \<Rightarrow> metrics\<lparr>pm_v10_requests := pm_v10_requests metrics + 1\<rparr>)
             in case (if version = V1_0 \<and> rq_method request \<noteq> ''GET''
                      then transcode_request env media_type request else Inr request) of
                  Inl refusal \<Rightarrow> (refusal, metrics', h)
                | Inr request' \<Rightarrow>
                    let (response0, h') = next_handler version request' h;
                        response = response0\<lparr>hr_headers := hinsert ''vary'' ''A2A-Version, Accept''
                          (hinsert A2A_VERSION_HEADER (as_header_value version) (hr_headers response0))\<rparr>
                    in ((if version \<noteq> V1_0 then response
                         else transcode_response env media_type (rq_path request) response), metrics', h'))"



subsection \<open>What decoding promises\<close>

definition key_sorted :: "jmap \<Rightarrow> bool" where
  "key_sorted m = sorted_wrt (<) (map fst m)"

lemma set_jinsert: "fst ` set (jinsert k v m) = insert k (fst ` set m)"
  by (induction k v m rule: jinsert.induct) auto

lemma key_sorted_jinsert: "key_sorted m \<Longrightarrow> key_sorted (jinsert k v m)"
proof (induction k v m rule: jinsert.induct)
  case (2 k v k' v' m)
  then have "\<forall>x \<in> fst ` set (jinsert k v m). k' < x" if "\<not> k < k'" "k \<noteq> k'"
    using that set_jinsert [of k v m] by (auto simp: key_sorted_def)
  with 2 show ?case by (auto simp: key_sorted_def dest: order.strict_trans)
qed (simp add: key_sorted_def)

lemma key_sorted_copy: "key_sorted m \<Longrightarrow> key_sorted (copy_optional k v m)"
  by (simp add: copy_optional_def key_sorted_jinsert split: option.split)

lemma key_sorted_jremove: "key_sorted m \<Longrightarrow> key_sorted (jremove k m)"
  by (induction m) (auto simp: key_sorted_def jremove_def)

lemma map_of_copy: "map_of (copy_optional k v m) k' = (if k' = k \<and> v \<noteq> None then v else map_of m k')"
  by (auto simp: copy_optional_def split: option.split)

lemma map_of_rev_distinct: "distinct (map fst xs) \<Longrightarrow> map_of (rev xs) = map_of xs"
  by (subst map_of_inject_set) (simp_all add: rev_map [symmetric])

lemma map_of_collect_map:
  assumes "key_sorted m"
  shows "map_of (collect_map (map (\<lambda>(k, v). (k, f k v)) m)) k = map_option (f k) (map_of m k)"
proof -
  have "distinct (map fst (map (\<lambda>(k, v). (k, f k v)) m))"
    using assms by (simp add: key_sorted_def strict_sorted_iff case_prod_unfold comp_def)
  then have "map_of (collect_map (map (\<lambda>(k, v). (k, f k v)) m)) k = map_of (map (\<lambda>(k, v). (k, f k v)) m) k"
    by (simp add: collect_map_def map_of_jinsert_fold map_of_rev_distinct split: option.split)
  also have "\<dots> = map_option (f k) (map_of m k)" by (induction m) auto
  finally show ?thesis .
qed

lemma map_of_retain: "map_of (retain_known_map allowed m) k = (if k \<in> set allowed then map_of m k else None)"
  by (induction m) (auto simp: retain_known_map_def)

lemma key_sorted_legacy_part: "legacy_part field content mt fn md = JObj m \<Longrightarrow> key_sorted m"
  by (auto simp: legacy_part_def Let_def split: if_splits intro!: key_sorted_copy key_sorted_jinsert)
    (simp_all add: key_sorted_def)

lemma singleton_filter: "filter P xs = [x] \<Longrightarrow> y \<in> set xs \<Longrightarrow> P y \<longleftrightarrow> y = x"
  by (drule arg_cong [where f = set]) auto

text \<open>What a successful decoding of a part has read.\<close>

lemma decode_v1_partE:
  assumes "decode_v1_part b64_ok p = Inr q"
  obtains m field content where "p = JObj m" "map_of m ''kind'' = None" "field \<in> set CONTENT_FIELDS"
    "map_of m field = Some content" "\<forall>k \<in> set CONTENT_FIELDS. k \<noteq> field \<longrightarrow> map_of m k = None"
    "content_error b64_ok field content = None"
    "q = legacy_part field content (map_of m ''mediaType'') (map_of m ''filename'') (map_of m ''metadata'')"
proof -
  obtain m where m: "p = JObj m" "map_of m ''kind'' = None"
    using assms by (auto simp: decode_v1_part_def and_then_Inr as_object_def split: json.splits if_splits)
  let ?m = "retain_known_map PART_FIELDS m"
  from assms m obtain field where field: "filter (\<lambda>f. map_of ?m f \<noteq> None) CONTENT_FIELDS = [field]"
    "content_error b64_ok field (the (map_of ?m field)) = None"
    "q = legacy_part field (the (map_of ?m field)) (map_of ?m ''mediaType'') (map_of ?m ''filename'') (map_of ?m ''metadata'')"
    by (auto simp: decode_v1_part_def as_object_def Let_def split: list.split_asm option.split_asm)
  have in_part: "k \<in> set CONTENT_FIELDS \<Longrightarrow> map_of ?m k = map_of m k" for k
    by (auto simp: CONTENT_FIELDS_def PART_FIELDS_def map_of_retain)
  have "field \<in> set (filter (\<lambda>f. map_of ?m f \<noteq> None) CONTENT_FIELDS)" using field(1) by simp
  then obtain content where content: "field \<in> set CONTENT_FIELDS" "map_of m field = Some content"
    using in_part by auto
  moreover have "\<forall>k \<in> set CONTENT_FIELDS. k \<noteq> field \<longrightarrow> map_of m k = None"
    using singleton_filter [OF field(1)] in_part by metis
  ultimately show thesis
    using m field in_part [OF content(1)]
    by (intro that [of m field content]) (simp_all add: map_of_retain PART_FIELDS_def)
qed

text \<open>The shape every part has inside the executor.\<close>

definition legacy_part_typed :: "(string \<Rightarrow> bool) \<Rightarrow> json \<Rightarrow> bool" where
  "legacy_part_typed b64_ok p =
     (case p of
        JObj m \<Rightarrow>
          (map_of m ''kind'' = Some (JStr ''text'') \<and> (\<exists>s. map_of m ''text'' = Some (JStr s)))
          \<or> (map_of m ''kind'' = Some (JStr ''data'') \<and> (\<exists>v. map_of m ''data'' = Some v))
          \<or> (map_of m ''kind'' = Some (JStr ''file'') \<and> (\<exists>f s. map_of m ''file'' = Some (JObj f)
               \<and> (map_of f ''bytes'' = Some (JStr s) \<and> b64_ok s \<or> map_of f ''uri'' = Some (JStr s))))
      | _ \<Rightarrow> False)"

declare as_str_Some [simp]

lemma decode_v1_part_typed: "decode_v1_part b64_ok p = Inr q \<Longrightarrow> legacy_part_typed b64_ok q"
  by (erule decode_v1_partE)
    (auto simp: CONTENT_FIELDS_def legacy_part_def legacy_part_typed_def content_error_def map_of_copy
      split: if_splits option.splits)

lemma decode_v1_parts_typed:
  "decode_v1_parts b64_ok i ps = Inr qs \<Longrightarrow> length qs = length ps \<and> list_all (legacy_part_typed b64_ok) qs"
  by (induction b64_ok i ps arbitrary: qs rule: decode_v1_parts.induct)
    (auto simp: and_then_Inr dest: decode_v1_part_typed split: sum.split_asm)

definition legacy_message_typed :: "(string \<Rightarrow> bool) \<Rightarrow> json \<Rightarrow> bool" where
  "legacy_message_typed b64_ok v =
     (case v of
        JObj m \<Rightarrow>
          map_of m ''kind'' = None
          \<and> (\<exists>id. id \<noteq> [] \<and> map_of m ''messageId'' = Some (JStr id))
          \<and> (map_of m ''role'' = Some (JStr ''user'') \<or> map_of m ''role'' = Some (JStr ''agent''))
          \<and> (\<exists>ps. ps \<noteq> [] \<and> map_of m ''parts'' = Some (JArr ps) \<and> list_all (legacy_part_typed b64_ok) ps)
      | _ \<Rightarrow> False)"

lemma decode_v1_message_typed: "decode_v1_message b64_ok m = Inr m' \<Longrightarrow> legacy_message_typed b64_ok (JObj m')"
  by (auto simp: decode_v1_message_def legacy_message_typed_def Let_def and_then_Inr map_of_retain MESSAGE_FIELDS_def
      bind_eq_Some_conv split: if_splits option.splits json.splits list.splits dest!: decode_v1_parts_typed)

subsection \<open>Every answer names the version it is given in\<close>

lemma map_of_hinsert: "map_of (hinsert k v hs) k' = (if k' = k then Some v else map_of hs k')"
  by (induction hs) (auto simp: hinsert_def)

lemma boundary_error_version:
  "map_of (hr_headers (boundary_error env status mt body)) A2A_VERSION_HEADER = Some ''1.0''"
  by (simp add: boundary_error_def A2A_VERSION_HEADER_def)

lemmas boundary_errors = invalid_v1_request_def unsupported_content_type_def version_error_def

lemma transcode_request_refusal_version:
  "transcode_request env mt rq = Inl r \<Longrightarrow> map_of (hr_headers r) A2A_VERSION_HEADER = Some ''1.0''"
  by (auto simp: transcode_request_def Let_def boundary_errors boundary_error_version split: if_split_asm sum.split_asm)

lemma transcode_response_version:
  "map_of (hr_headers r) A2A_VERSION_HEADER = Some ''1.0'' \<Longrightarrow>
   map_of (hr_headers (transcode_response env mt path r)) A2A_VERSION_HEADER = Some ''1.0''"
  by (auto simp: transcode_response_def Let_def boundary_errors map_of_hinsert A2A_VERSION_HEADER_def
      boundary_error_version [unfolded A2A_VERSION_HEADER_def] split: option.split)

lemma middleware_answers_version:
  "map_of (hr_headers (fst (protocol_middleware env next_handler ms h rq))) A2A_VERSION_HEADER \<in> {Some ''0.3'', Some ''1.0''}"
proof (cases "negotiate (header_text env A2A_VERSION_HEADER (rq_headers rq)) (''v1'' \<in> set (split_char CHR ''/'' (rq_path rq)))")
  case (Inl e)
  then show ?thesis by (simp add: protocol_middleware_def Let_def boundary_errors boundary_error_version)
next
  case (Inr v)
  then show ?thesis
    by (cases v)
      (auto simp: protocol_middleware_def Let_def map_of_hinsert A2A_VERSION_HEADER_def
        intro: transcode_response_version [unfolded A2A_VERSION_HEADER_def]
        dest: transcode_request_refusal_version [unfolded A2A_VERSION_HEADER_def]
        split: sum.split prod.split)
qed

text \<open>A request refused at the boundary does not reach the handler.\<close>

lemma middleware_refusal_keeps_state:
  assumes "negotiate (header_text env A2A_VERSION_HEADER (rq_headers rq)) (''v1'' \<in> set (split_char CHR ''/'' (rq_path rq))) = Inl e"
  shows "snd (snd (protocol_middleware env next_handler ms h rq)) = h"
  using assms by (simp add: protocol_middleware_def Let_def)

text \<open>
  C30. What reaches a handler from a 1.0 client is well typed. Whenever the boundary passes on a
  request with a body to one of the send paths, the body it passes is the text of a JSON object whose message
  carries no legacy discriminator of its own, a non-empty message id, the role user or agent and at
  least one part, every part being text with a string, data, or a file given by valid base64 or by a
  URL string; nothing else about the request changes, and it was declared as JSON.
\<close>

theorem v1_request_typed:
  assumes "transcode_request env media_type request = Inr request'"
    and "is_send_path (rq_path request)" and "rq_body request \<noteq> []"
  shows "\<exists>body message. request' = request\<lparr>rq_body := body_text env body\<rparr>
    \<and> jget ''message'' body = Some message \<and> legacy_message_typed (pe_b64_ok env) message
    \<and> length (rq_body request) \<le> MAX_PROTOCOL_BODY_BYTES \<and> header_text env ''content-type'' (rq_headers request) \<noteq> None"
proof -
  obtain v body where body: "length (rq_body request) \<le> MAX_PROTOCOL_BODY_BYTES"
      "request' = request\<lparr>rq_body := body_text env body\<rparr>" "decode_v1_request (pe_b64_ok env) v = Inr body"
      "header_text env ''content-type'' (rq_headers request) \<noteq> None"
    using assms by (auto simp: transcode_request_def Let_def trim_def A2A_MEDIA_TYPE_def and_then_Inr ok_or_def
        split: if_split_asm sum.split_asm option.split_asm)
  from body(3) obtain m m' body2 where "decode_v1_message (pe_b64_ok env) m = Inr m'" "jset ''message'' (JObj m') body2 = Some body"
    by (auto simp: decode_v1_request_def and_then_Inr split: if_split_asm option.split_asm)
  then have "jget ''message'' body = Some (JObj m')" "legacy_message_typed (pe_b64_ok env) (JObj m')"
    by (simp_all add: jget_jset decode_v1_message_typed)
  with body show ?thesis by blast
qed

lemma as_str_JStr [simp]: "as_str (JStr s) = Some s"
  by (simp add: as_str_def)

lemma encode_text_part:
  assumes "field \<in> {''text'', ''data''}"
  shows "\<exists>m'. encode_value pk (legacy_part field c mt fn md) = JObj m' \<and> (\<forall>k. map_of m' k =
    map_option (encode_value (Some k)) (if k = field then Some c else if k = ''metadata'' then md
      else if k = ''mediaType'' then mt else if k = ''filename'' then fn else None))"
proof -
  obtain l where l: "legacy_part field c mt fn md = JObj l"
      "l = copy_optional ''filename'' fn (copy_optional ''mediaType'' mt (copy_optional ''metadata'' md
             (jinsert field c [(''kind'', JStr field)])))"
    using assms by (auto simp: legacy_part_def)
  let ?m = "collect_map (map (\<lambda>(k, v). (k, encode_value (Some k) v)) (jremove ''kind'' l))"
  have "map_of l ''kind'' = Some (JStr field)" using assms by (auto simp: l(2) map_of_copy)
  then have "encode_value pk (JObj l) = JObj ?m" using assms by (auto simp: is_legacy_part_def encode_part_def Let_def)
  moreover have "map_of ?m k = map_option (encode_value (Some k)) (map_of (jremove ''kind'' l) k)" for k
    by (rule map_of_collect_map [OF key_sorted_jremove [OF key_sorted_legacy_part [OF l(1)]]])
  moreover have "map_of (jremove ''kind'' l) k = (if k = field then Some c else if k = ''metadata'' then md
      else if k = ''mediaType'' then mt else if k = ''filename'' then fn else None)" for k
    using assms by (auto simp: l(2) map_of_copy)
  ultimately show ?thesis
    unfolding l(1) by (intro exI [of _ ?m] conjI allI) (simp_all only:)
qed

lemma encode_file_part:
  assumes "field \<in> {''raw'', ''url''}"
  shows "\<exists>m'. encode_value pk (legacy_part field c mt fn md) = JObj m' \<and> (\<forall>k. map_of m' k =
    (if k = field then Some c else if k = ''mediaType'' then mt else if k = ''filename'' then fn
     else if k = ''metadata'' then map_option (encode_value (Some k)) md else None))"
proof -
  let ?file = "copy_optional ''name'' fn (copy_optional ''mimeType'' mt [((if field = ''raw'' then ''bytes'' else ''uri''), c)])"
  let ?l = "copy_optional ''metadata'' md (jinsert ''file'' (JObj ?file) [(''kind'', JStr ''file'')])"
  let ?m = "copy_optional ''metadata'' (map_option (encode_value (Some ''metadata'')) md) (encode_file ?file)"
  have l: "legacy_part field c mt fn md = JObj ?l" using assms by (auto simp: legacy_part_def Let_def)
  have members: "map_of ?l ''kind'' = Some (JStr ''file'')" "map_of ?l ''file'' = Some (JObj ?file)"
      "map_of ?l ''metadata'' = md"
    by (simp_all add: map_of_copy)
  have "encode_value pk (JObj ?l) = encode_part (\<lambda>k. encode_value (Some k)) ?l"
    by (simp add: is_legacy_part_def map_of_copy)
  also have "\<dots> = JObj ?m"
    unfolding encode_part_def map_of_jremove Let_def members
    by (simp add: as_object_def copy_optional_def split: option.split)
  finally have "encode_value pk (legacy_part field c mt fn md) = JObj ?m" by (simp only: l)
  moreover have "map_of (encode_file ?file) k = (if k = field then Some c else if k = ''mediaType'' then mt
      else if k = ''filename'' then fn else None)" for k
    using assms by (auto simp: encode_file_def first_of_def map_of_copy split: option.split)
  ultimately show ?thesis
    using assms by (intro exI [of _ ?m] conjI allI) (simp, cases md, simp_all add: map_of_copy, blast+)
qed


subsection \<open>A concrete request\<close>

definition demo_v1_part :: jmap where
  "demo_v1_part = [(''mediaType'', JStr ''image/png''), (''raw'', JStr ''AAAA'')]"

definition demo_v1_body :: json where
  "demo_v1_body = JObj [(''message'', JObj [(''messageId'', JStr ''m-1''), (''parts'', JArr [JObj demo_v1_part]),
     (''role'', JStr ''ROLE_USER''), (''trace'', JNull)])]"

definition demo_legacy_part :: json where
  "demo_legacy_part = JObj [(''file'', JObj [(''bytes'', JStr ''AAAA''), (''mimeType'', JStr ''image/png'')]),
     (''kind'', JStr ''file'')]"

definition demo_legacy_body :: json where
  "demo_legacy_body = JObj [(''message'', JObj [(''messageId'', JStr ''m-1''), (''parts'', JArr [demo_legacy_part]),
     (''role'', JStr ''user'')])]"

definition demo_protocol_env :: protocol_env where
  "demo_protocol_env = \<lparr>pe_json = table_codec [JNull, demo_v1_body, demo_legacy_body], pe_json_error = (\<lambda>_. ''json''),
     pe_read_error = ''read'', pe_b64_ok = (\<lambda>s. length s = 4), pe_to_str = Some, pe_from_str = Some\<rparr>"

definition demo_send :: HttpRequest where
  "demo_send = \<lparr>rq_path = ''/message:send'', rq_method = ''POST'',
     rq_headers = [(''content-type'', ''application/json; charset=utf-8'')], rq_body = ''x''\<rparr>"

lemmas demo_protocol_defs = demo_v1_part_def demo_v1_body_def demo_legacy_part_def demo_legacy_body_def
  demo_protocol_env_def demo_send_def

lemma demo_part_decoded: "decode_v1_part (\<lambda>s. length s = 4) (JObj demo_v1_part) = Inr demo_legacy_part"
  by (simp add: demo_protocol_defs decode_v1_part_def as_object_def retain_known_map_def PART_FIELDS_def
      CONTENT_FIELDS_def content_error_def legacy_part_def copy_optional_def Let_def eval_simps)

lemma demo_body_decoded: "decode_v1_request (\<lambda>s. length s = 4) demo_v1_body = Inr demo_legacy_body"
  using demo_part_decoded
  by (simp add: demo_v1_body_def demo_legacy_body_def decode_v1_request_def decode_v1_message_def as_object_def
      retain_known_map_def retain_known_fields_def MESSAGE_FIELDS_def Let_def eval_simps)

theorem v1_request_typed_witness:
  "\<exists>body message. transcode_request demo_protocol_env ''application/json'' demo_send = Inr (demo_send\<lparr>rq_body := body_text demo_protocol_env body\<rparr>)
     \<and> jget ''message'' body = Some message \<and> legacy_message_typed (\<lambda>s. length s = 4) message"
proof -
  have t: "transcode_request demo_protocol_env ''application/json'' demo_send = Inr (demo_send\<lparr>rq_body := ''xx''\<rparr>)"
    using demo_body_decoded
    by (simp add: transcode_request_def MAX_PROTOCOL_BODY_BYTES_def demo_send_def demo_protocol_env_def header_text_def
        is_send_path_def table_codec_def body_text_def Let_def eval_simps)
      (simp add: demo_protocol_defs)
  have "is_send_path (rq_path demo_send)" "rq_body demo_send \<noteq> []" "pe_b64_ok demo_protocol_env = (\<lambda>s. length s = 4)"
    by (simp_all add: demo_protocol_defs is_send_path_def eval_simps)
  with t v1_request_typed [OF t] show ?thesis by auto
qed


end
