(* ===== verification/Callback_Policy.thy ===== *)
theory Callback_Policy
  imports Rust_Prelude "HOL-Library.Product_Lexorder"
begin

section \<open>Destinations of push callbacks (\<open>handlers/push_callback_policy.rs\<close>)\<close>

text \<open>
  Callback URLs are chosen by clients. The policy accepts only HTTPS URLs on port 443 and only public
  addresses, re-checked on every delivery attempt. URL parsing belongs to the URL library and is the
  parameter \<open>parse_url\<close>; the address types, their textual forms and their parser are those of the
  standard library and are modelled here, scope and flow identifiers of socket addresses excepted.
\<close>

unbundle bit_operations_syntax

subsection \<open>Addresses\<close>

datatype Ipv4Addr = Ipv4 u8 u8 u8 u8
datatype Ipv6Addr = Ipv6 u16 u16 u16 u16 u16 u16 u16 u16
datatype IpAddr = V4 Ipv4Addr | V6 Ipv6Addr

type_synonym SocketAddr = "IpAddr \<times> u16"

definition be_bytes :: "u16 \<Rightarrow> u8 \<times> u8" where
  "be_bytes w = (ucast (drop_bit 8 w), ucast w)"

definition from_be_bytes :: "u8 \<Rightarrow> u8 \<Rightarrow> u16" where
  "from_be_bytes a b = push_bit 8 (ucast a) OR ucast b"

fun segments :: "Ipv6Addr \<Rightarrow> u16 list" where
  "segments (Ipv6 a b c d e f g h) = [a, b, c, d, e, f, g, h]"

definition v4_of :: "u16 \<Rightarrow> u16 \<Rightarrow> Ipv4Addr" where
  "v4_of ab cd = (case (be_bytes ab, be_bytes cd) of ((a, b), (c, d)) \<Rightarrow> Ipv4 a b c d)"

text \<open>IPv4-compatible and IPv4-mapped addresses.\<close>

fun to_ipv4 :: "Ipv6Addr \<Rightarrow> Ipv4Addr option" where
  "to_ipv4 (Ipv6 a b c d e f g h) =
     (if a = 0 \<and> b = 0 \<and> c = 0 \<and> d = 0 \<and> e = 0 \<and> (f = 0 \<or> f = 0xFFFF) then Some (v4_of g h) else None)"

fun to_ipv4_mapped :: "Ipv6Addr \<Rightarrow> Ipv4Addr option" where
  "to_ipv4_mapped (Ipv6 a b c d e f g h) =
     (if a = 0 \<and> b = 0 \<and> c = 0 \<and> d = 0 \<and> e = 0 \<and> f = 0xFFFF then Some (v4_of g h) else None)"

definition is_unspecified :: "Ipv6Addr \<Rightarrow> bool" where
  "is_unspecified ip \<longleftrightarrow> ip = Ipv6 0 0 0 0 0 0 0 0"

definition is_loopback :: "Ipv6Addr \<Rightarrow> bool" where
  "is_loopback ip \<longleftrightarrow> ip = Ipv6 0 0 0 0 0 0 0 1"

definition is_multicast :: "Ipv6Addr \<Rightarrow> bool" where
  "is_multicast ip \<longleftrightarrow> segments ip ! 0 AND 0xFF00 = 0xFF00"

subsection \<open>Text of addresses\<close>

fun to_digit :: "nat \<Rightarrow> char \<Rightarrow> nat option" where
  "to_digit radix c =
     (let n = (of_char c :: nat);
          v = (if 48 \<le> n \<and> n \<le> 57 then Some (n - 48)
               else if 97 \<le> n \<and> n \<le> 122 then Some (n - 87)
               else if 65 \<le> n \<and> n \<le> 90 then Some (n - 55) else None)
      in case v of Some d \<Rightarrow> if d < radix then Some d else None | None \<Rightarrow> None)"

text \<open>The digits at the front of the input, with the value and their number; too many digits fail.\<close>

fun read_digits :: "nat \<Rightarrow> nat \<Rightarrow> nat \<Rightarrow> nat \<Rightarrow> string \<Rightarrow> (nat \<times> nat \<times> string) option" where
  "read_digits radix max_digits value count [] = Some (value, count, [])"
| "read_digits radix max_digits value count (c # cs) =
     (case to_digit radix c of
        None \<Rightarrow> Some (value, count, c # cs)
      | Some d \<Rightarrow> if count + 1 > max_digits then None
                  else read_digits radix max_digits (value * radix + d) (count + 1) cs)"

definition read_number :: "nat \<Rightarrow> nat \<Rightarrow> bool \<Rightarrow> nat \<Rightarrow> string \<Rightarrow> (nat \<times> string) option" where
  "read_number radix max_digits allow_zero_prefix bound s =
     (case read_digits radix max_digits 0 0 s of
        None \<Rightarrow> None
      | Some (value, count, rest) \<Rightarrow>
          if count = 0 then None
          else if \<not> allow_zero_prefix \<and> hd s = CHR ''0'' \<and> count > 1 then None
          else if value < bound then Some (value, rest) else None)"

definition read_char :: "char \<Rightarrow> string \<Rightarrow> string option" where
  "read_char c s = (case s of x # xs \<Rightarrow> if x = c then Some xs else None | [] \<Rightarrow> None)"

definition read_octet :: "string \<Rightarrow> (u8 \<times> string) option" where
  "read_octet s = map_option (\<lambda>(n, r). (of_nat n, r)) (read_number 10 3 False 256 s)"

definition read_ipv4_addr :: "string \<Rightarrow> (Ipv4Addr \<times> string) option" where
  "read_ipv4_addr s =
     Option.bind (read_octet s) (\<lambda>(a, s1). Option.bind (read_char CHR ''.'' s1) (\<lambda>s1.
     Option.bind (read_octet s1) (\<lambda>(b, s2). Option.bind (read_char CHR ''.'' s2) (\<lambda>s2.
     Option.bind (read_octet s2) (\<lambda>(c, s3). Option.bind (read_char CHR ''.'' s3) (\<lambda>s3.
     Option.bind (read_octet s3) (\<lambda>(d, s4). Some (Ipv4 a b c d, s4))))))))"

definition separated :: "nat \<Rightarrow> string \<Rightarrow> string option" where
  "separated i s = (if i > 0 then read_char CHR '':'' s else Some s)"

text \<open>Groups \<open>i\<close> up to \<open>limit\<close>: the groups read, whether they end in an IPv4 address, and the rest.\<close>

function read_groups :: "nat \<Rightarrow> nat \<Rightarrow> string \<Rightarrow> u16 list \<times> bool \<times> string" where
  "read_groups i limit s =
     (if limit \<le> i then ([], False, s)
      else case (if i < limit - 1 then Option.bind (separated i s) read_ipv4_addr else None) of
        Some (Ipv4 a b c d, rest) \<Rightarrow> ([from_be_bytes a b, from_be_bytes c d], True, rest)
      | None \<Rightarrow>
          (case Option.bind (separated i s) (read_number 16 4 True 65536) of
             Some (g, rest) \<Rightarrow>
               let (gs, v4, rest') = read_groups (i + 1) limit rest in (of_nat g # gs, v4, rest')
           | None \<Rightarrow> ([], False, s)))"
  by pat_completeness auto
termination
  by (relation "measure (\<lambda>(i, limit, s). limit - i)") auto

definition ipv6_of :: "u16 list \<Rightarrow> Ipv6Addr" where
  "ipv6_of gs = Ipv6 (gs ! 0) (gs ! 1) (gs ! 2) (gs ! 3) (gs ! 4) (gs ! 5) (gs ! 6) (gs ! 7)"

definition read_ipv6_addr :: "string \<Rightarrow> (Ipv6Addr \<times> string) option" where
  "read_ipv6_addr s =
     (case read_groups 0 8 s of
        (hd_groups, v4, s1) \<Rightarrow>
          if length hd_groups = 8 then Some (ipv6_of hd_groups, s1)
          else if v4 then None
          else Option.bind (read_char CHR '':'' s1) (\<lambda>s2. Option.bind (read_char CHR '':'' s2) (\<lambda>s3.
            case read_groups 0 (8 - (length hd_groups + 1)) s3 of
              (tl_groups, _, s4) \<Rightarrow>
                Some (ipv6_of (hd_groups @ replicate (8 - length hd_groups - length tl_groups) 0 @ tl_groups), s4))))"

definition parse_ip :: "string \<Rightarrow> IpAddr option" where
  "parse_ip s =
     (case (case read_ipv4_addr s of
              Some (ip, rest) \<Rightarrow> Some (V4 ip, rest)
            | None \<Rightarrow> map_option (\<lambda>(ip, rest). (V6 ip, rest)) (read_ipv6_addr s)) of
        Some (ip, []) \<Rightarrow> Some ip
      | _ \<Rightarrow> None)"

fun hex_digits :: "nat \<Rightarrow> string" where
  "hex_digits n = (let d = char_of (if n mod 16 < 10 then 48 + n mod 16 else 87 + n mod 16)
                   in if n < 16 then [d] else hex_digits (n div 16) @ [d])"

declare hex_digits.simps [simp del]

fun ipv4_text :: "Ipv4Addr \<Rightarrow> string" where
  "ipv4_text (Ipv4 a b c d) =
     digits (unat a) @ ''.'' @ digits (unat b) @ ''.'' @ digits (unat c) @ ''.'' @ digits (unat d)"

definition groups_text :: "u16 list \<Rightarrow> string" where
  "groups_text gs = concat (case map (\<lambda>g. hex_digits (unat g)) gs of [] \<Rightarrow> [] | x # xs \<Rightarrow> x # map ((#) CHR '':'') xs)"

text \<open>The first longest run of zero groups: start and length of the best run and of the current one.\<close>

fun zero_run :: "nat \<Rightarrow> nat \<times> nat \<Rightarrow> nat \<times> nat \<Rightarrow> u16 list \<Rightarrow> nat \<times> nat" where
  "zero_run i best cur [] = best"
| "zero_run i best (start, len) (g # gs) =
     (if g = 0 then
        let cur = ((if len = 0 then i else start), len + 1)
        in zero_run (i + 1) (if snd cur > snd best then cur else best) cur gs
      else zero_run (i + 1) best (0, 0) gs)"

definition ipv6_text :: "Ipv6Addr \<Rightarrow> string" where
  "ipv6_text ip =
     (case to_ipv4_mapped ip of
        Some v4 \<Rightarrow> ''::ffff:'' @ ipv4_text v4
      | None \<Rightarrow>
          let gs = segments ip; (start, len) = zero_run 0 (0, 0) (0, 0) gs
          in if len > 1 then groups_text (take start gs) @ ''::'' @ groups_text (drop (start + len) gs)
             else groups_text gs)"

fun ip_text :: "IpAddr \<Rightarrow> string" where
  "ip_text (V4 ip) = ipv4_text ip"
| "ip_text (V6 ip) = ipv6_text ip"

subsection \<open>The policy\<close>

definition MAX_CONFIGS_PER_TASK :: nat where "MAX_CONFIGS_PER_TASK = 16"
definition MAX_CONCURRENT_DELIVERIES :: nat where "MAX_CONCURRENT_DELIVERIES = 4"
definition MAX_CALLBACK_URL_BYTES :: nat where "MAX_CALLBACK_URL_BYTES = 2048"

text \<open>What the code reads of a parsed URL.\<close>

record Url =
  url_text :: string
  url_scheme :: string
  url_username :: string
  url_password :: "string option"
  url_fragment :: "string option"
  url_port :: "u16 option"
  url_host_str :: "string option"

record ValidatedCallbackUrl =
  cb_url :: Url
  cb_host :: string
  cb_port :: u16

definition canonical_url :: "ValidatedCallbackUrl \<Rightarrow> string" where
  "canonical_url t = url_text (cb_url t)"

datatype CallbackPolicyError =
    Malformed | TooLong | RequiresHttps | Credentials | Fragment | DisallowedPort | MissingHost
  | ResolutionFailed | NoAddresses | NonPublicAddress | ClientBuild

fun is_public_ipv4 :: "Ipv4Addr \<Rightarrow> bool" where
  "is_public_ipv4 (Ipv4 a b c _) \<longleftrightarrow>
     \<not> (a = 0 \<or> a = 10 \<or> a = 127
        \<or> (a = 100 \<and> 64 \<le> b \<and> b \<le> 127)
        \<or> (a = 172 \<and> 16 \<le> b \<and> b \<le> 31)
        \<or> (a = 192 \<and> b = 168)
        \<or> (a = 169 \<and> b = 254)
        \<or> (a = 192 \<and> b = 0 \<and> c = 0)
        \<or> (a = 192 \<and> b = 0 \<and> c = 2)
        \<or> (a = 192 \<and> b = 88 \<and> c = 99)
        \<or> (a = 198 \<and> (b = 18 \<or> b = 19))
        \<or> (a = 198 \<and> b = 51 \<and> c = 100)
        \<or> (a = 203 \<and> b = 0 \<and> c = 113)
        \<or> 224 \<le> a)"

definition is_public_ipv6 :: "Ipv6Addr \<Rightarrow> bool" where
  "is_public_ipv6 ip =
     (case to_ipv4 ip of
        Some v4 \<Rightarrow> is_public_ipv4 v4
      | None \<Rightarrow>
          let fst_seg = segments ip ! 0; snd_seg = segments ip ! 1 in
          if fst_seg AND 0xE000 \<noteq> 0x2000 then False
          else if is_unspecified ip \<or> is_loopback ip \<or> is_multicast ip then False
          else if fst_seg = 0x2001 \<and> snd_seg \<le> 0x01FF then False
          else if fst_seg = 0x2001 \<and> snd_seg = 0x0DB8 then False
          else if fst_seg = 0x2002 then False
          else True)"

fun is_public_ip :: "IpAddr \<Rightarrow> bool" where
  "is_public_ip (V4 ip) = is_public_ipv4 ip"
| "is_public_ip (V6 ip) = is_public_ipv6 ip"

definition require_public_ip :: "IpAddr \<Rightarrow> CallbackPolicyError + unit" where
  "require_public_ip ip = (if is_public_ip ip then Inr () else Inl NonPublicAddress)"

definition callback_host :: "string \<Rightarrow> string" where
  "callback_host host =
     to_ascii_lowercase (rev (dropWhile ((=) CHR '']'') (rev (dropWhile ((=) CHR ''['') host))))"

definition validate_callback_url ::
  "(string \<Rightarrow> Url option) \<Rightarrow> string \<Rightarrow> CallbackPolicyError + ValidatedCallbackUrl" where
  "validate_callback_url parse_url raw0 =
     (let raw = trim raw0 in
      if raw = [] then Inl Malformed
      else if length raw > MAX_CALLBACK_URL_BYTES then Inl TooLong
      else and_then (ok_or Malformed (parse_url raw)) (\<lambda>url.
        if url_scheme url \<noteq> ''https'' then Inl RequiresHttps
        else if url_username url \<noteq> [] \<or> url_password url \<noteq> None then Inl Credentials
        else if url_fragment url \<noteq> None then Inl Fragment
        else if (case url_port url of Some port \<Rightarrow> port \<noteq> 443 | None \<Rightarrow> False) then Inl DisallowedPort
        else and_then (ok_or MissingHost (case url_host_str url of Some h \<Rightarrow> if h \<noteq> [] then Some h else None | None \<Rightarrow> None))
          (\<lambda>h. let host = callback_host h in
            and_then (case parse_ip host of Some ip \<Rightarrow> require_public_ip ip | None \<Rightarrow> Inr ()) (\<lambda>_.
              Inr \<lparr>cb_url = url, cb_host = host, cb_port = 443\<rparr>))))"

fun require_all_public :: "SocketAddr list \<Rightarrow> CallbackPolicyError + unit" where
  "require_all_public [] = Inr ()"
| "require_all_public (a # as) = and_then (require_public_ip (fst a)) (\<lambda>_. require_all_public as)"

text \<open>
  Equal sort keys belong to equal addresses here, so that the sort being unstable is not observable.
\<close>

definition attempt_order :: "SocketAddr list \<Rightarrow> SocketAddr list" where
  "attempt_order addresses = remdups_adj (sort_key (\<lambda>a. (ip_text (fst a), snd a)) addresses)"

definition select_public_destination :: "SocketAddr list \<Rightarrow> u32 \<Rightarrow> CallbackPolicyError + SocketAddr" where
  "select_public_destination addresses attempt =
     (if addresses = [] then Inl NoAddresses
      else and_then (require_all_public addresses) (\<lambda>_.
        let ordered = attempt_order addresses in Inr (ordered ! (unat attempt mod length ordered))))"

text \<open>\<open>lookup_host\<close> is the resolver, \<open>None\<close> a failed lookup.\<close>

definition resolve_public_destination ::
  "(string \<Rightarrow> u16 \<Rightarrow> SocketAddr list option) \<Rightarrow> ValidatedCallbackUrl \<Rightarrow> u32 \<Rightarrow> CallbackPolicyError + SocketAddr" where
  "resolve_public_destination lookup_host target attempt =
     and_then (case parse_ip (cb_host target) of
                 Some ip \<Rightarrow> Inr [(ip, cb_port target)]
               | None \<Rightarrow> ok_or ResolutionFailed (lookup_host (cb_host target) (cb_port target)))
       (\<lambda>addresses. select_public_destination addresses attempt)"

text \<open>The settings of the one-attempt client; building it is the HTTP library's.\<close>

record PinnedClient =
  pc_follow_redirects :: bool
  pc_connect_timeout_secs :: nat
  pc_timeout_secs :: nat
  pc_pool_max_idle_per_host :: nat
  pc_resolve :: "(string \<times> SocketAddr) option"

definition build_pinned_client ::
  "(PinnedClient \<Rightarrow> 'c option) \<Rightarrow> ValidatedCallbackUrl \<Rightarrow> SocketAddr \<Rightarrow> CallbackPolicyError + 'c" where
  "build_pinned_client build target address =
     ok_or ClientBuild (build
       \<lparr>pc_follow_redirects = False, pc_connect_timeout_secs = 5, pc_timeout_secs = 15,
        pc_pool_max_idle_per_host = 0,
        pc_resolve = (if parse_ip (cb_host target) = None then Some (cb_host target, address) else None)\<rparr>)"

subsection \<open>The blocks the policy keeps out\<close>

text \<open>Prefix membership: \<open>v\<close> read as a \<open>width\<close>-bit number agrees with \<open>base\<close> on the first \<open>len\<close> bits.\<close>

definition in_prefix :: "nat \<Rightarrow> nat \<Rightarrow> nat \<times> nat \<Rightarrow> bool" where
  "in_prefix width v p = (case p of (base, len) \<Rightarrow> v div 2 ^ (width - len) = base div 2 ^ (width - len))"

definition octets_value :: "nat \<Rightarrow> nat \<Rightarrow> nat \<Rightarrow> nat \<Rightarrow> nat" where
  "octets_value a b c d = ((a * 256 + b) * 256 + c) * 256 + d"

fun ipv4_value :: "Ipv4Addr \<Rightarrow> nat" where
  "ipv4_value (Ipv4 a b c d) = octets_value (unat a) (unat b) (unat c) (unat d)"

text \<open>
  The special-purpose IPv4 blocks, in CIDR form: this network, the three private ranges, shared address space,
  loopback, link local, protocol assignments, the three documentation ranges, the 6to4 relay anycast range,
  benchmarking, and everything from multicast up.
\<close>

definition special_ipv4 :: "(nat \<times> nat) list" where
  "special_ipv4 =
     [(octets_value 0 0 0 0, 8), (octets_value 10 0 0 0, 8), (octets_value 127 0 0 0, 8),
      (octets_value 100 64 0 0, 10), (octets_value 172 16 0 0, 12), (octets_value 192 168 0 0, 16),
      (octets_value 169 254 0 0, 16), (octets_value 192 0 0 0, 24), (octets_value 192 0 2 0, 24),
      (octets_value 192 88 99 0, 24), (octets_value 198 18 0 0, 15), (octets_value 198 51 100 0, 24),
      (octets_value 203 0 113 0, 24), (octets_value 224 0 0 0, 3)]"

lemma octets_div:
  assumes "b < 256" "c < 256" "d < 256"
  shows "octets_value a b c d div 16777216 = a" "octets_value a b c d div 65536 = a * 256 + b"
    "octets_value a b c d div 256 = (a * 256 + b) * 256 + c" "octets_value a b c d div 4194304 = a * 4 + b div 64"
    "octets_value a b c d div 1048576 = a * 16 + b div 16" "octets_value a b c d div 131072 = a * 128 + b div 2"
    "octets_value a b c d div 536870912 = a div 32"
  using assms by (simp_all add: octets_value_def)

lemma octet_bound: "unat (w :: u8) < 256"
  using unsigned_less [of w] by simp

lemma radix_eq:
  assumes "b < m" "b' < m"
  shows "a * m + b = a' * m + b' \<longleftrightarrow> a = a' \<and> b = (b' :: nat)"
proof -
  have "(a * m + b) div m = a" "(a * m + b) mod m = b" "(a' * m + b') div m = a'" "(a' * m + b') mod m = b'"
    using assms by simp_all
  then show ?thesis by metis
qed

lemma in_prefix_8:
  assumes "b < 256" "c < 256" "d < 256"
  shows "in_prefix 32 (octets_value a b c d) (octets_value a' 0 0 0, 8) \<longleftrightarrow> a = a'"
  using assms by (simp add: in_prefix_def octets_div)

lemma in_prefix_16:
  assumes "b < 256" "c < 256" "d < 256" and "b' < 256"
  shows "in_prefix 32 (octets_value a b c d) (octets_value a' b' 0 0, 16) \<longleftrightarrow> a = a' \<and> b = b'"
  using assms by (simp add: in_prefix_def octets_div radix_eq)

lemma in_prefix_24:
  assumes "b < 256" "c < 256" "d < 256" and "b' < 256" "c' < 256"
  shows "in_prefix 32 (octets_value a b c d) (octets_value a' b' c' 0, 24) \<longleftrightarrow> a = a' \<and> b = b' \<and> c = c'"
  using assms radix_eq [of c 256 c' "a * 256 + b" "a' * 256 + b'"] radix_eq [of b 256 b' a a']
  by (simp add: in_prefix_def octets_div)

lemma in_prefix_10:
  assumes "b < 256" "c < 256" "d < 256"
  shows "in_prefix 32 (octets_value a b c d) (octets_value 100 64 0 0, 10) \<longleftrightarrow> a = 100 \<and> 64 \<le> b \<and> b \<le> 127"
proof -
  have "b div 64 < 4" "b div 64 = 1 \<longleftrightarrow> 64 \<le> b \<and> b \<le> 127" using assms by linarith+
  then have "a * 4 + b div 64 = 401 \<longleftrightarrow> a = 100 \<and> 64 \<le> b \<and> b \<le> 127"
    using radix_eq [of "b div 64" 4 1 a 100] by simp
  with assms show ?thesis by (simp add: in_prefix_def octets_div)
qed

lemma in_prefix_12:
  assumes "b < 256" "c < 256" "d < 256"
  shows "in_prefix 32 (octets_value a b c d) (octets_value 172 16 0 0, 12) \<longleftrightarrow> a = 172 \<and> 16 \<le> b \<and> b \<le> 31"
proof -
  have "b div 16 < 16" "b div 16 = 1 \<longleftrightarrow> 16 \<le> b \<and> b \<le> 31" using assms by linarith+
  then have "a * 16 + b div 16 = 2753 \<longleftrightarrow> a = 172 \<and> 16 \<le> b \<and> b \<le> 31"
    using radix_eq [of "b div 16" 16 1 a 172] by simp
  with assms show ?thesis by (simp add: in_prefix_def octets_div)
qed

lemma in_prefix_15:
  assumes "b < 256" "c < 256" "d < 256"
  shows "in_prefix 32 (octets_value a b c d) (octets_value 198 18 0 0, 15) \<longleftrightarrow> a = 198 \<and> (b = 18 \<or> b = 19)"
proof -
  have "b div 2 < 128" "b div 2 = 9 \<longleftrightarrow> b = 18 \<or> b = 19" using assms by linarith+
  then have "a * 128 + b div 2 = 25353 \<longleftrightarrow> a = 198 \<and> (b = 18 \<or> b = 19)"
    using radix_eq [of "b div 2" 128 9 a 198] by simp
  with assms show ?thesis by (simp add: in_prefix_def octets_div)
qed

lemma in_prefix_3:
  assumes "a < 256" "b < 256" "c < 256" "d < 256"
  shows "in_prefix 32 (octets_value a b c d) (octets_value 224 0 0 0, 3) \<longleftrightarrow> 224 \<le> a"
proof -
  have "a div 32 = 7 \<longleftrightarrow> 224 \<le> a" using assms by linarith
  with assms show ?thesis by (simp add: in_prefix_def octets_div)
qed

lemmas octet_prefixes = in_prefix_3 in_prefix_8 in_prefix_10 in_prefix_12 in_prefix_15 in_prefix_16 in_prefix_24

lemma is_public_ipv4_blocks:
  "is_public_ipv4 ip \<longleftrightarrow> (\<forall>p \<in> set special_ipv4. \<not> in_prefix 32 (ipv4_value ip) p)"
proof (cases ip)
  case (Ipv4 a b c d)
  have "is_public_ipv4 ip \<longleftrightarrow>
     \<not> (unat a = 0 \<or> unat a = 10 \<or> unat a = 127 \<or> (unat a = 100 \<and> 64 \<le> unat b \<and> unat b \<le> 127)
        \<or> (unat a = 172 \<and> 16 \<le> unat b \<and> unat b \<le> 31) \<or> (unat a = 192 \<and> unat b = 168)
        \<or> (unat a = 169 \<and> unat b = 254) \<or> (unat a = 192 \<and> unat b = 0 \<and> unat c = 0)
        \<or> (unat a = 192 \<and> unat b = 0 \<and> unat c = 2) \<or> (unat a = 192 \<and> unat b = 88 \<and> unat c = 99)
        \<or> (unat a = 198 \<and> (unat b = 18 \<or> unat b = 19)) \<or> (unat a = 198 \<and> unat b = 51 \<and> unat c = 100)
        \<or> (unat a = 203 \<and> unat b = 0 \<and> unat c = 113) \<or> 224 \<le> unat a)"
    unfolding Ipv4 is_public_ipv4.simps by (simp only: word_unat_eq_iff word_le_nat_alt) simp
  then show ?thesis
    using octet_bound [of a] octet_bound [of b] octet_bound [of c] octet_bound [of d]
    unfolding Ipv4 special_ipv4_def ipv4_value.simps by (simp add: octet_prefixes)
qed

text \<open>
  The IPv6 side looks at the first 32 bits: global unicast is \<open>2000::/3\<close> without the protocol assignments
  \<open>2001::/23\<close>, the documentation prefix \<open>2001:db8::/32\<close> and 6to4 \<open>2002::/16\<close>.
\<close>

definition ipv6_prefix :: "Ipv6Addr \<Rightarrow> nat" where
  "ipv6_prefix ip = unat (segments ip ! 0) * 65536 + unat (segments ip ! 1)"

definition special_ipv6 :: "(nat \<times> nat) list" where
  "special_ipv6 = [(0x20010000, 23), (0x20010DB8, 32), (0x20020000, 16)]"

fun routable :: "IpAddr \<Rightarrow> bool" where
  "routable (V4 ip) \<longleftrightarrow> (\<forall>p \<in> set special_ipv4. \<not> in_prefix 32 (ipv4_value ip) p)"
| "routable (V6 ip) \<longleftrightarrow>
     (case to_ipv4 ip of
        Some v4 \<Rightarrow> \<forall>p \<in> set special_ipv4. \<not> in_prefix 32 (ipv4_value v4) p
      | None \<Rightarrow> in_prefix 32 (ipv6_prefix ip) (0x20000000, 3)
                \<and> (\<forall>p \<in> set special_ipv6. \<not> in_prefix 32 (ipv6_prefix ip) p))"

lemma segment_bound: "unat (w :: u16) < 65536"
  using unsigned_less [of w] by simp

lemma and_high_bits: "(x :: u16) AND NOT (mask n) = push_bit n (drop_bit n x)"
  by (rule bit_word_eqI) (auto simp: bit_simps)

lemma segment_top: "w AND 0xE000 = (0x2000 :: u16) \<longleftrightarrow> unat w div 8192 = 1"
proof -
  have "(0xE000 :: u16) = NOT (mask 13)" by (simp add: mask_eq_exp_minus_1)
  then have "w AND 0xE000 = push_bit 13 (drop_bit 13 w)" using and_high_bits [of w 13] by simp
  moreover have "unat w div 8192 < 8" using segment_bound [of w] by linarith
  ultimately have "unat (w AND 0xE000) = (unat w div 8192) * 8192"
    by (simp add: push_bit_eq_mult drop_bit_eq_div unat_word_ariths unat_div)
  then show ?thesis by (simp add: word_unat_eq_iff)
qed

lemma segment_multicast: "w AND 0xFF00 = (0xFF00 :: u16) \<Longrightarrow> unat w div 8192 \<noteq> 1"
proof -
  assume w: "w AND 0xFF00 = (0xFF00 :: u16)"
  have "w AND 0xE000 = (w AND 0xFF00) AND 0xE000" by (simp add: and.assoc)
  also have "\<dots> = 0xE000" by (simp add: w)
  finally show ?thesis unfolding segment_top [symmetric] by simp
qed

lemma is_public_ip_routable: "is_public_ip ip \<longleftrightarrow> routable ip"
proof (cases ip)
  case (V6 a)
  define v w where "v = unat (segments a ! 0)" and "w = unat (segments a ! 1)"
  have bounds: "v < 65536" "w < 65536" unfolding v_def w_def by (rule segment_bound)+
  have prefix: "ipv6_prefix a = v * 65536 + w" by (simp add: ipv6_prefix_def v_def w_def)
  have outside: "v div 8192 = 1 \<Longrightarrow> \<not> (is_unspecified a \<or> is_loopback a \<or> is_multicast a)"
    using segment_multicast [of "segments a ! 0"]
    by (auto simp: v_def is_unspecified_def is_loopback_def is_multicast_def)
  have top: "in_prefix 32 (ipv6_prefix a) (0x20000000, 3) \<longleftrightarrow> v div 8192 = 1"
    using bounds by (simp add: in_prefix_def prefix) linarith
  have teredo: "in_prefix 32 (ipv6_prefix a) (0x20010000, 23) \<longleftrightarrow> v = 0x2001 \<and> w \<le> 0x1FF"
    using bounds radix_eq [of "w div 512" 128 0 v 8193] by (simp add: in_prefix_def prefix) linarith
  have documentation: "in_prefix 32 (ipv6_prefix a) (0x20010DB8, 32) \<longleftrightarrow> v = 0x2001 \<and> w = 0xDB8"
    using bounds radix_eq [of w 65536 3512 v 8193] by (simp add: in_prefix_def prefix)
  have sixtofour: "in_prefix 32 (ipv6_prefix a) (0x20020000, 16) \<longleftrightarrow> v = 0x2002"
    using bounds by (simp add: in_prefix_def prefix)
  have words: "segments a ! 0 = 0x2001 \<longleftrightarrow> v = 0x2001" "segments a ! 0 = 0x2002 \<longleftrightarrow> v = 0x2002"
    "segments a ! 1 = 0xDB8 \<longleftrightarrow> w = 0xDB8" "segments a ! 1 \<le> 0x1FF \<longleftrightarrow> w \<le> 0x1FF"
    by (simp_all add: v_def w_def word_unat_eq_iff word_le_nat_alt)
  show ?thesis
    unfolding V6 is_public_ip.simps routable.simps is_public_ipv6_def Let_def special_ipv6_def segment_top words
      v_def [symmetric] is_public_ipv4_blocks list.set ball_simps top teredo documentation sixtofour
    using outside by (auto split: option.split)
qed (simp add: is_public_ipv4_blocks)


subsection \<open>What a delivery may connect to\<close>

lemma require_all_public_exact:
  "require_all_public as = (if \<forall>a \<in> set as. routable (fst a) then Inr () else Inl NonPublicAddress)"
  by (induction as) (auto simp: require_public_ip_def is_public_ip_routable)

lemma attempt_order_set: "set (attempt_order as) = set as" "length (attempt_order as) \<le> length as"
  using remdups_adj_length [of "sort_key (\<lambda>a. (ip_text (fst a), snd a)) as"] by (simp_all add: attempt_order_def)

lemma select_public_destination_exact:
  "select_public_destination as n =
     (if as = [] then Inl NoAddresses
      else if \<forall>a \<in> set as. routable (fst a) then Inr (attempt_order as ! (unat n mod length (attempt_order as)))
      else Inl NonPublicAddress)"
  by (simp add: select_public_destination_def require_all_public_exact Let_def)

lemma select_public_destination_from:
  assumes "select_public_destination as n = Inr a"
  shows "a \<in> set as \<and> (\<forall>b \<in> set as. routable (fst b))"
proof -
  have "as \<noteq> []" "\<forall>b \<in> set as. routable (fst b)" "a = attempt_order as ! (unat n mod length (attempt_order as))"
    using assms unfolding select_public_destination_exact by (simp_all split: if_split_asm)
  moreover have "attempt_order as \<noteq> []" using \<open>as \<noteq> []\<close> attempt_order_set(1) [of as] by force
  ultimately show ?thesis by (metis attempt_order_set(1) length_greater_0_conv mod_less_divisor nth_mem)
qed

text \<open>Every answered address has its turn within as many attempts as there are answers.\<close>

lemma select_public_destination_turns:
  assumes "a \<in> set as" and "\<forall>b \<in> set as. routable (fst b)" and "length as < 2 ^ 32"
  shows "\<exists>k < length as. select_public_destination as (of_nat k) = Inr a"
proof -
  from assms(1) obtain k where k: "k < length (attempt_order as)" "attempt_order as ! k = a"
    by (metis attempt_order_set(1) in_set_conv_nth)
  with attempt_order_set(2) [of as] assms(3) have "k < length as" "unat (of_nat k :: u32) = k"
    by (simp_all add: unat_of_nat take_bit_eq_mod)
  moreover have "as \<noteq> []" using assms(1) by auto
  ultimately show ?thesis
    using k assms(2) by (intro exI [of _ k]) (simp add: select_public_destination_exact)
qed

lemma validate_callback_url_ok:
  assumes "validate_callback_url parse_url raw = Inr t"
  shows "url_scheme (cb_url t) = ''https'' \<and> url_username (cb_url t) = [] \<and> url_password (cb_url t) = None
    \<and> url_fragment (cb_url t) = None \<and> url_port (cb_url t) \<in> {None, Some 443} \<and> cb_port t = 443
    \<and> (\<forall>ip. parse_ip (cb_host t) = Some ip \<longrightarrow> routable ip)"
  using assms
  by (auto simp: validate_callback_url_def Let_def and_then_Inr require_public_ip_def is_public_ip_routable
      split: if_splits option.splits)

text \<open>
  C12. A delivery connects only to public addresses. When a callback URL was accepted and an attempt
  resolved it, the URL is HTTPS without credentials and without a port other than 443, and the address
  chosen lies in none of the special-purpose blocks, in CIDR terms, of IPv4 (also when embedded in an
  IPv6 address) and of IPv6. A literal host is connected to as written; for a name, the address is one
  of the resolver's answers for port 443, every one of those answers is public, and the client is
  pinned to it.
\<close>

theorem callback_target_public:
  assumes "validate_callback_url parse_url raw = Inr t"
    and "resolve_public_destination lookup_host t attempt = Inr address"
    and "build_pinned_client Some t address = Inr client"
  shows "url_scheme (cb_url t) = ''https'' \<and> url_username (cb_url t) = [] \<and> url_password (cb_url t) = None
    \<and> url_port (cb_url t) \<in> {None, Some 443}
    \<and> routable (fst address) \<and> \<not> pc_follow_redirects client
    \<and> (case parse_ip (cb_host t) of
         Some ip \<Rightarrow> address = (ip, 443) \<and> pc_resolve client = None
       | None \<Rightarrow> pc_resolve client = Some (cb_host t, address)
           \<and> (\<exists>answers. lookup_host (cb_host t) 443 = Some answers \<and> address \<in> set answers
                \<and> (\<forall>a \<in> set answers. routable (fst a))))"
proof -
  note url = validate_callback_url_ok [OF assms(1)]
  obtain answers where answers: "select_public_destination answers attempt = Inr address"
      "case parse_ip (cb_host t) of Some ip \<Rightarrow> answers = [(ip, 443)] | None \<Rightarrow> lookup_host (cb_host t) 443 = Some answers"
    using assms(2) url
    by (auto simp: resolve_public_destination_def and_then_Inr split: option.split_asm)
  with url assms(3) select_public_destination_from [OF answers(1)] show ?thesis
    by (auto simp: build_pinned_client_def split: option.splits)
qed

definition demo_url :: Url where
  "demo_url = \<lparr>url_text = ''https://ex.org/'', url_scheme = ''https'', url_username = [], url_password = None,
     url_fragment = None, url_port = None, url_host_str = Some ''ex.org''\<rparr>"

definition demo_lookup :: "string \<Rightarrow> u16 \<Rightarrow> SocketAddr list option" where
  "demo_lookup host port = (if host = ''ex.org'' then Some [(V4 (Ipv4 93 184 216 34), port), (V4 (Ipv4 8 8 8 8), port)] else None)"

lemma demo_callback_text:
  "parse_ip ''ex.org'' = None" "ip_text (V4 (Ipv4 93 184 216 34)) = ''93.184.216.34''" "ip_text (V4 (Ipv4 8 8 8 8)) = ''8.8.8.8''"
  by (simp_all add: parse_ip_def read_ipv4_addr_def read_ipv6_addr_def read_octet_def read_number_def separated_def
      read_char_def digits.simps char_of_def bit_0)

theorem callback_target_public_witness:
  "\<exists>t client. validate_callback_url (\<lambda>_. Some demo_url) '' https://ex.org '' = Inr t
     \<and> resolve_public_destination demo_lookup t 1 = Inr (V4 (Ipv4 93 184 216 34), 443)
     \<and> build_pinned_client Some t (V4 (Ipv4 93 184 216 34), 443) = Inr client
     \<and> routable (V4 (Ipv4 93 184 216 34)) \<and> pc_resolve client = Some (''ex.org'', (V4 (Ipv4 93 184 216 34), 443))"
proof -
  let ?t = "\<lparr>cb_url = demo_url, cb_host = ''ex.org'', cb_port = 443\<rparr>"
  have v: "validate_callback_url (\<lambda>_. Some demo_url) '' https://ex.org '' = Inr ?t"
    by (simp add: validate_callback_url_def demo_url_def callback_host_def MAX_CALLBACK_URL_BYTES_def
        demo_callback_text Let_def eval_simps)
  have r: "resolve_public_destination demo_lookup ?t 1 = Inr (V4 (Ipv4 93 184 216 34), 443)"
    by (simp add: resolve_public_destination_def demo_lookup_def select_public_destination_def require_public_ip_def
        attempt_order_def demo_callback_text less_prod_def less_char_def del: ip_text.simps)
  obtain client where c: "build_pinned_client Some ?t (V4 (Ipv4 93 184 216 34), 443) = Inr client"
    by (simp add: build_pinned_client_def)
  show ?thesis
    using v r c callback_target_public [OF v r c] demo_callback_text by auto
qed

end
