(* ===== verification/Push_Notifications.thy ===== *)
theory Push_Notifications
  imports A2a_Protocol Callback_Policy
begin

section \<open>Push notifications (\<open>handlers/push_notification.rs\<close>, \<open>handlers/push_delivery.rs\<close>)\<close>

text \<open>
  The handlers that register, read, list and delete callback configurations of a task, and the worker
  that posts status updates to them. URL parsing, the HMAC, name resolution and the HTTP exchange are
  parameters; the clock and generated ids are arguments.
\<close>

subsection \<open>Configurations on the wire\<close>

definition auth_secret_configured :: "json \<Rightarrow> bool" where
  "auth_secret_configured auth =
     (case jget ''secret'' auth of
        Some v \<Rightarrow> v \<noteq> JNull \<and> (case as_str v of Some s \<Rightarrow> s \<noteq> [] | None \<Rightarrow> False)
      | None \<Rightarrow> False)"

definition str_or :: "string \<Rightarrow> json option \<Rightarrow> string" where
  "str_or d v = (case Option.bind v as_str of Some s \<Rightarrow> s | None \<Rightarrow> d)"

definition config_to_wire :: "handler_env \<Rightarrow> PushNotificationConfigRow \<Rightarrow> json" where
  "config_to_wire env row =
     (let auth_out = (case pc_auth_json row of
            Some auth \<Rightarrow> jobj [(''type'', JStr (str_or ''none'' (jget ''type'' auth))),
              (''configured'', JBool (auth_secret_configured auth))]
          | None \<Rightarrow> jobj [(''type'', JStr ''none''), (''configured'', JBool False)])
      in jobj [(''id'', JStr (pc_config_id row)), (''task_id'', JStr (pc_task_id row)), (''url'', JStr (pc_url row)),
           (''created_at'', JStr (rfc3339 env (pc_created_at row))), (''auth'', auth_out)])"

definition config_to_v1_wire :: "PushNotificationConfigRow \<Rightarrow> json" where
  "config_to_v1_wire row =
     jobj ([(''id'', JStr (pc_config_id row)), (''taskId'', JStr (pc_task_id row)), (''url'', JStr (pc_url row))] @
       (case Option.bind (Option.bind (pc_auth_json row) (jget ''type'')) as_str of
          Some scheme \<Rightarrow> if eq_ignore_ascii_case scheme ''none'' then []
                         else [(''authentication'', jobj [(''scheme'', JStr scheme)])]
        | None \<Rightarrow> []))"

fun config_to_protocol_wire :: "handler_env \<Rightarrow> PushNotificationConfigRow \<Rightarrow> ProtocolVersion \<Rightarrow> json" where
  "config_to_protocol_wire env row V0_3 = config_to_wire env row"
| "config_to_protocol_wire env row V1_0 = config_to_v1_wire row"

subsection \<open>Accepting a configuration\<close>

fun policy_text :: "CallbackPolicyError \<Rightarrow> string" where
  "policy_text Malformed = ''callback URL is malformed''"
| "policy_text TooLong = ''callback URL exceeds the length limit''"
| "policy_text RequiresHttps = ''callback URL must use HTTPS''"
| "policy_text Credentials = ''callback URL must not contain credentials''"
| "policy_text Fragment = ''callback URL must not contain a fragment''"
| "policy_text DisallowedPort = ''callback URL must use port 443''"
| "policy_text MissingHost = ''callback URL must contain an unambiguous host''"
| "policy_text ResolutionFailed = ''callback host did not resolve''"
| "policy_text NoAddresses = ''callback host resolved to no addresses''"
| "policy_text NonPublicAddress = ''callback destination is not a public address''"
| "policy_text ClientBuild = ''callback HTTP client could not be constructed''"

definition invalid_url :: "string \<Rightarrow> string \<Rightarrow> Response" where
  "invalid_url instance_id detail =
     error_response 400 ''https://agentic-sandbox.aiwg.io/errors/push-invalid-url'' ''Invalid push subscriber URL''
       detail ''push.invalid_url'' None (Some instance_id)"

definition config_not_found :: "string \<Rightarrow> string \<Rightarrow> string \<Rightarrow> Response" where
  "config_not_found instance_id cid tid =
     error_response 404 ''https://agentic-sandbox.aiwg.io/errors/push-config-not-found''
       ''Push notification config not found'' (''Config '' @ quoted cid @ '' not found for task '' @ quoted tid)
       ''push.config_not_found'' None (Some instance_id)"

definition nonblank :: "json option \<Rightarrow> string option" where
  "nonblank v = Option.bind (Option.bind v as_str) (\<lambda>s. if trim s = [] then None else Some (trim s))"

definition normalize_auth :: "json \<Rightarrow> json option" where
  "normalize_auth body =
     (case jget ''authentication'' body of
        Some authentication \<Rightarrow>
          Some (jobj [(''type'', JStr (to_ascii_lowercase (str_or ''none'' (jget ''scheme'' authentication)))),
            (''secret'', JStr (str_or [] (jget ''credentials'' authentication)))])
      | None \<Rightarrow> jget ''auth'' body)"

text \<open>\<open>fresh_id\<close> is the generated version 7 UUID.\<close>

definition parse_create_body ::
  "(string \<Rightarrow> Url option) \<Rightarrow> string \<Rightarrow> json \<Rightarrow> string \<Rightarrow> Response + (string \<times> string \<times> json option)" where
  "parse_create_body parse_url fresh_id body instance_id =
     and_then
       (case nonblank (jget ''url'' body) of
          Some u \<Rightarrow>
            (case validate_callback_url parse_url u of
               Inr target \<Rightarrow> Inr (canonical_url target)
             | Inl reason \<Rightarrow> Inl (invalid_url instance_id (policy_text reason)))
        | None \<Rightarrow> Inl (invalid_url instance_id ''Request body must include a non-empty `url` field''))
       (\<lambda>url. Inr ((case nonblank (jget ''id'' body) of Some i \<Rightarrow> i | None \<Rightarrow> fresh_id), url, normalize_auth body))"

definition persist_bounded_config ::
  "handler_env \<Rightarrow> AppState \<Rightarrow> string \<Rightarrow> PushNotificationConfigRow \<Rightarrow> Response + AppState" where
  "persist_bounded_config env st instance_id cfg =
     (case put_push_config_bounded (he_codec env) (as_store st) cfg (of_nat MAX_CONFIGS_PER_TASK) of
        Inr (outcome, s') \<Rightarrow>
          (case outcome of
             PushConfigWriteOutcome.Created \<Rightarrow> Inr (set_store st s')
           | PushConfigWriteOutcome.Updated \<Rightarrow> Inr (set_store st s')
           | Conflict \<Rightarrow> Inl (error_response 409 ''https://agentic-sandbox.aiwg.io/errors/push-config-conflict''
               ''Push notification config conflict'' ''The supplied config id is unavailable''
               ''push.config_conflict'' None (Some instance_id))
           | LimitReached \<Rightarrow> Inl (error_response 429 ''https://agentic-sandbox.aiwg.io/errors/push-config-limit''
               ''Push notification config limit reached''
               (''A task may register at most '' @ digits MAX_CONFIGS_PER_TASK @ '' callback configs'')
               ''push.config_limit'' None (Some instance_id)))
      | Inl e \<Rightarrow> Inl (internal_error instance_id (''Failed to persist push config: '' @ he_err env e)))"

definition persist_inline_config ::
  "handler_env \<Rightarrow> (string \<Rightarrow> Url option) \<Rightarrow> string \<Rightarrow> timestamp \<Rightarrow> AppState \<Rightarrow> string \<Rightarrow> string \<Rightarrow> json \<Rightarrow>
   Response + AppState" where
  "persist_inline_config env parse_url fresh_id now st instance_id task_id body =
     and_then (parse_create_body parse_url fresh_id body instance_id) (\<lambda>(config_id, url, auth_json).
       persist_bounded_config env st instance_id
         \<lparr>pc_config_id = config_id, pc_task_id = task_id, pc_url = url, pc_auth_json = auth_json, pc_created_at = now\<rparr>)"

subsection \<open>The handlers\<close>

definition require_owned_task :: "handler_env \<Rightarrow> AppState \<Rightarrow> string \<Rightarrow> string \<Rightarrow> Response + unit" where
  "require_owned_task env st instance_id tid =
     (case get_task_for_instance (he_codec env) (as_store st) instance_id tid of
        Inr (Some _) \<Rightarrow> Inr ()
      | Inr None \<Rightarrow> Inl (task_not_found instance_id (''Task '' @ quoted tid @ '' not found''))
      | Inl e \<Rightarrow> Inl (internal_error instance_id (''Failed to read task: '' @ he_err env e)))"

text \<open>A missing request body is read as \<open>null\<close>.\<close>

definition create_config ::
  "handler_env \<Rightarrow> (string \<Rightarrow> Url option) \<Rightarrow> string \<Rightarrow> timestamp \<Rightarrow> ProtocolVersion \<Rightarrow> AppState \<Rightarrow>
   string \<Rightarrow> string \<Rightarrow> json option \<Rightarrow> Response \<times> AppState" where
  "create_config env parse_url fresh_id now version st instance_id tid body0 =
     (let body = (case body0 of Some v \<Rightarrow> v | None \<Rightarrow> JNull) in
      case parse_create_body parse_url fresh_id body instance_id of
        Inl resp \<Rightarrow> (resp, st)
      | Inr (config_id, url, auth) \<Rightarrow>
          (case require_owned_task env st instance_id tid of
             Inl resp \<Rightarrow> (resp, st)
           | Inr _ \<Rightarrow>
               let cfg = \<lparr>pc_config_id = config_id, pc_task_id = tid, pc_url = url, pc_auth_json = auth, pc_created_at = now\<rparr>
               in case persist_bounded_config env st instance_id cfg of
                    Inl resp \<Rightarrow> (resp, st)
                  | Inr st' \<Rightarrow> ((json_response (config_to_protocol_wire env cfg version))\<lparr>rs_status := 201\<rparr>, st')))"

definition get_config ::
  "handler_env \<Rightarrow> ProtocolVersion \<Rightarrow> AppState \<Rightarrow> string \<Rightarrow> string \<Rightarrow> string \<Rightarrow> Response" where
  "get_config env version st instance_id tid cid =
     (case require_owned_task env st instance_id tid of
        Inl resp \<Rightarrow> resp
      | Inr _ \<Rightarrow>
          (case get_push_config (he_codec env) (as_store st) cid of
             Inr (Some row) \<Rightarrow> if pc_task_id row = tid then json_response (config_to_protocol_wire env row version)
                               else config_not_found instance_id cid tid
           | Inr None \<Rightarrow> config_not_found instance_id cid tid
           | Inl e \<Rightarrow> internal_error instance_id (''Failed to read push config: '' @ he_err env e)))"

definition list_configs ::
  "handler_env \<Rightarrow> (push_cols list \<Rightarrow> push_cols list) \<Rightarrow> ProtocolVersion \<Rightarrow> AppState \<Rightarrow> string \<Rightarrow> string \<Rightarrow> Response" where
  "list_configs env ord version st instance_id tid =
     (case require_owned_task env st instance_id tid of
        Inl resp \<Rightarrow> resp
      | Inr _ \<Rightarrow>
          (case list_push_configs ord (he_codec env) (as_store st) tid of
             Inr rows \<Rightarrow> json_response (jobj [(''configs'', JArr (map (\<lambda>row. config_to_protocol_wire env row version) rows))])
           | Inl e \<Rightarrow> internal_error instance_id (''Failed to list push configs: '' @ he_err env e)))"

definition no_content :: Response where
  "no_content = \<lparr>rs_status = 204, rs_headers = [], rs_body = None\<rparr>"

text \<open>The SQL deletion itself does not fail in the model.\<close>

definition delete_config ::
  "handler_env \<Rightarrow> ProtocolVersion \<Rightarrow> AppState \<Rightarrow> string \<Rightarrow> string \<Rightarrow> string \<Rightarrow> Response \<times> AppState" where
  "delete_config env version st instance_id tid cid =
     (case require_owned_task env st instance_id tid of
        Inl resp \<Rightarrow> (resp, st)
      | Inr _ \<Rightarrow>
          (case get_push_config (he_codec env) (as_store st) cid of
             Inr (Some row) \<Rightarrow>
               if pc_task_id row = tid
               then (no_content, set_store st (snd (delete_push_config (as_store st) cid)))
               else (config_not_found instance_id cid tid, st)
           | Inr None \<Rightarrow> (if version = V1_0 then no_content else config_not_found instance_id cid tid, st)
           | Inl e \<Rightarrow> (internal_error instance_id (''Failed to read push config: '' @ he_err env e), st)))"


subsection \<open>Delivery\<close>

definition MAX_ATTEMPTS :: nat where "MAX_ATTEMPTS = 3"
definition BACKOFF_SECS :: "nat list" where "BACKOFF_SECS = [1, 2, 4]"

text \<open>
  What the worker uses of other libraries. The resolver and the exchange may answer differently on
  every attempt, so the attempt is an argument; \<open>dv_send\<close> returns the status, or \<open>None\<close> for a
  transport error.
\<close>

record DeliveryRequest =
  dq_client :: PinnedClient
  dq_url :: string
  dq_headers :: "(string \<times> string) list"
  dq_body :: string

record delivery_env =
  dv_parse_url :: "string \<Rightarrow> Url option"
  dv_lookup :: "nat \<Rightarrow> string \<Rightarrow> u16 \<Rightarrow> SocketAddr list option"
  dv_build :: "PinnedClient \<Rightarrow> PinnedClient option"
  dv_hmac_sha256 :: "string \<Rightarrow> string \<Rightarrow> string"
  dv_now :: "nat \<Rightarrow> timestamp"
  dv_send :: "nat \<Rightarrow> DeliveryRequest \<Rightarrow> u16 option"

definition build_body :: "DeliveryEvent \<Rightarrow> json" where
  "build_body ev =
     (let legacy_status = (case jget ''status'' (de_status_event ev) of Some s \<Rightarrow> s | None \<Rightarrow> de_status_event ev);
          encoded = encode_v1_response (jobj [(''status'', legacy_status)]);
          ctx = (case Option.bind (jget ''context_id'' (de_status_event ev)) as_str of
                   Some c \<Rightarrow> [(''contextId'', JStr c)] | None \<Rightarrow> [])
      in jobj [(''statusUpdate'', jobj ([(''taskId'', JStr (de_task_id ev))] @ ctx @
           [(''status'', jindex ''status'' encoded)]))])"

definition hex_byte :: "char \<Rightarrow> string" where
  "hex_byte c = (let n = (of_char c :: nat) in hex_digits (n div 16) @ hex_digits (n mod 16))"

definition sign_v1 :: "(string \<Rightarrow> string \<Rightarrow> string) \<Rightarrow> string \<Rightarrow> string \<Rightarrow> int \<Rightarrow> string" where
  "sign_v1 hmac secret body ts = concat (map hex_byte (hmac secret (i64_to_string ts @ ''.'' @ body)))"

definition decode_auth :: "json option \<Rightarrow> string \<times> string option" where
  "decode_auth auth0 =
     (case auth0 of
        None \<Rightarrow> (''none'', None)
      | Some auth \<Rightarrow> (str_or ''none'' (jget ''type'' auth),
          Option.bind (Option.bind (jget ''secret'' auth) as_str) (\<lambda>s. if s = [] then None else Some s)))"

definition timestamp_secs :: "timestamp \<Rightarrow> int" where "timestamp_secs t = t div 10 ^ 9"

definition auth_headers :: "delivery_env \<Rightarrow> string \<times> string option \<Rightarrow> string \<Rightarrow> int \<Rightarrow> (string \<times> string) list" where
  "auth_headers dv auth body ts =
     (case auth of
        (scheme, None) \<Rightarrow> []
      | (scheme, Some s) \<Rightarrow>
          if scheme = ''bearer'' then [(''authorization'', ''Bearer '' @ s)]
          else if scheme = ''hmac''
          then [(''x-aiwg-signature'', ''t='' @ i64_to_string ts @ '',v1='' @ sign_v1 (dv_hmac_sha256 dv) s body ts)]
          else [])"

datatype DeliveryStep = Post SocketAddr DeliveryRequest | Sleep nat
datatype DeliveryResult = Delivered | DeadLettered "u16 option" | CallbackRejected CallbackPolicyError

definition backoff_secs :: "nat \<Rightarrow> nat" where
  "backoff_secs attempt =
     (if attempt < length BACKOFF_SECS then BACKOFF_SECS ! attempt
      else if BACKOFF_SECS = [] then 4 else last BACKOFF_SECS)"

text \<open>The loop from attempt \<open>attempt\<close>, with \<open>remaining\<close> attempts left; it records what it does.\<close>

fun deliver_attempts ::
  "delivery_env \<Rightarrow> ValidatedCallbackUrl \<Rightarrow> string \<times> string option \<Rightarrow> string \<Rightarrow> u16 option \<Rightarrow> nat \<Rightarrow> nat \<Rightarrow>
   DeliveryStep list \<times> DeliveryResult" where
  "deliver_attempts dv target auth body last_status attempt 0 = ([], DeadLettered last_status)"
| "deliver_attempts dv target auth body last_status attempt (Suc remaining) =
     (case resolve_public_destination (dv_lookup dv attempt) target (of_nat attempt) of
        Inl reason \<Rightarrow> ([], CallbackRejected reason)
      | Inr address \<Rightarrow>
          (case build_pinned_client (dv_build dv) target address of
             Inl reason \<Rightarrow> ([], CallbackRejected reason)
           | Inr client \<Rightarrow>
               let ts = timestamp_secs (dv_now dv attempt);
                   request = \<lparr>dq_client = client, dq_url = canonical_url target,
                     dq_headers = (''content-type'', ''application/json'') # auth_headers dv auth body ts, dq_body = body\<rparr>;
                   status = dv_send dv attempt request;
                   last_status' = (case status of Some s \<Rightarrow> Some s | None \<Rightarrow> last_status)
               in if (case status of Some s \<Rightarrow> is_success s | None \<Rightarrow> False) then ([Post address request], Delivered)
                  else
                    let (steps, result) = deliver_attempts dv target auth body last_status' (attempt + 1) remaining
                    in (Post address request #
                        (if attempt + 1 < MAX_ATTEMPTS then [Sleep (backoff_secs attempt)] else []) @ steps, result)))"

definition deliver_to_subscriber ::
  "delivery_env \<Rightarrow> PushNotificationConfigRow \<Rightarrow> string \<Rightarrow> DeliveryStep list \<times> DeliveryResult" where
  "deliver_to_subscriber dv cfg body =
     (case validate_callback_url (dv_parse_url dv) (pc_url cfg) of
        Inl reason \<Rightarrow> ([], CallbackRejected reason)
      | Inr target \<Rightarrow> deliver_attempts dv target (decode_auth (pc_auth_json cfg)) body None 0 MAX_ATTEMPTS)"

text \<open>\<open>slice::chunks\<close>.\<close>

function chunks :: "nat \<Rightarrow> 'a list \<Rightarrow> 'a list list" where
  "chunks n xs = (if xs = [] \<or> n = 0 then [] else take n xs # chunks n (drop n xs))"
  by pat_completeness auto
termination
  by (relation "measure (\<lambda>(n, xs). length xs)") auto

declare chunks.simps [simp del]

text \<open>
  One event. The result lists the batches in the order they run, and for every subscriber of a batch, which
  run concurrently, what its delivery does. The serialised body is the codec's.
\<close>

definition deliver_event ::
  "handler_env \<Rightarrow> delivery_env \<Rightarrow> (push_cols list \<Rightarrow> push_cols list) \<Rightarrow> TaskStore \<Rightarrow> DeliveryEvent \<Rightarrow>
   (PushNotificationConfigRow \<times> DeliveryStep list \<times> DeliveryResult) list list" where
  "deliver_event env dv ord s ev =
     (case list_push_configs ord (he_codec env) s (de_task_id ev) of
        Inl _ \<Rightarrow> []
      | Inr configs \<Rightarrow>
          (case json_to_string (sc_json (he_codec env)) (build_body ev) of
             None \<Rightarrow> []
           | Some body \<Rightarrow>
               map (map (\<lambda>cfg. (cfg, deliver_to_subscriber dv cfg body)))
                 (chunks MAX_CONCURRENT_DELIVERIES (take MAX_CONFIGS_PER_TASK configs))))"


subsection \<open>What a delivery does\<close>

fun posts :: "DeliveryStep list \<Rightarrow> (SocketAddr \<times> DeliveryRequest) list" where
  "posts [] = []"
| "posts (Post a r # steps) = (a, r) # posts steps"
| "posts (Sleep n # steps) = posts steps"

fun slept :: "DeliveryStep list \<Rightarrow> nat" where
  "slept [] = 0"
| "slept (Post a r # steps) = slept steps"
| "slept (Sleep n # steps) = n + slept steps"

text \<open>Whether the exchange of an attempt was answered with a success status.\<close>

definition answered :: "delivery_env \<Rightarrow> nat \<Rightarrow> DeliveryRequest \<Rightarrow> bool" where
  "answered dv attempt r = (case dv_send dv attempt r of Some s \<Rightarrow> is_success s | None \<Rightarrow> False)"

lemma resolve_routable: "resolve_public_destination lookup_host t n = Inr a \<Longrightarrow> routable (fst a)"
  by (auto simp: resolve_public_destination_def and_then_Inr dest: select_public_destination_from)

text \<open>The steps of the loop, one attempt at a time.\<close>

lemma deliver_attempts_SucE:
  assumes "deliver_attempts dv target auth body ls attempt (Suc remaining) = (steps, result)"
  obtains (Refused) reason where "steps = []" "result = CallbackRejected reason"
  | (Answered) a r where "steps = [Post a r]" "result = Delivered" "answered dv attempt r" "routable (fst a)"
  | (Again) a r ls' steps' where "\<not> answered dv attempt r" "routable (fst a)"
      "deliver_attempts dv target auth body ls' (attempt + 1) remaining = (steps', result)"
      "steps = Post a r # (if attempt + 1 < MAX_ATTEMPTS then [Sleep (backoff_secs attempt)] else []) @ steps'"
proof (cases "resolve_public_destination (dv_lookup dv attempt) target (of_nat attempt)")
  case (Inl reason)
  with assms show thesis by (intro Refused) auto
next
  case address: (Inr a)
  show thesis
  proof (cases "build_pinned_client (dv_build dv) target a")
    case (Inl reason)
    with assms address show thesis by (intro Refused) auto
  next
    case (Inr client)
    define r where "r = \<lparr>dq_client = client, dq_url = canonical_url target, dq_headers = (''content-type'', ''application/json'')
        # auth_headers dv auth body (timestamp_secs (dv_now dv attempt)), dq_body = body\<rparr>"
    show thesis
    proof (cases "answered dv attempt r")
      case True
      with assms address Inr show thesis
        by (intro Answered [of a r]) (auto simp: answered_def Let_def r_def resolve_routable split: option.splits)
    next
      case False
      obtain steps' res' where rest: "deliver_attempts dv target auth body
          (case dv_send dv attempt r of Some s \<Rightarrow> Some s | None \<Rightarrow> ls) (attempt + 1) remaining = (steps', res')"
        by fastforce
      from assms address Inr rest False
      have "steps = Post a r # (if attempt + 1 < MAX_ATTEMPTS then [Sleep (backoff_secs attempt)] else []) @ steps'" "result = res'"
        by (auto simp: answered_def Let_def r_def split: option.splits)
      with rest False address show thesis by (intro Again [of r a _ steps']) (auto simp: resolve_routable)
    qed
  qed
qed

lemma posts_append: "posts (xs @ ys) = posts xs @ posts ys"
  by (induction xs rule: posts.induct) auto

lemma deliver_attempts_trace:
  assumes "deliver_attempts dv target auth body ls attempt remaining = (steps, result)"
  shows "length (posts steps) \<le> remaining \<and> (\<forall>p \<in> set (posts steps). routable (fst (fst p)))
    \<and> (\<forall>i < length (posts steps). answered dv (attempt + i) (snd (posts steps ! i)) \<longleftrightarrow> result = Delivered \<and> Suc i = length (posts steps))
    \<and> (result = Delivered \<longrightarrow> posts steps \<noteq> [])
    \<and> (\<forall>s. result = DeadLettered s \<longrightarrow> length (posts steps) = remaining)"
  using assms
proof (induction remaining arbitrary: ls attempt steps result)
  case (Suc remaining)
  from Suc.prems show ?case
  proof (cases rule: deliver_attempts_SucE)
    case (Again a r ls' steps')
    have p: "posts steps = (a, r) # posts steps'" unfolding Again(4) by simp
    from Suc.IH [OF Again(3)] Again(1,2) show ?thesis
      unfolding p by (simp add: All_less_Suc2 del: All_less_Suc)
  qed auto
qed auto

lemma deliver_attempts_slept:
  assumes "deliver_attempts dv target auth body ls attempt remaining = (steps, result)"
  shows "slept steps \<le> sum_list (map backoff_secs [attempt..<MAX_ATTEMPTS - 1])"
  using assms
proof (induction remaining arbitrary: ls attempt steps result)
  case (Suc remaining)
  from Suc.prems show ?case
  proof (cases rule: deliver_attempts_SucE)
    case (Again a r ls' steps')
    with Suc.IH [OF Again(3)] show ?thesis by (auto simp: upt_rec [of attempt])
  qed auto
qed auto

lemma chunks_bound: "c \<in> set (chunks n xs) \<Longrightarrow> length c \<le> n"
proof (induction n xs rule: chunks.induct)
  case (1 n xs)
  then show ?case by (cases "xs = [] \<or> n = 0") (auto simp: chunks.simps [of n xs])
qed

lemma concat_chunks: "n \<noteq> 0 \<Longrightarrow> concat (chunks n xs) = xs"
proof (induction n xs rule: chunks.induct)
  case (1 n xs)
  then show ?case by (cases "xs = []") (auto simp: chunks.simps [of n xs] chunks.simps [of n "[]"])
qed

text \<open>
  C32. Every delivery of an event ends within fixed bounds. At most sixteen subscribers are served, at
  most four at a time; each gets at most three requests, waits three seconds in total, and every
  request goes to a public address. A delivery stops at the first success status and only then counts as
  delivered; it is given up only after all three requests went unanswered or were refused.
\<close>

theorem delivery_bounded:
  assumes "batch \<in> set (deliver_event env dv ord s ev)" and "(cfg, steps, result) \<in> set batch"
  shows "length (concat (deliver_event env dv ord s ev)) \<le> MAX_CONFIGS_PER_TASK \<and> length batch \<le> MAX_CONCURRENT_DELIVERIES
    \<and> length (posts steps) \<le> MAX_ATTEMPTS \<and> slept steps \<le> 3
    \<and> (\<forall>p \<in> set (posts steps). routable (fst (fst p)))
    \<and> (\<forall>i < length (posts steps). answered dv i (snd (posts steps ! i)) \<longleftrightarrow> result = Delivered \<and> Suc i = length (posts steps))
    \<and> (result = Delivered \<longrightarrow> posts steps \<noteq> [])
    \<and> (\<forall>st. result = DeadLettered st \<longrightarrow> length (posts steps) = MAX_ATTEMPTS)"
proof -
  obtain configs where configs: "list_push_configs ord (he_codec env) s (de_task_id ev) = Inr configs"
    using assms(1) by (cases "list_push_configs ord (he_codec env) s (de_task_id ev)") (auto simp: deliver_event_def)
  with assms(1) obtain body where "json_to_string (sc_json (he_codec env)) (build_body ev) = Some body"
    by (cases "json_to_string (sc_json (he_codec env)) (build_body ev)") (auto simp: deliver_event_def)
  with configs have event: "deliver_event env dv ord s ev =
      map (map (\<lambda>cfg. (cfg, deliver_to_subscriber dv cfg body)))
        (chunks MAX_CONCURRENT_DELIVERIES (take MAX_CONFIGS_PER_TASK configs))"
    by (simp add: deliver_event_def)
  have "length batch \<le> MAX_CONCURRENT_DELIVERIES" using assms(1) unfolding event by (auto dest: chunks_bound)
  moreover have "length (concat (deliver_event env dv ord s ev)) \<le> MAX_CONFIGS_PER_TASK"
    unfolding event map_concat [symmetric] length_map by (simp add: concat_chunks MAX_CONCURRENT_DELIVERIES_def)
  moreover have "deliver_to_subscriber dv cfg body = (steps, result)" using assms unfolding event by auto
  then consider "steps = []" "\<exists>e. result = CallbackRejected e"
    | target where "deliver_attempts dv target (decode_auth (pc_auth_json cfg)) body None 0 MAX_ATTEMPTS = (steps, result)"
    by (auto simp: deliver_to_subscriber_def split: sum.split_asm)
  then have "length (posts steps) \<le> MAX_ATTEMPTS \<and> slept steps \<le> 3
    \<and> (\<forall>p \<in> set (posts steps). routable (fst (fst p)))
    \<and> (\<forall>i < length (posts steps). answered dv i (snd (posts steps ! i)) \<longleftrightarrow> result = Delivered \<and> Suc i = length (posts steps))
    \<and> (result = Delivered \<longrightarrow> posts steps \<noteq> [])
    \<and> (\<forall>st. result = DeadLettered st \<longrightarrow> length (posts steps) = MAX_ATTEMPTS)"
  proof cases
    case 2
    have "sum_list (map backoff_secs [0..<MAX_ATTEMPTS - 1]) = 3"
      by (simp add: backoff_secs_def BACKOFF_SECS_def MAX_ATTEMPTS_def upt_rec)
    with deliver_attempts_trace [OF 2] deliver_attempts_slept [OF 2] show ?thesis by simp
  qed auto
  ultimately show ?thesis by blast
qed

definition demo_delivery_env :: delivery_env where
  "demo_delivery_env = \<lparr>dv_parse_url = (\<lambda>_. Some demo_url), dv_lookup = (\<lambda>_. demo_lookup), dv_build = Some,
     dv_hmac_sha256 = (\<lambda>_ _. []), dv_now = (\<lambda>_. 0), dv_send = (\<lambda>attempt _. if attempt = 0 then Some 503 else Some 200)\<rparr>"

definition demo_event :: DeliveryEvent where
  "demo_event = \<lparr>de_task_id = ''a'', de_status_event = JObj [(''status'', JObj [(''state'', JStr ''working'')])]\<rparr>"

definition demo_push_env :: handler_env where
  "demo_push_env = demo_handler_env\<lparr>he_idem := (he_idem demo_handler_env)\<lparr>idem_codec :=
     demo_task_codec\<lparr>sc_json := table_codec [build_body demo_event]\<rparr>\<rparr>\<rparr>"

definition demo_push_store :: TaskStore where
  "demo_push_store = empty_store\<lparr>push_notification_configs :=
     [\<lparr>p_config_id = ''c'', p_task_id = ''a'', p_url = ''https://ex.org'', p_auth_json = None, p_created_at = unary_ts 1\<rparr>]\<rparr>"

lemma demo_callback:
  "validate_callback_url (\<lambda>_. Some demo_url) ''https://ex.org'' = Inr \<lparr>cb_url = demo_url, cb_host = ''ex.org'', cb_port = 443\<rparr>"
  "resolve_public_destination demo_lookup \<lparr>cb_url = demo_url, cb_host = ''ex.org'', cb_port = 443\<rparr> 0 = Inr (V4 (Ipv4 8 8 8 8), 443)"
  "resolve_public_destination demo_lookup \<lparr>cb_url = demo_url, cb_host = ''ex.org'', cb_port = 443\<rparr> 1 = Inr (V4 (Ipv4 93 184 216 34), 443)"
  by (simp_all add: validate_callback_url_def demo_url_def callback_host_def MAX_CALLBACK_URL_BYTES_def
      demo_callback_text Let_def eval_simps resolve_public_destination_def demo_lookup_def select_public_destination_def
      require_public_ip_def attempt_order_def less_prod_def del: ip_text.simps)

lemma demo_delivery:
  "\<exists>cfg r0 r1. deliver_event demo_push_env demo_delivery_env (\<lambda>xs. xs) demo_push_store demo_event =
     [[(cfg, [Post (V4 (Ipv4 8 8 8 8), 443) r0, Sleep 1, Post (V4 (Ipv4 93 184 216 34), 443) r1], Delivered)]]"
proof -
  have configs: "list_push_configs (\<lambda>xs. xs) (he_codec demo_push_env) demo_push_store (de_task_id demo_event) =
      Inr [\<lparr>pc_config_id = ''c'', pc_task_id = ''a'', pc_url = ''https://ex.org'', pc_auth_json = None, pc_created_at = 1\<rparr>]"
    by (simp add: list_push_configs_def demo_push_store_def demo_event_def demo_push_env_def row_to_push_def
        parse_opt_json_def parse_ts_def demo_task_codec_def demo_store_codec_def unary_ts_def parse_unary_ts_def)
  have payload: "json_to_string (sc_json (he_codec demo_push_env)) (build_body demo_event) = Some []"
    by (simp add: demo_push_env_def table_codec_def)
  have "chunks 4 [c] = [[c]]" for c :: PushNotificationConfigRow
    by (simp add: chunks.simps [of 4 "[c]"] chunks.simps [of 4 "[]"])
  then show ?thesis
    using demo_callback
    by (simp add: deliver_event_def configs payload MAX_CONCURRENT_DELIVERIES_def MAX_CONFIGS_PER_TASK_def
        deliver_to_subscriber_def MAX_ATTEMPTS_def numeral_3_eq_3 demo_delivery_env_def build_pinned_client_def
        demo_callback_text is_success_def backoff_secs_def BACKOFF_SECS_def Let_def)
qed

theorem delivery_bounded_witness:
  "\<exists>cfg steps. deliver_event demo_push_env demo_delivery_env (\<lambda>xs. xs) demo_push_store demo_event = [[(cfg, steps, Delivered)]]
     \<and> length (posts steps) \<le> 3 \<and> slept steps = 1 \<and> (\<forall>p \<in> set (posts steps). routable (fst (fst p)))
     \<and> answered demo_delivery_env 1 (snd (posts steps ! 1)) \<and> \<not> answered demo_delivery_env 0 (snd (posts steps ! 0))"
proof -
  obtain cfg r0 r1 where d: "deliver_event demo_push_env demo_delivery_env (\<lambda>xs. xs) demo_push_store demo_event =
     [[(cfg, [Post (V4 (Ipv4 8 8 8 8), 443) r0, Sleep 1, Post (V4 (Ipv4 93 184 216 34), 443) r1], Delivered)]]"
    using demo_delivery by blast
  let ?steps = "[Post (V4 (Ipv4 8 8 8 8), 443) r0, Sleep 1, Post (V4 (Ipv4 93 184 216 34), 443) r1]"
  have "[(cfg, ?steps, Delivered)] \<in> set (deliver_event demo_push_env demo_delivery_env (\<lambda>xs. xs) demo_push_store demo_event)"
    "(cfg, ?steps, Delivered) \<in> set [(cfg, ?steps, Delivered)]"
    by (simp_all add: d)
  note bounded = delivery_bounded [OF this]
  show ?thesis
    by (rule exI [of _ cfg], rule exI [of _ ?steps]) (use d bounded in \<open>simp add: MAX_ATTEMPTS_def All_less_Suc2 del: All_less_Suc\<close>)
qed


subsection \<open>Secrets are write-only\<close>

text \<open>
  Requests to the configuration handlers and the run of a sequence of them. Two descriptors are equivalent when they
  agree on the type and on whether a secret is configured; configurations, stored rows, states and
  requests are equivalent when they are equal up to equivalent descriptors.
\<close>

datatype push_request =
    CreateConfig string timestamp ProtocolVersion string string "json option"
  | GetConfig ProtocolVersion string string string
  | ListConfigs ProtocolVersion string string
  | DeleteConfig ProtocolVersion string string string

fun push_serve ::
  "handler_env \<Rightarrow> (string \<Rightarrow> Url option) \<Rightarrow> (push_cols list \<Rightarrow> push_cols list) \<Rightarrow> AppState \<Rightarrow> push_request \<Rightarrow> Response \<times> AppState" where
  "push_serve env parse_url ord st (CreateConfig fresh now v i t body) = create_config env parse_url fresh now v st i t body"
| "push_serve env parse_url ord st (GetConfig v i t c) = (get_config env v st i t c, st)"
| "push_serve env parse_url ord st (ListConfigs v i t) = (list_configs env ord v st i t, st)"
| "push_serve env parse_url ord st (DeleteConfig v i t c) = delete_config env v st i t c"

fun push_responses ::
  "handler_env \<Rightarrow> (string \<Rightarrow> Url option) \<Rightarrow> (push_cols list \<Rightarrow> push_cols list) \<Rightarrow> AppState \<Rightarrow> push_request list \<Rightarrow> Response list" where
  "push_responses env parse_url ord st [] = []"
| "push_responses env parse_url ord st (r # rs) =
     (let (resp, st') = push_serve env parse_url ord st r in resp # push_responses env parse_url ord st' rs)"

definition same_auth :: "json \<Rightarrow> json \<Rightarrow> bool" where
  "same_auth x y \<longleftrightarrow> jget ''type'' x = jget ''type'' y \<and> auth_secret_configured x = auth_secret_configured y"

definition same_config :: "PushNotificationConfigRow \<Rightarrow> PushNotificationConfigRow \<Rightarrow> bool" where
  "same_config a b \<longleftrightarrow> b = a\<lparr>pc_auth_json := pc_auth_json b\<rparr> \<and> rel_option same_auth (pc_auth_json a) (pc_auth_json b)"

definition same_cols :: "store_codec \<Rightarrow> push_cols \<Rightarrow> push_cols \<Rightarrow> bool" where
  "same_cols cd r r' \<longleftrightarrow> r' = r\<lparr>p_auth_json := p_auth_json r'\<rparr>
     \<and> rel_sum (=) (rel_option same_auth) (parse_opt_json cd (p_auth_json r)) (parse_opt_json cd (p_auth_json r'))"

definition same_state :: "store_codec \<Rightarrow> AppState \<Rightarrow> AppState \<Rightarrow> bool" where
  "same_state cd st st' \<longleftrightarrow>
     (\<exists>ps. st' = set_store st ((as_store st)\<lparr>push_notification_configs := ps\<rparr>)
        \<and> list_all2 (same_cols cd) (push_notification_configs (as_store st)) ps)"

definition body_auth :: "json option \<Rightarrow> json option" where
  "body_auth body = normalize_auth (case body of Some v \<Rightarrow> v | None \<Rightarrow> JNull)"

definition body_member :: "string \<Rightarrow> json option \<Rightarrow> json option" where
  "body_member k body = jget k (case body of Some v \<Rightarrow> v | None \<Rightarrow> JNull)"

text \<open>Descriptors of equivalent requests can be written as JSON text.\<close>

fun same_request :: "store_codec \<Rightarrow> push_request \<Rightarrow> push_request \<Rightarrow> bool" where
  "same_request cd (CreateConfig fresh now v i t b) r' =
     (\<exists>b'. r' = CreateConfig fresh now v i t b'
        \<and> body_member ''url'' b = body_member ''url'' b' \<and> body_member ''id'' b = body_member ''id'' b'
        \<and> rel_option same_auth (body_auth b) (body_auth b')
        \<and> (\<exists>x x'. json_opt_text cd (body_auth b) = Inr x \<and> json_opt_text cd (body_auth b') = Inr x'))"
| "same_request cd r r' = (r = r')"

definition ignores_auth :: "store_codec \<Rightarrow> (push_cols list \<Rightarrow> push_cols list) \<Rightarrow> bool" where
  "ignores_auth cd ord \<longleftrightarrow> (\<forall>xs ys. list_all2 (same_cols cd) xs ys \<longrightarrow> list_all2 (same_cols cd) (ord xs) (ord ys))"

lemma same_config_wire: "same_config a b \<Longrightarrow> config_to_protocol_wire env a v = config_to_protocol_wire env b v"
  by (cases v; cases "pc_auth_json a"; cases "pc_auth_json b")
    (auto simp: same_config_def same_auth_def config_to_wire_def config_to_v1_wire_def)

lemma same_cols_row: "same_cols cd r r' \<Longrightarrow> rel_sum (=) same_config (row_to_push cd r) (row_to_push cd r')"
  unfolding row_to_push_def same_cols_def
  by (cases "parse_opt_json cd (p_auth_json r)"; cases "parse_opt_json cd (p_auth_json r')"; cases r; cases r';
      cases "parse_ts cd (p_created_at r)") (auto simp: same_config_def)

lemma collect_rel:
  assumes "list_all2 R xs ys" and "\<And>x y. R x y \<Longrightarrow> rel_sum (=) S (f x) (f y)"
  shows "rel_sum (=) (list_all2 S) (collect f xs) (collect f ys)"
  using assms(1)
proof (induction rule: list_all2_induct)
  case (Cons x xs y ys)
  with assms(2) [OF Cons(1)] show ?case
    by (cases "f x"; cases "f y"; cases "collect f xs"; cases "collect f ys") auto
qed simp

lemma same_cols_keys:
  "same_cols cd r r' \<Longrightarrow> p_config_id r' = p_config_id r \<and> p_task_id r' = p_task_id r"
  by (metis (no_types, lifting) push_cols.ext_inject push_cols.surjective push_cols.update_convs(4) same_cols_def)

lemma find_rel:
  "list_all2 R xs ys \<Longrightarrow> (\<And>x y. R x y \<Longrightarrow> p x = p y) \<Longrightarrow> rel_option R (List.find p xs) (List.find p ys)"
  by (induction rule: list_all2_induct) auto

lemma filter_rel:
  "list_all2 R xs ys \<Longrightarrow> (\<And>x y. R x y \<Longrightarrow> p x = p y) \<Longrightarrow> list_all2 R (filter p xs) (filter p ys)"
  by (induction rule: list_all2_induct) auto

lemma and_then_rel:
  assumes "rel_sum (=) R m m'" and "\<And>x y. R x y \<Longrightarrow> rel_sum (=) S (f x) (g y)"
  shows "rel_sum (=) S (and_then m f) (and_then m' g)"
  using assms by (cases m; cases m') auto

lemma push_counts:
  assumes "list_all2 (same_cols cd) xs ys"
  shows "sql_changes (\<lambda>r. p_task_id r = t) ys = sql_changes (\<lambda>r. p_task_id r = t) xs"
proof -
  have "list_all2 (same_cols cd) (filter (\<lambda>r. p_task_id r = t) xs) (filter (\<lambda>r. p_task_id r = t) ys)"
    by (rule filter_rel [OF assms]) (simp add: same_cols_keys)
  then show ?thesis by (simp add: sql_changes_def list_all2_lengthD)
qed

lemma same_owner: "get_task_for_instance cd (s\<lparr>push_notification_configs := ps\<rparr>) i t = get_task_for_instance cd s i t"
  by (simp add: get_task_for_instance_def)

lemma same_get:
  assumes "list_all2 (same_cols cd) (push_notification_configs s) ps"
  shows "rel_sum (=) (rel_option same_config) (get_push_config cd s c) (get_push_config cd (s\<lparr>push_notification_configs := ps\<rparr>) c)"
proof -
  have "rel_option (same_cols cd) (tbl_get p_config_id c (push_notification_configs s)) (tbl_get p_config_id c ps)"
    unfolding tbl_get_def by (rule find_rel [OF assms]) (simp add: same_cols_keys)
  then show ?thesis
    unfolding get_push_config_def
    by (cases "tbl_get p_config_id c (push_notification_configs s)"; cases "tbl_get p_config_id c ps")
      (auto simp: transpose_opt_def dest: same_cols_row split: sum.split)
qed

lemma same_list:
  assumes "list_all2 (same_cols cd) (push_notification_configs s) ps" and "ignores_auth cd ord"
  shows "rel_sum (=) (list_all2 same_config) (list_push_configs ord cd s t) (list_push_configs ord cd (s\<lparr>push_notification_configs := ps\<rparr>) t)"
proof -
  have "list_all2 (same_cols cd) (filter (\<lambda>p. p_task_id p = t) (push_notification_configs s)) (filter (\<lambda>p. p_task_id p = t) ps)"
    by (rule filter_rel [OF assms(1)]) (simp add: same_cols_keys)
  with assms(2) show ?thesis
    unfolding list_push_configs_def by (auto simp: ignores_auth_def intro: collect_rel same_cols_row)
qed

lemma same_delete:
  assumes "list_all2 (same_cols cd) (push_notification_configs s) ps"
  shows "list_all2 (same_cols cd) (tbl_delete (\<lambda>p. p_config_id p = c) (push_notification_configs s)) (tbl_delete (\<lambda>p. p_config_id p = c) ps)"
  unfolding tbl_delete_def by (rule filter_rel [OF assms]) (simp add: same_cols_keys)

lemma same_written_cols:
  assumes "codec_ok cd" "same_config cfg cfg'" "json_opt_text cd (pc_auth_json cfg) = Inr x" "json_opt_text cd (pc_auth_json cfg') = Inr x'"
  shows "rel_sum (=) (rel_option same_auth) (parse_opt_json cd x) (parse_opt_json cd x')"
    and "same_cols cd (push_row cd cfg x) (push_row cd cfg' x')"
  using assms parse_json_opt_text [OF assms(1) assms(3)] parse_json_opt_text [OF assms(1) assms(4)]
  by (cases cfg; cases cfg'; simp add: same_config_def same_cols_def push_row_def)+

lemma same_cols_update:
  "same_cols cd r r' \<Longrightarrow> rel_sum (=) (rel_option same_auth) (parse_opt_json cd x) (parse_opt_json cd x') \<Longrightarrow>
   same_cols cd (r\<lparr>p_url := u, p_auth_json := x\<rparr>) (r'\<lparr>p_url := u, p_auth_json := x'\<rparr>)"
  by (cases r; cases r') (simp add: same_cols_def)

definition same_write :: "store_codec \<Rightarrow> PushConfigWriteOutcome \<times> TaskStore \<Rightarrow> PushConfigWriteOutcome \<times> TaskStore \<Rightarrow> bool" where
  "same_write cd a b \<longleftrightarrow> fst a = fst b \<and> (\<exists>ps. snd b = (snd a)\<lparr>push_notification_configs := ps\<rparr>
     \<and> list_all2 (same_cols cd) (push_notification_configs (snd a)) ps)"

lemma same_writeI:
  "list_all2 (same_cols cd) (push_notification_configs s) ps \<Longrightarrow> s' = s\<lparr>push_notification_configs := ps\<rparr> \<Longrightarrow>
   same_write cd (outcome, s) (outcome, s')"
  by (auto simp: same_write_def)

lemma same_put:
  assumes "codec_ok cd" and cfg: "same_config cfg cfg'"
    and x: "json_opt_text cd (pc_auth_json cfg) = Inr x" "json_opt_text cd (pc_auth_json cfg') = Inr x'"
    and rel: "list_all2 (same_cols cd) (push_notification_configs s) ps"
  shows "rel_sum (=) (same_write cd) (put_push_config_bounded cd s cfg n)
    (put_push_config_bounded cd (s\<lparr>push_notification_configs := ps\<rparr>) cfg' n)"
proof -
  have keys: "pc_config_id cfg' = pc_config_id cfg" "pc_task_id cfg' = pc_task_id cfg" "pc_url cfg' = pc_url cfg"
    using cfg by (cases cfg; cases cfg'; simp add: same_config_def)+
  have found: "rel_option (same_cols cd) (tbl_get p_config_id (pc_config_id cfg) (push_notification_configs s))
      (tbl_get p_config_id (pc_config_id cfg) ps)"
    unfolding tbl_get_def by (rule find_rel [OF rel]) (simp add: same_cols_keys)
  have updated: "list_all2 (same_cols cd)
      (sql_update p (\<lambda>r. r\<lparr>p_url := u, p_auth_json := x\<rparr>) (push_notification_configs s))
      (sql_update p (\<lambda>r. r\<lparr>p_url := u, p_auth_json := x'\<rparr>) ps)"
    if "\<And>r r'. same_cols cd r r' \<Longrightarrow> p r = p r'" for p u
    unfolding sql_update_def list.rel_map
    using rel by (rule list.rel_mono_strong)
      (use that same_cols_update [OF _ same_written_cols(1) [OF assms(1) cfg x]] in auto)
  show ?thesis
  proof (cases "tbl_get p_config_id (pc_config_id cfg) (push_notification_configs s)")
    case None
    with found have none: "tbl_get p_config_id (pc_config_id cfg) ps = None" by simp
    let ?s = "s\<lparr>push_notification_configs := push_notification_configs s @ [push_row cd cfg x]\<rparr>"
    have "list_all2 (same_cols cd) (push_notification_configs ?s) (ps @ [push_row cd cfg' x'])"
      using rel same_written_cols(2) [OF assms(1) cfg x] by (auto intro: list_all2_appendI)
    with None none x show ?thesis
      by (auto simp: put_push_config_bounded_def keys push_counts [OF rel] intro: same_writeI [OF rel] same_writeI [of cd ?s])
  next
    case (Some r)
    with found obtain r' where r': "tbl_get p_config_id (pc_config_id cfg) ps = Some r'" "same_cols cd r r'"
      by (auto simp: option_rel_Some1)
    let ?s = "s\<lparr>push_notification_configs := sql_update (\<lambda>r. p_config_id r = pc_config_id cfg \<and> p_task_id r = pc_task_id cfg)
        (\<lambda>r. r\<lparr>p_url := pc_url cfg, p_auth_json := x\<rparr>) (push_notification_configs s)\<rparr>"
    have "list_all2 (same_cols cd) (push_notification_configs ?s)
        (sql_update (\<lambda>r. p_config_id r = pc_config_id cfg \<and> p_task_id r = pc_task_id cfg)
          (\<lambda>r. r\<lparr>p_url := pc_url cfg, p_auth_json := x'\<rparr>) ps)"
      using updated [of "\<lambda>r. p_config_id r = pc_config_id cfg \<and> p_task_id r = pc_task_id cfg" "pc_url cfg"]
      by (simp add: same_cols_keys)
    with Some r' x show ?thesis
      by (auto simp: put_push_config_bounded_def keys same_cols_keys [OF r'(2)] intro: same_writeI [OF rel] same_writeI [of cd ?s])
  qed
qed

lemma same_config_task: "same_config a b \<Longrightarrow> pc_task_id b = pc_task_id a"
  by (cases a; cases b) (simp add: same_config_def)

lemma same_stateE:
  assumes "same_state cd st st'"
  obtains ps where "st' = set_store st ((as_store st)\<lparr>push_notification_configs := ps\<rparr>)"
    "list_all2 (same_cols cd) (push_notification_configs (as_store st)) ps"
    "as_store st' = (as_store st)\<lparr>push_notification_configs := ps\<rparr>"
  using assms by (auto simp: same_state_def set_store_def)

lemma same_require_owned:
  "same_state (he_codec env) st st' \<Longrightarrow> require_owned_task env st' i t = require_owned_task env st i t"
  by (erule same_stateE) (simp add: require_owned_task_def same_owner)

lemma same_state_set_store:
  assumes "same_state cd st st'" and "list_all2 (same_cols cd) (push_notification_configs s) ps"
  shows "same_state cd (set_store st s) (set_store st' (s\<lparr>push_notification_configs := ps\<rparr>))"
  using assms by (auto simp: same_state_def set_store_def)

lemma same_persist:
  assumes "codec_ok (he_codec env)" "same_state (he_codec env) st st'" "same_config cfg cfg'"
    "json_opt_text (he_codec env) (pc_auth_json cfg) = Inr x" "json_opt_text (he_codec env) (pc_auth_json cfg') = Inr x'"
  shows "rel_sum (=) (same_state (he_codec env)) (persist_bounded_config env st i cfg) (persist_bounded_config env st' i cfg')"
proof -
  from assms(2) obtain ps where ps: "list_all2 (same_cols (he_codec env)) (push_notification_configs (as_store st)) ps"
      "as_store st' = (as_store st)\<lparr>push_notification_configs := ps\<rparr>"
    by (rule same_stateE)
  show ?thesis
    using same_put [OF assms(1,3,4,5) ps(1), of "of_nat MAX_CONFIGS_PER_TASK"] same_state_set_store [OF assms(2)]
    unfolding persist_bounded_config_def ps(2)
    by (auto simp: rel_sum.simps same_write_def split: PushConfigWriteOutcome.split)
qed

lemma same_create_body:
  assumes "body_member ''url'' b = body_member ''url'' b'" "body_member ''id'' b = body_member ''id'' b'"
    and "rel_option same_auth (body_auth b) (body_auth b')"
  shows "rel_sum (=) (\<lambda>(c, u, a) (c', u', a'). c' = c \<and> u' = u \<and> a = body_auth b \<and> a' = body_auth b')
    (parse_create_body parse_url fresh (case b of Some v \<Rightarrow> v | None \<Rightarrow> JNull) i)
    (parse_create_body parse_url fresh (case b' of Some v \<Rightarrow> v | None \<Rightarrow> JNull) i)"
  using assms unfolding parse_create_body_def body_member_def
  by (intro and_then_rel [where R = "(=)"]) (auto simp: body_auth_def sum.rel_refl)

lemma same_create:
  assumes "codec_ok (he_codec env)" and st: "same_state (he_codec env) st st'"
    and "same_request (he_codec env) (CreateConfig fresh now v i t b) (CreateConfig fresh now v i t b')"
  shows "rel_prod (=) (same_state (he_codec env)) (create_config env parse_url fresh now v st i t b) (create_config env parse_url fresh now v st' i t b')"
proof -
  from assms(3) obtain x x' where b: "rel_option same_auth (body_auth b) (body_auth b')"
      "json_opt_text (he_codec env) (body_auth b) = Inr x" "json_opt_text (he_codec env) (body_auth b') = Inr x'"
      "body_member ''url'' b = body_member ''url'' b'" "body_member ''id'' b = body_member ''id'' b'"
    by auto
  note bodies = same_create_body [OF b(4,5,1), of parse_url fresh i]
  note owner = same_require_owned [OF st]
  show ?thesis
  proof (cases "parse_create_body parse_url fresh (case b of Some v \<Rightarrow> v | None \<Rightarrow> JNull) i")
    case (Inl resp)
    with bodies have "parse_create_body parse_url fresh (case b' of Some v \<Rightarrow> v | None \<Rightarrow> JNull) i = Inl resp"
      by (auto simp: rel_sum.simps)
    with Inl st show ?thesis by (simp add: create_config_def)
  next
    case (Inr parts)
    then obtain c u where parts: "parts = (c, u, body_auth b)"
        "parse_create_body parse_url fresh (case b' of Some v \<Rightarrow> v | None \<Rightarrow> JNull) i = Inr (c, u, body_auth b')"
      using bodies by (auto simp: rel_sum.simps)
    let ?cfg = "\<lambda>a. \<lparr>pc_config_id = c, pc_task_id = t, pc_url = u, pc_auth_json = a, pc_created_at = now\<rparr>"
    have cfg: "same_config (?cfg (body_auth b)) (?cfg (body_auth b'))" using b(1) by (simp add: same_config_def)
    have "rel_sum (=) (same_state (he_codec env)) (persist_bounded_config env st i (?cfg (body_auth b)))
        (persist_bounded_config env st' i (?cfg (body_auth b')))"
      by (rule same_persist [OF assms(1) st cfg]) (simp_all add: b)
    with Inr parts st owner same_config_wire [OF cfg, of env v] show ?thesis
      by (auto simp: create_config_def rel_sum.simps split: sum.split)
  qed
qed

lemma same_config_wires:
  "list_all2 same_config xs ys \<Longrightarrow> map (\<lambda>row. config_to_protocol_wire env row v) ys = map (\<lambda>row. config_to_protocol_wire env row v) xs"
  by (induction rule: list_all2_induct) (simp_all add: same_config_wire)

lemma same_getE:
  assumes "list_all2 (same_cols cd) (push_notification_configs s) ps"
  obtains (Error) e where "get_push_config cd s c = Inl e" "get_push_config cd (s\<lparr>push_notification_configs := ps\<rparr>) c = Inl e"
  | (Missing) "get_push_config cd s c = Inr None" "get_push_config cd (s\<lparr>push_notification_configs := ps\<rparr>) c = Inr None"
  | (Found) a b where "get_push_config cd s c = Inr (Some a)" "get_push_config cd (s\<lparr>push_notification_configs := ps\<rparr>) c = Inr (Some b)"
      "pc_task_id b = pc_task_id a" "\<forall>env v. config_to_protocol_wire env b v = config_to_protocol_wire env a v"
  using same_get [OF assms, of c]
  by (cases rule: rel_sum.cases) (auto simp: rel_option_iff same_config_task same_config_wire split: option.split_asm)

lemma same_listE:
  assumes "list_all2 (same_cols cd) (push_notification_configs s) ps" and "ignores_auth cd ord"
  obtains (Error) e where "list_push_configs ord cd s t = Inl e" "list_push_configs ord cd (s\<lparr>push_notification_configs := ps\<rparr>) t = Inl e"
  | (Found) xs ys where "list_push_configs ord cd s t = Inr xs" "list_push_configs ord cd (s\<lparr>push_notification_configs := ps\<rparr>) t = Inr ys"
      "\<forall>env v. map (\<lambda>row. config_to_protocol_wire env row v) ys = map (\<lambda>row. config_to_protocol_wire env row v) xs"
  using same_list [OF assms, of t] by (cases rule: rel_sum.cases) (auto dest: same_config_wires)

lemma same_serve:
  assumes "codec_ok (he_codec env)" and "ignores_auth (he_codec env) ord" and st: "same_state (he_codec env) st st'"
    and "same_request (he_codec env) r r'"
  shows "rel_prod (=) (same_state (he_codec env)) (push_serve env parse_url ord st r) (push_serve env parse_url ord st' r')"
proof -
  from st obtain ps where ps: "list_all2 (same_cols (he_codec env)) (push_notification_configs (as_store st)) ps"
      "as_store st' = (as_store st)\<lparr>push_notification_configs := ps\<rparr>"
    by (rule same_stateE)
  note owner = same_require_owned [OF st]
  show ?thesis
  proof (cases r)
    case (CreateConfig fresh now v i t b)
    with assms(4) same_create [OF assms(1) st] show ?thesis by auto
  next
    case (GetConfig v i t c)
    have "get_config env v st' i t c = get_config env v st i t c"
      using ps(1) unfolding get_config_def ps(2) owner by (cases rule: same_getE [where c = c]; cases "require_owned_task env st i t"; simp)
    with GetConfig assms(4) st show ?thesis by auto
  next
    case (ListConfigs v i t)
    have "list_configs env ord v st' i t = list_configs env ord v st i t"
      using ps(1) assms(2) unfolding list_configs_def ps(2) owner by (cases rule: same_listE [where t = t]; cases "require_owned_task env st i t"; simp)
    with ListConfigs assms(4) st show ?thesis by auto
  next
    case (DeleteConfig v i t c)
    have removed: "same_state (he_codec env) (set_store st (snd (delete_push_config (as_store st) c))) (set_store st' (snd (delete_push_config (as_store st') c)))"
      using same_state_set_store [OF st, of "snd (delete_push_config (as_store st) c)"] same_delete [OF ps(1), of c]
      by (simp add: delete_push_config_def ps(2))
    have "rel_prod (=) (same_state (he_codec env)) (delete_config env v st i t c) (delete_config env v st' i t c)"
      using ps(1) removed st unfolding delete_config_def ps(2) owner
      by (cases rule: same_getE [where c = c]; cases "require_owned_task env st i t"; simp)
    with DeleteConfig assms(4) show ?thesis by auto
  qed
qed

text \<open>
  C33. The secrets of callback configurations are write-only. Serve two sequences of requests to create, read,
  list and delete configurations, on two states, where the sequences and the states differ only in the
  secrets stored or sent, by the type of authentication and by whether there is a secret being the same: every
  response is the same. So no answer of these handlers, in either protocol version and on any branch,
  depends on a secret.
\<close>

theorem push_secrets_unobservable:
  assumes "codec_ok (he_codec env)" and "ignores_auth (he_codec env) ord" and "same_state (he_codec env) st st'"
    and "list_all2 (same_request (he_codec env)) rs rs'"
  shows "push_responses env parse_url ord st rs = push_responses env parse_url ord st' rs'"
  using assms(4,3)
proof (induction arbitrary: st st' rule: list_all2_induct)
  case (Cons r rs r' rs')
  have "rel_prod (=) (same_state (he_codec env)) (push_serve env parse_url ord st r) (push_serve env parse_url ord st' r')"
    using assms(1,2) Cons.prems Cons.hyps(1) by (rule same_serve)
  with Cons.IH show ?case by (auto simp: rel_prod_sel split: prod.split)
qed simp

definition demo_auth :: "string \<Rightarrow> json" where
  "demo_auth secret = JObj [(''secret'', JStr secret), (''type'', JStr ''bearer'')]"

definition demo_create :: "string \<Rightarrow> push_request" where
  "demo_create secret = CreateConfig ''c1'' 1 V0_3 ''i1'' ''a'' (Some (JObj [(''auth'', demo_auth secret), (''url'', JStr ''https://ex.org'')]))"

definition demo_secret_codec :: store_codec where
  "demo_secret_codec = demo_task_codec\<lparr>sc_json := table_codec [JStr ''x'', demo_auth ''alpha'', demo_auth ''omega'']\<rparr>"

definition demo_secret_env :: handler_env where
  "demo_secret_env = demo_handler_env\<lparr>he_idem := (he_idem demo_handler_env)\<lparr>idem_codec := demo_secret_codec\<rparr>\<rparr>"

definition demo_secret_app :: AppState where
  "demo_secret_app = set_store demo_app (or_same empty_store (upsert_task demo_secret_codec empty_store (demo_task ''a'' Working 1)))"

lemma demo_secret_store:
  "push_notification_configs (as_store demo_secret_app) = []" "tbl_get t_task_id ''a'' (tasks (as_store demo_secret_app)) \<noteq> None"
  "get_task_for_instance demo_secret_codec (as_store demo_secret_app) ''i1'' ''a'' = Inr (Some (demo_task ''a'' Working 1))"
  by (simp_all add: demo_secret_app_def set_store_def or_same_def upsert_task_def empty_store_def tbl_get_def demo_task_def
      terminal_text_def insert_task_cols_def json_text_def json_opt_text_def demo_secret_codec_def demo_task_codec_def demo_store_codec_def
      table_codec_def get_task_for_instance_def row_to_task_def parse_json_def parse_opt_json_def parse_ts_def parse_opt_ts_def fmt_ts_def
      unary_ts_def parse_unary_ts_def state_from_str_def)

lemma demo_create_accepted:
  "rs_status (hd (push_responses demo_secret_env (\<lambda>_. Some demo_url) (\<lambda>xs. xs) demo_secret_app [demo_create ''alpha''])) = 201"
proof -
  have cd: "he_codec demo_secret_env = demo_secret_codec" by (simp add: demo_secret_env_def)
  have url: "trim ''https://ex.org'' = ''https://ex.org''" by (simp add: eval_simps)
  have "json_to_string (sc_json demo_secret_codec) (demo_auth ''alpha'') = Some ''x''"
    by (simp add: demo_secret_codec_def table_codec_def demo_auth_def)
  moreover obtain r where "tbl_get t_task_id ''a'' (tasks (as_store demo_secret_app)) = Some r"
    using demo_secret_store(2) by blast
  ultimately show ?thesis
    using demo_callback(1) demo_secret_store
    by (simp add: demo_create_def create_config_def parse_create_body_def nonblank_def jget_def normalize_auth_def cd url
        require_owned_task_def persist_bounded_config_def put_push_config_bounded_def tbl_get_def sql_changes_def MAX_CONFIGS_PER_TASK_def
        json_opt_text_def json_text_def Let_def)
qed

theorem push_secrets_unobservable_witness:
  "push_responses demo_secret_env (\<lambda>_. Some demo_url) (\<lambda>xs. xs) demo_secret_app [demo_create ''alpha'', GetConfig V1_0 ''i1'' ''a'' ''c1'']
     = push_responses demo_secret_env (\<lambda>_. Some demo_url) (\<lambda>xs. xs) demo_secret_app [demo_create ''omega'', GetConfig V1_0 ''i1'' ''a'' ''c1'']
   \<and> rs_status (hd (push_responses demo_secret_env (\<lambda>_. Some demo_url) (\<lambda>xs. xs) demo_secret_app [demo_create ''alpha''])) = 201"
proof (intro conjI demo_create_accepted push_secrets_unobservable)
  have cd: "he_codec demo_secret_env = demo_secret_codec" by (simp add: demo_secret_env_def)
  show "codec_ok (he_codec demo_secret_env)"
    using demo_task_codec_ok by (simp add: cd codec_ok_def demo_secret_codec_def table_codec_roundtrip)
  show "ignores_auth (he_codec demo_secret_env) (\<lambda>xs. xs)" by (simp add: ignores_auth_def)
  have "push_notification_configs (as_store demo_secret_app) = []"
    by (rule demo_secret_store(1))
  then show "same_state (he_codec demo_secret_env) demo_secret_app demo_secret_app"
    by (auto simp: same_state_def set_store_def intro!: exI [of _ "[]"])
  show "list_all2 (same_request (he_codec demo_secret_env)) [demo_create ''alpha'', GetConfig V1_0 ''i1'' ''a'' ''c1'']
      [demo_create ''omega'', GetConfig V1_0 ''i1'' ''a'' ''c1'']"
    by (simp add: cd demo_create_def body_member_def body_auth_def normalize_auth_def same_auth_def demo_auth_def
        auth_secret_configured_def jget_def json_opt_text_def json_text_def demo_secret_codec_def table_codec_def)
qed

end
