(* ===== verification/Send_Message.thy ===== *)
theory Send_Message
  imports Push_Notifications
begin

section \<open>Sending a message (\<open>handlers/send_message.rs\<close>, \<open>bindings/message_dispatch.rs\<close>)\<close>

text \<open>
  The handler that creates or continues a task: request checks, answers to human-in-the-loop prompts, the
  pre-request hooks, the task row, an inline callback configuration, the dispatch to the runtime and the
  transition it causes, the post-response hooks, the idempotency record, the push event and the response.
  The dispatch implementation is a parameter; while the handler awaits it, other requests may change
  the state, so it maps the state it is called in to the state found afterwards. The clock readings and
  the generated ids are numbered in the order the handler takes them.
\<close>

subsection \<open>Dispatch\<close>

datatype DispatchError = NotImplemented | RuntimeUnavailable string string | DispatchFailed string

fun dispatch_error_text :: "DispatchError \<Rightarrow> string" where
  "dispatch_error_text NotImplemented = ''message dispatch not wired for this build''"
| "dispatch_error_text (RuntimeUnavailable inst why) =
     ''runtime agent for instance '' @ inst @ '' is not reachable: '' @ why"
| "dispatch_error_text (DispatchFailed why) = ''dispatch failed: '' @ why"

fun dispatch_status :: "DispatchError option \<Rightarrow> u16" where
  "dispatch_status None = 202"
| "dispatch_status (Some (DispatchFailed _)) = 502"
| "dispatch_status (Some _) = 503"

fun dispatch_code :: "DispatchError \<Rightarrow> string \<times> string" where
  "dispatch_code NotImplemented = (''dispatch.unimplemented'', ''Runtime dispatch unimplemented'')"
| "dispatch_code (RuntimeUnavailable _ _) = (''runtime.unavailable'', ''Runtime unavailable'')"
| "dispatch_code (DispatchFailed _) = (''dispatch.failed'', ''Dispatch failed'')"

record send_env =
  sn_env :: handler_env
  sn_parse_url :: "string \<Rightarrow> Url option"
  sn_to_str :: "string \<Rightarrow> string option"
  sn_from_str :: "string \<Rightarrow> string option"
  sn_status_from_u16 :: "u16 \<Rightarrow> u16 option"
  sn_dispatch :: "InstanceContext \<Rightarrow> string \<Rightarrow> json \<Rightarrow> AppState \<Rightarrow> (DispatchError + unit) \<times> AppState"

subsection \<open>Responses\<close>

definition echo_header :: "send_env \<Rightarrow> ActivatedExtensions \<Rightarrow> (string \<times> string) list" where
  "echo_header env echoed =
     (if echoed = [] then [] else [(''a2a-extensions'', to_response_header (sn_from_str env) echoed)])"

definition build_fresh_response ::
  "send_env \<Rightarrow> u16 \<Rightarrow> json \<Rightarrow> ActivatedExtensions \<Rightarrow> string option \<Rightarrow> Response" where
  "build_fresh_response env status body echoed location =
     \<lparr>rs_status = status,
      rs_headers = [(''content-type'', ''application/json'')] @
        (case Option.bind location (sn_from_str env) of Some hv \<Rightarrow> [(''location'', hv)] | None \<Rightarrow> []) @ echo_header env echoed,
      rs_body = Some body\<rparr>"

definition build_replay_response :: "send_env \<Rightarrow> u16 \<Rightarrow> json \<Rightarrow> ActivatedExtensions \<Rightarrow> Response" where
  "build_replay_response env status body echoed =
     \<lparr>rs_status = status,
      rs_headers = [(''content-type'', ''application/json''), (''idempotent-replayed'', ''true'')] @ echo_header env echoed,
      rs_body = Some body\<rparr>"

subsection \<open>Reading the request\<close>

definition message_field :: "string \<Rightarrow> json \<Rightarrow> json option" where
  "message_field k body = Option.bind (jget ''message'' body) (jget k)"

definition message_str :: "string \<Rightarrow> json \<Rightarrow> string option" where
  "message_str k body = Option.bind (message_field k body) as_str"

definition nonempty :: "string option \<Rightarrow> string option" where
  "nonempty v = Option.bind v (\<lambda>s. if s = [] then None else Some s)"

definition hitl_response_payload :: "json \<Rightarrow> json option" where
  "hitl_response_payload body = Option.bind (message_field ''metadata'' body) (jget ''hitl_response_for'')"

definition is_object :: "json \<Rightarrow> bool" where
  "is_object v = (case v of JObj _ \<Rightarrow> True | _ \<Rightarrow> False)"

definition as_u64 :: "json \<Rightarrow> u64 option" where
  "as_u64 v = (case v of JInt i \<Rightarrow> if 0 \<le> i \<and> i < 2 ^ 64 then Some (of_int i) else None | _ \<Rightarrow> None)"

text \<open>\<open>usize::try_from\<close> succeeds on the 64-bit targets.\<close>

definition requested_history :: "json \<Rightarrow> usize option" where
  "requested_history body = Option.bind (Option.bind (jget ''configuration'' body) (jget ''historyLength'')) as_u64"

subsection \<open>Protocol history\<close>

definition append_protocol_history :: "json option \<Rightarrow> json \<Rightarrow> json option" where
  "append_protocol_history metadata message =
     (case (case metadata of None \<Rightarrow> JObj [] | Some v \<Rightarrow> v) of
        JObj root \<Rightarrow>
          (case (case map_of root ''_a2a'' of Some v \<Rightarrow> v | None \<Rightarrow> JObj []) of
             JObj internal \<Rightarrow>
               let history = (case map_of internal ''history'' of Some h \<Rightarrow> h | None \<Rightarrow> JArr []);
                   history' = (case history of JArr xs \<Rightarrow> JArr (xs @ [message]) | _ \<Rightarrow> history)
               in Some (JObj (jinsert ''_a2a'' (JObj (jinsert ''history'' history' internal)) root))
           | _ \<Rightarrow> Some (JObj root))
      | v \<Rightarrow> Some v)"

definition internal_response_message :: "TaskRow \<Rightarrow> json option" where
  "internal_response_message row =
     Option.bind (Option.bind (tr_metadata_json row) (jget ''_a2a'')) (jget ''responseMessage'')"

subsection \<open>Answers to prompts\<close>

definition hitl_rejected :: "string \<Rightarrow> string \<Rightarrow> Response" where
  "hitl_rejected instance_id detail =
     error_response 409 ''https://agentic-sandbox.aiwg.io/errors/hitl-response'' ''HITL response rejected'' detail
       ''hitl_already_answered_or_unknown'' None (Some instance_id)"

definition answered_row :: "handler_env \<Rightarrow> timestamp \<Rightarrow> json \<Rightarrow> TaskRow \<Rightarrow> TaskRow" where
  "answered_row env now body row =
     row\<lparr>tr_state := Working, tr_updated_at := now, tr_terminal_at := None,
         tr_status_json := jobj [(''state'', JStr (state_as_str Working)), (''timestamp'', JStr (rfc3339 env now)),
           (''message'', jindex ''message'' body)]\<rparr>"

definition handle_hitl_response ::
  "send_env \<Rightarrow> timestamp \<Rightarrow> AppState \<Rightarrow> string \<Rightarrow> json \<Rightarrow> json \<Rightarrow> Response \<times> AppState" where
  "handle_hitl_response env now st instance_id body response =
     (case message_str ''taskId'' body of
        None \<Rightarrow> (error_response 400 ''https://agentic-sandbox.aiwg.io/errors/invalid-params'' ''Invalid HITL response''
            ''HITL response messages must include message.taskId'' ''hitl_response.missing_task_id'' None (Some instance_id), st)
      | Some task_id \<Rightarrow>
          (case get_task_for_instance (he_codec (sn_env env)) (as_store st) instance_id task_id of
             Inr None \<Rightarrow> (hitl_rejected instance_id ''HITL prompt is unknown for this instance'', st)
           | Inl e \<Rightarrow> (internal_error instance_id (''Failed to read HITL task: '' @ he_err (sn_env env) e), st)
           | Inr (Some row) \<Rightarrow>
               if tr_state row \<noteq> InputRequired
               then (hitl_rejected instance_id (''Task '' @ quoted task_id @ '' is not waiting for HITL input''), st)
               else
                 (case Option.bind (Option.bind (jget ''message'' (tr_status_json row)) (jget ''metadata'')) (jget HITL_URI) of
                    None \<Rightarrow> (hitl_rejected instance_id ''Task is input-required but has no stored hitl-prompt envelope'', st)
                  | Some stored_envelope \<Rightarrow>
                      (case validate_hitl_response stored_envelope response of
                         Inl detail \<Rightarrow> (error_response 422 ''https://agentic-sandbox.aiwg.io/errors/hitl-response-invalid''
                             ''HITL response invalid'' detail ''hitl_response_invalid'' None (Some instance_id), st)
                       | Inr _ \<Rightarrow>
                           let row' = answered_row (sn_env env) now body row
                           in (case upsert_task (he_codec (sn_env env)) (as_store st) row' of
                                 Inl e \<Rightarrow> (internal_error instance_id (''Failed to persist HITL response: '' @ he_err (sn_env env) e), st)
                               | Inr s' \<Rightarrow> (build_fresh_response env 202 (task_row_to_a2a (sn_env env) row') [] None, set_store st s'))))))"


subsection \<open>The task a message creates or continues\<close>

definition referenced_task :: "handler_env \<Rightarrow> AppState \<Rightarrow> string \<Rightarrow> json \<Rightarrow> Response + TaskRow option" where
  "referenced_task env st instance_id body =
     (case nonempty (message_str ''taskId'' body) of
        None \<Rightarrow> Inr None
      | Some task_id \<Rightarrow>
          (case get_task_for_instance (he_codec env) (as_store st) instance_id task_id of
             Inr (Some row) \<Rightarrow> Inr (Some row)
           | Inr None \<Rightarrow> Inl (task_not_found instance_id ''The referenced task does not exist'')
           | Inl e \<Rightarrow> Inl (internal_error instance_id (''Failed to read referenced task: '' @ he_err env e))))"

definition continuation_refused :: "string \<Rightarrow> json \<Rightarrow> TaskRow option \<Rightarrow> Response option" where
  "continuation_refused instance_id body existing =
     (case existing of
        None \<Rightarrow> None
      | Some row \<Rightarrow>
          if state_is_terminal (tr_state row)
          then Some (error_response 409 ''https://agentic-sandbox.aiwg.io/errors/task-terminal'' ''Task is terminal''
                 ''Messages cannot be sent to a task that has reached a terminal state'' ''task.terminal'' None (Some instance_id))
          else
            (case nonempty (message_str ''contextId'' body) of
               Some supplied \<Rightarrow>
                 if tr_context_id row \<noteq> Some supplied
                 then Some (error_response 400 ''https://agentic-sandbox.aiwg.io/errors/invalid-params'' ''Invalid params''
                        ''message.contextId does not match the referenced task'' ''request.context_task_mismatch'' None (Some instance_id))
                 else None
             | None \<Rightarrow> None))"

definition message_graph :: "ActivatedExtensions \<Rightarrow> json \<Rightarrow> json option" where
  "message_graph activated body =
     (if activated_contains activated FLOW_URI
      then (case graph_metadata body of Inr g \<Rightarrow> g | Inl _ \<Rightarrow> None) else None)"

definition message_lineage :: "json option \<Rightarrow> json \<Rightarrow> string + json option" where
  "message_lineage graph_identity body = (case graph_identity of Some _ \<Rightarrow> resume_lineage body | None \<Rightarrow> Inr None)"

text \<open>The row that is stored; the outer \<open>None\<close> is the panic of an index assignment.\<close>

definition submitted_row ::
  "handler_env \<Rightarrow> timestamp \<Rightarrow> string \<Rightarrow> string \<Rightarrow> string \<Rightarrow> json \<Rightarrow> TaskRow option \<Rightarrow> json option \<Rightarrow> json option \<Rightarrow> TaskRow option" where
  "submitted_row env now fresh_task fresh_context instance_id body existing graph_identity lineage =
     (let task_id = (case existing of Some row \<Rightarrow> tr_task_id row | None \<Rightarrow> fresh_task);
          context_id = (case Option.bind existing tr_context_id of
              Some c \<Rightarrow> Some c
            | None \<Rightarrow> (case nonempty (message_str ''contextId'' body) of Some c \<Rightarrow> Some c | None \<Rightarrow> Some fresh_context));
          graph_meta = (case graph_identity of
              None \<Rightarrow> Some None
            | Some graph \<Rightarrow> map_option Some (task_metadata_with_lineage graph task_id context_id
                (case message_str ''messageId'' body of Some m \<Rightarrow> m | None \<Rightarrow> task_id)
                (lifecycle_event (rfc3339 env) ''queued'' now) lineage))
      in map_option (\<lambda>meta.
           let task_metadata = (case meta of Some m \<Rightarrow> Some m | None \<Rightarrow> Option.bind existing tr_metadata_json)
           in \<lparr>tr_task_id = task_id, tr_context_id = context_id, tr_instance_id = Some instance_id, tr_state = Submitted,
               tr_fail_kind = None,
               tr_status_json = jobj [(''state'', JStr (state_as_str Submitted)), (''timestamp'', JStr (rfc3339 env now))],
               tr_metadata_json = append_protocol_history task_metadata
                 (case jget ''message'' body of Some m \<Rightarrow> m | None \<Rightarrow> JNull),
               tr_created_at = (case existing of Some row \<Rightarrow> tr_created_at row | None \<Rightarrow> now),
               tr_updated_at = now, tr_terminal_at = None\<rparr>) graph_meta)"

subsection \<open>After the dispatch\<close>

text \<open>A failed write of the transition is logged only: the store stays as it is.\<close>

definition try_upsert :: "handler_env \<Rightarrow> AppState \<Rightarrow> TaskRow \<Rightarrow> AppState" where
  "try_upsert env st row =
     (case upsert_task (he_codec env) (as_store st) row of Inr s' \<Rightarrow> set_store st s' | Inl _ \<Rightarrow> st)"

definition accepted_transition ::
  "handler_env \<Rightarrow> timestamp \<Rightarrow> AppState \<Rightarrow> string \<Rightarrow> TaskRow \<Rightarrow> (TaskRow \<times> AppState) option" where
  "accepted_transition env updated st instance_id row =
     (let current = (case get_task_for_instance (he_codec env) (as_store st) instance_id (tr_task_id row) of
            Inr (Some r) \<Rightarrow> r | _ \<Rightarrow> row)
      in if tr_state current = Submitted
         then map_option (\<lambda>meta.
                let row' = row\<lparr>tr_state := Working,
                      tr_status_json := jobj [(''state'', JStr (state_as_str Working)), (''timestamp'', JStr (rfc3339 env updated))],
                      tr_metadata_json := meta, tr_updated_at := updated\<rparr>
                in (row', try_upsert env st row'))
              (latest_event (tr_metadata_json row) (lifecycle_event (rfc3339 env) ''running'' updated))
         else Some (current, st))"

definition failed_transition ::
  "handler_env \<Rightarrow> timestamp \<Rightarrow> AppState \<Rightarrow> DispatchError \<Rightarrow> TaskRow \<Rightarrow> (TaskRow \<times> AppState) option" where
  "failed_transition env updated st err row =
     map_option (\<lambda>meta.
         let row' = row\<lparr>tr_state := Failed, tr_fail_kind := Some Infrastructure,
               tr_status_json := jobj [(''state'', JStr (state_as_str Failed)), (''timestamp'', JStr (rfc3339 env updated)),
                 (''error'', JStr (dispatch_error_text err))],
               tr_metadata_json := meta, tr_updated_at := updated, tr_terminal_at := Some updated\<rparr>
         in (row', try_upsert env st row'))
       (latest_event (tr_metadata_json row)
          (terminal_event (rfc3339 env) ''failed'' (tr_created_at row) updated
             (jobj [(''status'', JStr ''unknown''), (''reason'', JStr ''dispatch did not start'')]) (JArr [])
             (Some (dispatch_error_text err))))"

text \<open>The body, before the post-response hooks.\<close>

definition response_body :: "handler_env \<Rightarrow> json \<Rightarrow> TaskRow \<Rightarrow> json" where
  "response_body env body row =
     trim_history (requested_history body)
       (case internal_response_message row of
          Some message \<Rightarrow> jobj [(''message'', message)]
        | None \<Rightarrow> task_row_to_a2a env row)"

text \<open>The recording of the response; a failure is logged only, an unrepresentable expiry panics.\<close>

definition record_send ::
  "handler_env \<Rightarrow> timestamp \<Rightarrow> ActivatedExtensions \<Rightarrow> ProtocolVersion \<Rightarrow> AppState \<Rightarrow> json \<Rightarrow> u16 \<Rightarrow> json \<Rightarrow> AppState option" where
  "record_send env now activated version st body status task_json =
     (if \<not> activated_contains activated IDEMPOTENCY_URI then Some st
      else case message_str ''messageId'' body of
        None \<Rightarrow> Some st
      | Some mid \<Rightarrow>
          (case record_response (he_idem env) now (as_idem st) mid
                  (versioned_request_body (as_header_value version) body) status task_json of
             Inr c \<Rightarrow> Some (st\<lparr>as_idem := c\<rparr>)
           | Inl DateOverflow \<Rightarrow> None
           | Inl _ \<Rightarrow> Some st))"

definition finish_send ::
  "send_env \<Rightarrow> timestamp \<Rightarrow> InstanceContext \<Rightarrow> ActivatedExtensions \<Rightarrow> ProtocolVersion \<Rightarrow> string \<Rightarrow> json \<Rightarrow>
   TaskRow \<Rightarrow> DispatchError option \<Rightarrow> AppState \<Rightarrow> (Response \<times> AppState) option" where
  "finish_send env now ctx activated version instance_id body row_after dispatch_error st =
     (let task_id = tr_task_id row_after;
          status = dispatch_status dispatch_error;
          task_json = registry_post_response
            \<lparr>post_activated = activated, post_task_id = task_id, post_status = status,
             post_response_body = response_body (sn_env env) body row_after, post_instance = Some ctx\<rparr> (as_extensions st)
      in map_option (\<lambda>st1.
           let status_event = jobj [(''kind'', JStr ''task_status''), (''task_id'', JStr task_id),
                 (''context_id'', case tr_context_id row_after of Some c \<Rightarrow> JStr c | None \<Rightarrow> JNull),
                 (''status'', jindex ''status'' task_json)];
               st2 = try_send st1 \<lparr>de_task_id = task_id, de_status_event = status_event\<rparr>
           in case dispatch_error of
                Some err \<Rightarrow> (error_response status ''https://agentic-sandbox.aiwg.io/errors/dispatch'' (snd (dispatch_code err))
                    (dispatch_error_text err) (fst (dispatch_code err)) None (Some instance_id), st2)
              | None \<Rightarrow> (build_fresh_response env status task_json (echo_activated (as_extensions st) activated)
                    (Some (''/agents/'' @ instance_id @ ''/v1/tasks/'' @ task_id)), st2))
         (record_send (sn_env env) now activated version st body status task_json))"

subsection \<open>The handler\<close>

text \<open>From the stored row on: the inline configuration, the dispatch and the rest.\<close>

definition dispatch_send ::
  "send_env \<Rightarrow> (nat \<Rightarrow> timestamp) \<Rightarrow> string \<Rightarrow> InstanceContext \<Rightarrow> ActivatedExtensions \<Rightarrow> ProtocolVersion \<Rightarrow> string \<Rightarrow> json \<Rightarrow>
   TaskRow \<Rightarrow> AppState \<Rightarrow> (Response \<times> AppState) option" where
  "dispatch_send env clk fresh_config ctx activated version instance_id body row st =
     (case (case Option.bind (jget ''configuration'' body) (jget ''taskPushNotificationConfig'') of
              Some config \<Rightarrow> persist_inline_config (sn_env env) (sn_parse_url env) fresh_config (clk 2) st instance_id (tr_task_id row) config
            | None \<Rightarrow> Inr st) of
        Inl response \<Rightarrow> Some (response, st)
      | Inr st1 \<Rightarrow>
          (case sn_dispatch env ctx (tr_task_id row) body st1 of
             (Inr _, st2) \<Rightarrow>
               Option.bind (accepted_transition (sn_env env) (clk 3) st2 instance_id row) (\<lambda>(row', st3).
                 finish_send env (clk 4) ctx activated version instance_id body row' None st3)
           | (Inl err, st2) \<Rightarrow>
               Option.bind (failed_transition (sn_env env) (clk 3) st2 err row) (\<lambda>(row', st3).
                 finish_send env (clk 4) ctx activated version instance_id body row' (Some err) st3)))"

definition send_fresh ::
  "send_env \<Rightarrow> (nat \<Rightarrow> timestamp) \<Rightarrow> (nat \<Rightarrow> string) \<Rightarrow> InstanceContext \<Rightarrow> ActivatedExtensions \<Rightarrow> ProtocolVersion \<Rightarrow>
   string \<Rightarrow> json \<Rightarrow> AppState \<Rightarrow> (Response \<times> AppState) option" where
  "send_fresh env clk ids ctx activated version instance_id body st =
     (case referenced_task (sn_env env) st instance_id body of
        Inl response \<Rightarrow> Some (response, st)
      | Inr existing \<Rightarrow>
          (case continuation_refused instance_id body existing of
             Some response \<Rightarrow> Some (response, st)
           | None \<Rightarrow>
               let graph_identity = message_graph activated body
               in (case message_lineage graph_identity body of
                     Inl detail \<Rightarrow> Some (error_response 422 ''https://agentic-sandbox.aiwg.io/errors/flow-graph-resume''
                         ''Invalid Flow graph resume lineage'' detail ''flow_graph.invalid_resume'' None (Some instance_id), st)
                   | Inr lineage \<Rightarrow>
                       Option.bind (submitted_row (sn_env env) (clk 1) (ids 0) (ids 1) instance_id body existing graph_identity lineage) (\<lambda>row.
                         case upsert_task (he_codec (sn_env env)) (as_store st) row of
                           Inl e \<Rightarrow> Some (internal_error instance_id (''Failed to persist task: '' @ he_err (sn_env env) e), st)
                         | Inr s' \<Rightarrow>
                             dispatch_send env clk (ids 2) ctx activated version instance_id body row (set_store st s')))))"

definition extension_refusal :: "send_env \<Rightarrow> string \<Rightarrow> u16 \<Rightarrow> json \<Rightarrow> Response" where
  "extension_refusal env instance_id status body =
     error_response (case sn_status_from_u16 env status of Some s \<Rightarrow> s | None \<Rightarrow> 422)
       (str_or ''https://agentic-sandbox.aiwg.io/errors/extension'' (jget ''type'' body))
       (str_or ''Extension rejected request'' (jget ''title'' body)) (str_or [] (jget ''detail'' body))
       (str_or ''extension.rejected'' (jget ''code'' body)) None (Some instance_id)"

text \<open>
  \<open>parsed\<close> is the request body: \<open>None\<close> when empty, an error text when it is not JSON. \<open>ext_headers\<close> are
  the values of the extension header lines, \<open>ready\<close> the liveness flag of the instance.
\<close>

definition send_message ::
  "send_env \<Rightarrow> (nat \<Rightarrow> timestamp) \<Rightarrow> (nat \<Rightarrow> string) \<Rightarrow> InstanceContext \<Rightarrow> bool \<Rightarrow> ProtocolVersion \<Rightarrow> string list \<Rightarrow>
   string \<Rightarrow> (string + json) option \<Rightarrow> AppState \<Rightarrow> (Response \<times> AppState) option" where
  "send_message env clk ids ctx ready version ext_headers instance_id parsed st =
     (case (case parsed of None \<Rightarrow> Inr (JObj []) | Some r \<Rightarrow> r) of
        Inl e \<Rightarrow> Some (error_response 400 ''https://agentic-sandbox.aiwg.io/errors/invalid-json'' ''Invalid JSON body''
            (''Failed to parse request body as JSON: '' @ e) ''request.invalid_json'' None (Some instance_id), st)
      | Inr body \<Rightarrow>
          if \<not> is_object body \<or> \<not> (case jget ''message'' body of Some m \<Rightarrow> is_object m | None \<Rightarrow> False)
          then Some (invalid_params instance_id ''Request body must be a JSON object with a `message` object'', st)
          else if \<not> ready
          then Some (error_response 503 ''https://agentic-sandbox.aiwg.io/errors/runtime-unavailable'' ''Runtime not ready''
                 ''The backing runtime for this instance is not currently servicing requests. Check the instance state in /api/v2/admin/instances; the runtime may have failed to start or has dropped its management connection.''
                 ''runtime.not_ready'' None (Some instance_id), st)
          else (case hitl_response_payload body of
             Some response \<Rightarrow> Some (handle_hitl_response env (clk 0) st instance_id body response)
           | None \<Rightarrow>
               let activated = from_headers (sn_to_str env) ext_headers;
                   pre_ctx = \<lparr>pre_activated = activated, pre_task_id = None, pre_message_id = message_str ''messageId'' body,
                     pre_request_body = body, pre_protocol_version = as_header_value version\<rparr>
               in case registry_pre_request (he_idem (sn_env env)) (clk 0) (as_idem st) pre_ctx (as_extensions st) of
                    (Continue, c) \<Rightarrow>
                      send_fresh env clk ids ctx activated version instance_id body (st\<lparr>as_idem := c\<rparr>)
                  | (ExtensionOutcome.Replay status cached_body, c) \<Rightarrow>
                      Some (build_replay_response env (case sn_status_from_u16 env status of Some s \<Rightarrow> s | None \<Rightarrow> 202) cached_body
                          (echo_activated (as_extensions st) activated),
                        st\<lparr>as_idem := c\<lparr>ca_metrics := record_hit_for_op (ca_metrics c) ''messages:send''\<rparr>\<rparr>)
                  | (Reject status err_body, c) \<Rightarrow>
                      Some (extension_refusal env instance_id status err_body, st\<lparr>as_idem := c\<rparr>)))"


subsection \<open>A retransmission is answered from the record\<close>

text \<open>Two states with the same idempotency table, retention and extensions.\<close>

definition same_idem :: "AppState \<Rightarrow> AppState \<Rightarrow> bool" where
  "same_idem st st' \<longleftrightarrow> idempotency_cache (as_store st') = idempotency_cache (as_store st)
     \<and> ca_ttl (as_idem st') = ca_ttl (as_idem st) \<and> as_extensions st' = as_extensions st"

lemma same_idem_refl [simp]: "same_idem st st"
  by (simp add: same_idem_def)

lemma same_idem_trans [trans]: "same_idem a b \<Longrightarrow> same_idem b c \<Longrightarrow> same_idem a c"
  by (simp add: same_idem_def)

lemma same_idem_set_store: "idempotency_cache s = idempotency_cache (as_store st) \<Longrightarrow> same_idem st (set_store st s)"
  by (simp add: same_idem_def set_store_def)

lemma upsert_task_idem: "upsert_task cd s row = Inr s' \<Longrightarrow> idempotency_cache s' = idempotency_cache s"
  by (auto simp: upsert_task_def Let_def and_then_Inr)

lemma put_push_idem: "put_push_config_bounded cd s cfg n = Inr (x, s') \<Longrightarrow> idempotency_cache s' = idempotency_cache s"
  by (auto simp: put_push_config_bounded_def and_then_Inr split: option.split_asm if_split_asm)

lemma try_upsert_idem: "same_idem st (try_upsert env st row)"
  by (auto simp: try_upsert_def intro: same_idem_set_store upsert_task_idem split: sum.split)

lemma persist_bounded_idem: "persist_bounded_config env st i cfg = Inr st' \<Longrightarrow> same_idem st st'"
  by (auto simp: persist_bounded_config_def dest!: put_push_idem intro: same_idem_set_store
      split: sum.split_asm PushConfigWriteOutcome.split_asm)

lemma persist_inline_idem: "persist_inline_config env pu fc now st i t body = Inr st' \<Longrightarrow> same_idem st st'"
  by (auto simp: persist_inline_config_def and_then_Inr intro: persist_bounded_idem)

lemma accepted_transition_idem: "accepted_transition env u st i row = Some (row', st') \<Longrightarrow> same_idem st st'"
  by (auto simp: accepted_transition_def Let_def try_upsert_idem split: if_split_asm sum.split_asm option.split_asm)

lemmas error_statuses = error_response_def internal_error_def invalid_params_def task_not_found_def invalid_url_def hitl_rejected_def

lemma parse_create_refusal: "parse_create_body pu fc body i = Inl r \<Longrightarrow> rs_status r \<noteq> 202"
  by (auto simp: parse_create_body_def and_then_Inl error_statuses split: sum.split_asm option.split_asm)

lemma persist_bounded_refusal: "persist_bounded_config env st i cfg = Inl r \<Longrightarrow> rs_status r \<noteq> 202"
  by (cases "put_push_config_bounded (he_codec env) (as_store st) cfg (of_nat MAX_CONFIGS_PER_TASK)")
    (auto simp: persist_bounded_config_def error_statuses split: PushConfigWriteOutcome.split_asm)

lemma persist_inline_refusal: "persist_inline_config env pu fc now st i t body = Inl r \<Longrightarrow> rs_status r \<noteq> 202"
  by (auto simp: persist_inline_config_def and_then_Inl dest: parse_create_refusal persist_bounded_refusal)

lemma finish_send_failed: "finish_send env now ctx act v i body row (Some err) st = Some (r, st') \<Longrightarrow> rs_status r \<noteq> 202"
  by (cases err) (auto simp: finish_send_def Let_def error_response_def)

definition dispatch_keeps_idem :: "send_env \<Rightarrow> bool" where
  "dispatch_keeps_idem env \<longleftrightarrow> (\<forall>ctx t body st. same_idem st (snd (sn_dispatch env ctx t body st)))"

lemma dispatch_send_accepted:
  assumes "dispatch_send env clk fc ctx act v i body row st = Some (resp, st')" and "rs_status resp = 202"
    and "dispatch_keeps_idem env"
  obtains row' st3 where "finish_send env (clk 4) ctx act v i body row' None st3 = Some (resp, st')" "same_idem st st3"
proof -
  let ?inline = "case Option.bind (jget ''configuration'' body) (jget ''taskPushNotificationConfig'') of
      Some config \<Rightarrow> persist_inline_config (sn_env env) (sn_parse_url env) fc (clk 2) st i (tr_task_id row) config
    | None \<Rightarrow> Inr st"
  obtain st1 where st1: "?inline = Inr st1"
    using assms(1,2) persist_inline_refusal by (cases ?inline) (auto simp: dispatch_send_def split: option.split_asm)
  then have keep1: "same_idem st st1" by (auto dest: persist_inline_idem split: option.split_asm)
  obtain res st2 where st2: "sn_dispatch env ctx (tr_task_id row) body st1 = (res, st2)" by fastforce
  with assms(3) have keep2: "same_idem st1 st2" unfolding dispatch_keeps_idem_def by (metis snd_conv)
  show thesis
  proof (cases res)
    case (Inl err)
    with assms(1,2) st1 st2 show thesis
      by (auto simp: dispatch_send_def bind_eq_Some_conv dest: finish_send_failed)
  next
    case (Inr u)
    with assms(1) st1 st2 obtain row' st3 where t: "accepted_transition (sn_env env) (clk 3) st2 i row = Some (row', st3)"
        "finish_send env (clk 4) ctx act v i body row' None st3 = Some (resp, st')"
      by (auto simp: dispatch_send_def bind_eq_Some_conv)
    show thesis
      by (rule that [OF t(2)]) (use keep1 keep2 accepted_transition_idem [OF t(1)] in \<open>blast intro: same_idem_trans\<close>)
  qed
qed

lemma referenced_task_refusal: "referenced_task env st i body = Inl r \<Longrightarrow> rs_status r \<noteq> 202"
  by (auto simp: referenced_task_def error_statuses split: sum.split_asm option.split_asm)

lemma continuation_refusal: "continuation_refused i body e = Some r \<Longrightarrow> rs_status r \<noteq> 202"
  by (auto simp: continuation_refused_def error_statuses split: option.split_asm if_split_asm)

lemma send_fresh_accepted:
  assumes "send_fresh env clk ids ctx act v i body st = Some (resp, st')" and "rs_status resp = 202"
    and "dispatch_keeps_idem env"
  obtains row' st3 where "finish_send env (clk 4) ctx act v i body row' None st3 = Some (resp, st')" "same_idem st st3"
proof -
  obtain existing where existing: "referenced_task (sn_env env) st i body = Inr existing"
    using assms(1,2) referenced_task_refusal by (cases "referenced_task (sn_env env) st i body") (auto simp: send_fresh_def)
  have refused: "continuation_refused i body existing = None"
    using assms(1,2) existing continuation_refusal by (cases "continuation_refused i body existing") (auto simp: send_fresh_def)
  obtain lineage where lineage: "message_lineage (message_graph act body) body = Inr lineage"
    using assms(1,2) existing refused
    by (cases "message_lineage (message_graph act body) body") (auto simp: send_fresh_def error_response_def)
  obtain row where sub: "submitted_row (sn_env env) (clk 1) (ids 0) (ids 1) i body existing (message_graph act body) lineage = Some row"
    using assms(1) existing refused lineage
    by (cases "submitted_row (sn_env env) (clk 1) (ids 0) (ids 1) i body existing (message_graph act body) lineage") (auto simp: send_fresh_def)
  obtain s' where row: "upsert_task (he_codec (sn_env env)) (as_store st) row = Inr s'"
      "dispatch_send env clk (ids 2) ctx act v i body row (set_store st s') = Some (resp, st')"
    using assms(1,2) existing refused lineage sub
    by (cases "upsert_task (he_codec (sn_env env)) (as_store st) row") (auto simp: send_fresh_def error_statuses)
  have "same_idem st (set_store st s')"
    using upsert_task_idem [OF row(1)] by (rule same_idem_set_store)
  with dispatch_send_accepted [OF row(2) assms(2,3)] show thesis by (metis same_idem_trans that)
qed

definition send_status_ok :: "send_env \<Rightarrow> bool" where
  "send_status_ok env \<longleftrightarrow> (\<forall>s. 100 \<le> s \<and> s \<le> 999 \<longrightarrow> sn_status_from_u16 env s = Some s)"

text \<open>The recording of an accepted response.\<close>

lemma finish_send_recorded:
  assumes "finish_send env now ctx act v i body row None st = Some (resp, st')"
    and cd: "codec_ok (he_codec (sn_env env))" and ok: "idem_ok (he_codec (sn_env env)) (as_idem st)"
    and act: "activated_contains act IDEMPOTENCY_URI" and mid: "message_str ''messageId'' body = Some mid"
    and h: "hash_request (he_idem (sn_env env)) (versioned_request_body (as_header_value v) body) = Inr h"
    and rep: "idem_representable (he_idem (sn_env env)) (now + ca_ttl (as_idem st))" "ts_valid now" "ts_valid (now + ca_ttl (as_idem st))"
    and json: "rs_body resp = Some b" "json_to_string (sc_json (he_codec (sn_env env))) b = Some t"
  shows "\<exists>cr. cached (he_codec (sn_env env)) (as_idem st') mid = Some \<lparr>ie_message_id = mid, ie_request_hash = h, ie_response_status = 202,
      ie_response_body = b, ie_created_at = cr, ie_expires_at = now + ca_ttl (as_idem st)\<rparr>
    \<and> idem_ok (he_codec (sn_env env)) (as_idem st') \<and> as_extensions st' = as_extensions st"
proof -
  obtain st1 ev where rec: "record_send (sn_env env) now act v st body 202 b = Some st1" and st': "st' = try_send st1 ev"
    using assms(1) json(1) by (auto simp: finish_send_def Let_def build_fresh_response_def)
  obtain c where c: "record_response (he_idem (sn_env env)) now (as_idem st) mid
      (versioned_request_body (as_header_value v) body) 202 b = Inr c"
    using h rep(1) json(2) by (auto simp: record_response_def idempotency_put_def json_text_def)
  with rec act mid have "st1 = st\<lparr>as_idem := c\<rparr>" by (simp add: record_send_def)
  with st' have "as_idem st' = c" "as_extensions st' = as_extensions st" by (simp_all add: try_send_def)
  moreover have "\<exists>cr. cached (he_codec (sn_env env)) c mid = Some \<lparr>ie_message_id = mid, ie_request_hash = h, ie_response_status = 202,
      ie_response_body = b, ie_created_at = cr, ie_expires_at = now + ca_ttl (as_idem st)\<rparr> \<and> idem_ok (he_codec (sn_env env)) c"
    using record_response_cached [OF cd ok c rep(2,3)] h by (metis sum.inject(2))
  ultimately show ?thesis by blast
qed

text \<open>What the hooks of the default registry do to a request they let through.\<close>

lemma pre_request_cache:
  assumes "registry_pre_request env now c ctx (build_default_registry k l h) = (outcome, c')"
  shows "ca_store c' = ca_store c \<and> ca_ttl c' = ca_ttl c"
proof -
  have "ca_store (snd (idem_pre_request env now c ctx)) = ca_store c \<and> ca_ttl (snd (idem_pre_request env now c ctx)) = ca_ttl c"
    by (auto simp: idem_pre_request_def check_def and_then_def split: sum.split option.split)
  with assms show ?thesis
    unfolding default_pre_request by (auto split: prod.split_asm ExtensionOutcome.split_asm)
qed

lemma idem_ok_same: "same_idem st st' \<Longrightarrow> idem_ok cd (as_idem st') = idem_ok cd (as_idem st)"
  by (simp add: same_idem_def idem_ok_def)

lemma flow_pre_request_outcome: "flow_pre_request ctx = Continue \<or> (\<exists>b. flow_pre_request ctx = Reject 422 b)"
  by (auto simp: flow_pre_request_def reject_def split: sum.split option.split)

text \<open>An accepted request without a live record for its message went all the way.\<close>

lemma send_message_accepted:
  assumes first: "send_message env clk ids ctx ready v hdrs i (Some (Inr body)) st = Some (resp, st1)" "rs_status resp = 202"
    and reg: "as_extensions st = build_default_registry k l h0" and "dispatch_keeps_idem env" "send_status_ok env"
    and "hitl_response_payload body = None"
    and ok: "idem_ok (he_codec (sn_env env)) (as_idem st)" and mid: "message_str ''messageId'' body = Some mid"
    and fresh: "cached (he_codec (sn_env env)) (as_idem st) mid = None"
    and h: "hash_request (he_idem (sn_env env)) (versioned_request_body (as_header_value v) body) = Inr h"
  shows "is_object body" "\<exists>m. jget ''message'' body = Some m \<and> is_object m"
    and "\<exists>row' st3. finish_send env (clk 4) ctx (from_headers (sn_to_str env) hdrs) v i body row' None st3 = Some (resp, st1) \<and> same_idem st st3"
proof -
  show obj: "is_object body" "\<exists>m. jget ''message'' body = Some m \<and> is_object m"
    using first by (auto simp: send_message_def invalid_params_def error_response_def split: if_split_asm option.split_asm)
  let ?act = "from_headers (sn_to_str env) hdrs"
  let ?pre = "\<lparr>pre_activated = ?act, pre_task_id = None, pre_message_id = message_str ''messageId'' body, pre_request_body = body,
      pre_protocol_version = as_header_value v\<rparr>"
  obtain outcome c where pre: "registry_pre_request (he_idem (sn_env env)) (clk 0) (as_idem st) ?pre (as_extensions st) = (outcome, c)"
    by fastforce
  have "fst (idem_pre_request (he_idem (sn_env env)) (clk 0) (as_idem st) ?pre) = Continue"
  proof (cases "activated_contains ?act IDEMPOTENCY_URI")
    case True
    then show ?thesis using idem_pre_request_cached [OF ok, of ?pre mid h] mid h fresh by simp
  qed (simp add: idem_pre_request_def)
  then have outcome: "outcome = flow_pre_request ?pre"
    using pre unfolding reg default_pre_request by (cases "idem_pre_request (he_idem (sn_env env)) (clk 0) (as_idem st) ?pre") auto
  have "outcome = Continue"
    using flow_pre_request_outcome [of ?pre]
  proof
    assume "\<exists>b. flow_pre_request ?pre = Reject 422 b"
    with first obj pre outcome assms(5,6) show ?thesis
      by (auto simp: send_message_def Let_def extension_refusal_def error_response_def send_status_ok_def split: if_split_asm)
  qed (simp add: outcome)
  with first obj pre assms(6) have "send_fresh env clk ids ctx ?act v i body (st\<lparr>as_idem := c\<rparr>) = Some (resp, st1)"
    by (auto simp: send_message_def error_response_def split: if_split_asm)
  moreover have "same_idem st (st\<lparr>as_idem := c\<rparr>)"
    using pre_request_cache [of "he_idem (sn_env env)"] pre unfolding reg by (auto simp: same_idem_def)
  ultimately show "\<exists>row' st3. finish_send env (clk 4) ctx ?act v i body row' None st3 = Some (resp, st1) \<and> same_idem st st3"
    using send_fresh_accepted [OF _ first(2) assms(4)] by (metis same_idem_trans)
qed



subsection \<open>A concrete message\<close>

definition demo_message :: json where
  "demo_message = JObj [(''messageId'', JStr ''m1'')]"

definition demo_send_body :: json where
  "demo_send_body = JObj [(''message'', demo_message)]"

definition demo_submitted :: TaskRow where
  "demo_submitted = \<lparr>tr_task_id = ''t1'', tr_context_id = Some ''c1'', tr_instance_id = Some ''i1'', tr_state = Submitted,
     tr_fail_kind = None, tr_status_json = jobj [(''state'', JStr ''submitted''), (''timestamp'', JStr (unary_ts 1))],
     tr_metadata_json = Some (JObj [(''_a2a'', JObj [(''history'', JArr [demo_message])])]),
     tr_created_at = 1, tr_updated_at = 1, tr_terminal_at = None\<rparr>"

definition demo_working :: TaskRow where
  "demo_working = demo_submitted\<lparr>tr_state := Working, tr_updated_at := 1,
     tr_status_json := jobj [(''state'', JStr ''working''), (''timestamp'', JStr (unary_ts 1))]\<rparr>"

definition demo_instance :: InstanceContext where
  "demo_instance = \<lparr>ic_instance_id = ''i1'', ic_runtime_kind = Vm, ic_host = ''h'', ic_runtime_provider = None, ic_runtime_capabilities = []\<rparr>"

definition demo_reply :: json where
  "demo_reply = registry_post_response
     \<lparr>post_activated = [IDEMPOTENCY_URI], post_task_id = ''t1'', post_status = 202,
      post_response_body = task_row_to_a2a demo_handler_env demo_working, post_instance = Some demo_instance\<rparr>
     (build_default_registry Vm ''base'' ''h'')"

definition demo_send_env :: "(DispatchError + unit) \<Rightarrow> send_env" where
  "demo_send_env outcome = \<lparr>sn_env = demo_handler_env\<lparr>he_idem := demo_idem_env\<lparr>idem_codec := demo_store_codec\<lparr>sc_json := table_codec
       [tr_status_json demo_submitted, the (tr_metadata_json demo_submitted), demo_reply]\<rparr>\<rparr>\<rparr>,
     sn_parse_url = (\<lambda>_. None), sn_to_str = Some, sn_from_str = Some, sn_status_from_u16 = Some,
     sn_dispatch = (\<lambda>_ _ _ st. (outcome, st))\<rparr>"

definition demo_send_app :: AppState where
  "demo_send_app = \<lparr>as_idem = new_cache empty_store, as_extensions = build_default_registry Vm ''base'' ''h'', as_delivery = []\<rparr>"

abbreviation demo_cd :: store_codec where "demo_cd \<equiv> he_codec (sn_env (demo_send_env (Inr ())))"

lemma demo_send_env_simps [simp]:
  "sn_env (demo_send_env (Inl e)) = sn_env (demo_send_env (Inr ()))" "sn_to_str (demo_send_env r) = Some"
  "sn_dispatch (demo_send_env r) = (\<lambda>_ _ _ st. (r, st))" "sn_status_from_u16 (demo_send_env r) = Some" "sn_from_str (demo_send_env r) = Some"
  "rfc3339 (sn_env (demo_send_env r)) = unary_ts"
  "json_to_string (sc_json demo_cd) demo_reply \<noteq> None"
  by (simp_all add: demo_send_env_def demo_store_codec_def table_codec_def)

lemma demo_send_codec_ok: "codec_ok demo_cd"
  using demo_codec_ok by (simp add: codec_ok_def demo_send_env_def demo_store_codec_def table_codec_roundtrip)

lemma demo_submitted_row:
  "submitted_row (sn_env (demo_send_env r)) 1 ''t1'' ''c1'' ''i1'' demo_send_body None None None = Some demo_submitted"
  by (simp add: submitted_row_def demo_send_body_def demo_message_def demo_submitted_def append_protocol_history_def
      message_str_def message_field_def nonempty_def Let_def eval_simps)

lemma demo_stored:
  "\<exists>s. upsert_task demo_cd empty_store demo_submitted = Inr s \<and> get_task_for_instance demo_cd s ''i1'' ''t1'' = Inr (Some demo_submitted)"
  by (simp add: upsert_task_def empty_store_def tbl_get_def demo_submitted_def demo_message_def terminal_text_def insert_task_cols_def
      json_text_def json_opt_text_def demo_send_env_def demo_store_codec_def table_codec_def get_task_for_instance_def row_to_task_def
      parse_json_def parse_opt_json_def parse_ts_def parse_opt_ts_def fmt_ts_def unary_ts_def parse_unary_ts_def state_from_str_def jobj_def)

abbreviation demo_clock :: "nat \<Rightarrow> timestamp" where "demo_clock \<equiv> \<lambda>_. 1"
abbreviation demo_ids :: "nat \<Rightarrow> string" where "demo_ids \<equiv> \<lambda>n. if n = 0 then ''t1'' else ''c1''"

lemma demo_request:
  "from_headers Some [IDEMPOTENCY_URI] = [IDEMPOTENCY_URI]" "activated_contains [IDEMPOTENCY_URI] IDEMPOTENCY_URI"
  "\<not> activated_contains [IDEMPOTENCY_URI] FLOW_URI" "message_str ''messageId'' demo_send_body = Some ''m1''"
  "hitl_response_payload demo_send_body = None" "is_object demo_send_body" "jget ''message'' demo_send_body = Some demo_message" "is_object demo_message"
  by (simp_all add: from_headers_def List.map_filter_def extension_uris activated_contains_def eq_ignore_ascii_case_def message_str_def
      message_field_def demo_send_body_def demo_message_def hitl_response_payload_def is_object_def eval_simps)

lemma demo_send_hash:
  "hash_request (he_idem (sn_env (demo_send_env (Inr ())))) (versioned_request_body (as_header_value V1_0) demo_send_body) = Inr []"
  unfolding hash_request_def strip_versioned
  by (simp add: demo_send_env_def demo_idem_env_def versioned_request_body_def demo_send_body_def eval_simps)

lemma demo_fresh:
  "\<exists>c. registry_pre_request (he_idem (sn_env (demo_send_env (Inr ())))) 1 (new_cache empty_store)
     \<lparr>pre_activated = [IDEMPOTENCY_URI], pre_task_id = None, pre_message_id = Some ''m1'', pre_request_body = demo_send_body,
      pre_protocol_version = as_header_value V1_0\<rparr> (build_default_registry Vm ''base'' ''h'') = (Continue, c)
   \<and> ca_store c = empty_store \<and> ca_ttl c = ca_ttl (new_cache empty_store)"
proof -
  have "\<exists>c. idem_pre_request (he_idem (sn_env (demo_send_env (Inr ())))) 1 (new_cache empty_store)
     \<lparr>pre_activated = [IDEMPOTENCY_URI], pre_task_id = None, pre_message_id = Some ''m1'', pre_request_body = demo_send_body,
      pre_protocol_version = as_header_value V1_0\<rparr> = (Continue, c) \<and> ca_store c = empty_store \<and> ca_ttl c = ca_ttl (new_cache empty_store)"
    using demo_send_hash
    by (simp add: idem_pre_request_def demo_request check_def idempotency_get_def new_cache_def empty_store_def tbl_get_def)
  then show ?thesis
    unfolding default_pre_request by (auto simp: flow_pre_request_def demo_request)
qed

lemma demo_accepted:
  assumes "as_store st = s" "get_task_for_instance demo_cd s ''i1'' ''t1'' = Inr (Some demo_submitted)"
  shows "accepted_transition (sn_env (demo_send_env (Inr ()))) 1 st ''i1'' demo_submitted = Some (demo_working, try_upsert (sn_env (demo_send_env (Inr ()))) st demo_working)"
  using assms
  by (simp add: accepted_transition_def Let_def demo_submitted_def demo_working_def latest_event_def FLOW_URI_def)

lemma demo_no_reference: "nonempty (message_str ''taskId'' demo_send_body) = None" "jget ''configuration'' demo_send_body = None"
  by (simp_all add: nonempty_def message_str_def message_field_def demo_send_body_def demo_message_def jget_def)

lemma demo_response_body: "response_body (sn_env (demo_send_env (Inr ()))) demo_send_body demo_working = task_row_to_a2a demo_handler_env demo_working"
proof -
  have rfc: "rfc3339 demo_handler_env = unary_ts" by (simp add: demo_task_codec_def demo_store_codec_def)
  have "task_row_to_a2a (sn_env (demo_send_env (Inr ()))) demo_working = task_row_to_a2a demo_handler_env demo_working"
    unfolding task_row_to_a2a_def wire_status_def status_extras_def rfc demo_send_env_simps(6) by (rule refl)
  moreover have "internal_response_message demo_working = None"
    by (simp add: internal_response_message_def demo_working_def demo_submitted_def jget_def)
  ultimately show ?thesis
    by (simp add: response_body_def requested_history_def demo_no_reference trim_history_def)
qed

lemma demo_representable: "idem_representable (he_idem (sn_env (demo_send_env (Inr ())))) (1 + ca_ttl (new_cache empty_store))"
  by (simp add: demo_send_env_def demo_idem_env_def new_cache_def DEFAULT_TTL_SECONDS_def ts_valid_def)

lemma demo_first:
  "\<exists>resp st1. send_message (demo_send_env (Inr ())) demo_clock demo_ids demo_instance True V1_0 [IDEMPOTENCY_URI] ''i1'' (Some (Inr demo_send_body)) demo_send_app
     = Some (resp, st1) \<and> rs_status resp = 202 \<and> rs_body resp = Some demo_reply"
proof -
  let ?env = "sn_env (demo_send_env (Inr ()))"
  obtain c where c: "registry_pre_request (he_idem ?env) 1 (new_cache empty_store)
     \<lparr>pre_activated = [IDEMPOTENCY_URI], pre_task_id = None, pre_message_id = Some ''m1'', pre_request_body = demo_send_body,
      pre_protocol_version = as_header_value V1_0\<rparr> (build_default_registry Vm ''base'' ''h'') = (Continue, c)"
      "ca_store c = empty_store" "ca_ttl c = ca_ttl (new_cache empty_store)"
    using demo_fresh by blast
  obtain s where s: "upsert_task demo_cd empty_store demo_submitted = Inr s"
      "get_task_for_instance demo_cd s ''i1'' ''t1'' = Inr (Some demo_submitted)"
    using demo_stored by blast
  define st1 where "st1 = set_store (demo_send_app\<lparr>as_idem := c\<rparr>) s"
  define st2 where "st2 = try_upsert ?env st1 demo_working"
  have st1: "as_store st1 = s" by (simp add: st1_def set_store_def)
  have keep: "as_extensions st2 = build_default_registry Vm ''base'' ''h''" "ca_ttl (as_idem st2) = ca_ttl (new_cache empty_store)"
    using try_upsert_idem [of st1 ?env demo_working] c(3)
    by (simp_all add: same_idem_def st2_def st1_def set_store_def demo_send_app_def)
  have body: "response_body ?env demo_send_body demo_working = task_row_to_a2a demo_handler_env demo_working"
    by (rule demo_response_body)
  then have reply: "registry_post_response \<lparr>post_activated = [IDEMPOTENCY_URI], post_task_id = ''t1'', post_status = 202,
      post_response_body = response_body ?env demo_send_body demo_working, post_instance = Some demo_instance\<rparr> (as_extensions st2) = demo_reply"
    by (simp add: demo_reply_def keep)
  obtain t where t: "json_to_string (sc_json demo_cd) demo_reply = Some t" using demo_send_env_simps(7) by blast
  have "\<exists>st3. record_send ?env 1 [IDEMPOTENCY_URI] V1_0 st2 demo_send_body 202 demo_reply = Some st3"
    using demo_send_hash keep(2) t
    by (auto simp: record_send_def demo_request record_response_def idempotency_put_def json_text_def demo_representable)
  then obtain resp st3 where "finish_send (demo_send_env (Inr ())) 1 demo_instance [IDEMPOTENCY_URI] V1_0 ''i1'' demo_send_body demo_working None st2
      = Some (resp, st3)" "rs_status resp = 202" "rs_body resp = Some demo_reply"
    using reply by (auto simp: finish_send_def Let_def build_fresh_response_def demo_working_def demo_submitted_def)
  moreover have "send_message (demo_send_env (Inr ())) demo_clock demo_ids demo_instance True V1_0 [IDEMPOTENCY_URI] ''i1'' (Some (Inr demo_send_body)) demo_send_app
      = finish_send (demo_send_env (Inr ())) 1 demo_instance [IDEMPOTENCY_URI] V1_0 ''i1'' demo_send_body demo_working None st2"
    using c(1,2) s demo_submitted_row [of "Inr ()"] demo_accepted [OF st1 s(2)]
    by (simp add: send_message_def send_fresh_def dispatch_send_def demo_request demo_send_app_def referenced_task_def demo_no_reference
        continuation_refused_def message_graph_def message_lineage_def Let_def st1_def st2_def demo_submitted_def)
  ultimately show ?thesis by auto
qed


end
