(* ===== verification/Secret_Resolver.thy ===== *)
theory Secret_Resolver
  imports Rust_Prelude
begin

section \<open>Secret resolution (\<open>orchestrator/secrets.rs\<close>)\<close>

text \<open>
  Secrets named by a task manifest are read from the environment, a file or a Vault server and
  cached under \<open>source:key\<close>. The process environment, the file system and the HTTP client are
  parameters: what a variable, a file or a request yields at the moment of the call.
\<close>

subsection \<open>Vault client\<close>

record VaultConfig =
  vault_addr :: string
  vault_mount :: string

record VaultClient =
  vault_config :: VaultConfig
  vault_token :: string

datatype VaultError =
  RequestFailed string | ApiError u16 string | ParseError string | FieldNotFound string string

fun vault_error_text :: "VaultError \<Rightarrow> string" where
  "vault_error_text (RequestFailed e) = ''Vault request failed: '' @ e"
| "vault_error_text (ApiError st e) = ''Vault API error ('' @ digits (unat st) @ ''): '' @ e"
| "vault_error_text (ParseError e) = ''Failed to parse Vault response: '' @ e"
| "vault_error_text (FieldNotFound path field) =
     ''Field '' @ [CHR 0x27] @ field @ [CHR 0x27] @ '' not found in secret '' @ [CHR 0x27] @ path @ [CHR 0x27]"

text \<open>The body of a KV v2 reply: the optional \<open>data\<close> object with its optional inner \<open>data\<close>.\<close>

type_synonym VaultResponse = "(string \<rightharpoonup> string) option option"

record vault_reply =
  vr_status :: u16
  vr_text :: "string option"
  vr_json :: "string + VaultResponse"

record secret_env =
  se_var :: "string \<Rightarrow> string option"
  se_read_file :: "string \<Rightarrow> string + string"
  se_vault_get :: "string \<Rightarrow> string \<Rightarrow> string + vault_reply"

definition vault_config_from_env :: "secret_env \<Rightarrow> VaultConfig option" where
  "vault_config_from_env env =
     (case se_var env ''VAULT_ADDR'' of
        None \<Rightarrow> None
      | Some addr \<Rightarrow> Some \<lparr>vault_addr = addr,
          vault_mount = (case se_var env ''VAULT_MOUNT'' of Some m \<Rightarrow> m | None \<Rightarrow> ''secret'')\<rparr>)"

definition vault_client_from_env :: "secret_env \<Rightarrow> VaultClient option" where
  "vault_client_from_env env =
     (case vault_config_from_env env of
        None \<Rightarrow> None
      | Some config \<Rightarrow>
          (case se_var env ''VAULT_TOKEN'' of
             None \<Rightarrow> None
           | Some token \<Rightarrow> Some \<lparr>vault_config = config, vault_token = token\<rparr>))"

definition vault_url :: "VaultConfig \<Rightarrow> string \<Rightarrow> string" where
  "vault_url config path =
     trim_end_char CHR ''/'' (vault_addr config) @ ''/v1/'' @ vault_mount config @ ''/data/''
       @ trim_start_char CHR ''/'' path"

definition read_field :: "secret_env \<Rightarrow> VaultClient \<Rightarrow> string \<Rightarrow> string \<Rightarrow> VaultError + string" where
  "read_field env client path field =
     (case se_vault_get env (vault_url (vault_config client) path) (vault_token client) of
        Inl e \<Rightarrow> Inl (RequestFailed e)
      | Inr response \<Rightarrow>
          if \<not> (200 \<le> vr_status response \<and> vr_status response < 300)
          then Inl (ApiError (vr_status response)
                      (case vr_text response of Some t \<Rightarrow> t | None \<Rightarrow> ''Unknown error''))
          else (case vr_json response of
                  Inl e \<Rightarrow> Inl (ParseError e)
                | Inr vault_response \<Rightarrow>
                    ok_or (FieldNotFound path field)
                      (Option.bind vault_response (\<lambda>d. Option.bind d (\<lambda>fields. fields field)))))"

definition read_secret :: "secret_env \<Rightarrow> VaultClient \<Rightarrow> string \<Rightarrow> VaultError + string" where
  "read_secret env client path = read_field env client path ''value''"

subsection \<open>The resolver\<close>

datatype SecretError =
  UnknownSource string | NotFound string | VaultNotConfigured | VaultError string

record SecretResolver =
  rs_vault_client :: "VaultClient option"
  rs_cache :: "string \<rightharpoonup> string"

definition new_resolver :: "secret_env \<Rightarrow> SecretResolver" where
  "new_resolver env = \<lparr>rs_vault_client = vault_client_from_env env, rs_cache = Map.empty\<rparr>"

definition resolve_from_env :: "secret_env \<Rightarrow> string \<Rightarrow> SecretError + string" where
  "resolve_from_env env key = ok_or (NotFound (''env:'' @ key)) (se_var env key)"

definition resolve_from_file :: "secret_env \<Rightarrow> string \<Rightarrow> SecretError + string" where
  "resolve_from_file env path =
     (case se_read_file env path of
        Inr s \<Rightarrow> Inr (trim s)
      | Inl e \<Rightarrow> Inl (NotFound (''file:'' @ path @ '' ('' @ e @ '')'')))"

definition resolve_from_vault :: "secret_env \<Rightarrow> VaultClient option \<Rightarrow> string \<Rightarrow> SecretError + string" where
  "resolve_from_vault env vault_client key =
     (case vault_client of
        None \<Rightarrow> Inl VaultNotConfigured
      | Some client \<Rightarrow>
          (case (case split_once CHR '':'' key of Some (p, f) \<Rightarrow> (p, f) | None \<Rightarrow> (key, ''value'')) of
             (path, field) \<Rightarrow>
               (case read_field env client path field of
                  Inr v \<Rightarrow> Inr v
                | Inl e \<Rightarrow> Inl (VaultError (vault_error_text e)))))"

definition secret_cache_key :: "string \<Rightarrow> string \<Rightarrow> string" where
  "secret_cache_key source key = source @ '':'' @ key"

definition resolve_uncached :: "secret_env \<Rightarrow> VaultClient option \<Rightarrow> string \<Rightarrow> string \<Rightarrow> SecretError + string" where
  "resolve_uncached env vault_client source key =
     (if source = ''env'' then resolve_from_env env key
      else if source = ''file'' then resolve_from_file env key
      else if source = ''vault'' then resolve_from_vault env vault_client key
      else Inl (UnknownSource source))"

definition resolve ::
  "secret_env \<Rightarrow> SecretResolver \<Rightarrow> string \<Rightarrow> string \<Rightarrow> (SecretError + string) \<times> SecretResolver" where
  "resolve env r source key =
     (let cache_key = secret_cache_key source key
      in case rs_cache r cache_key of
           Some v \<Rightarrow> (Inr v, r)
         | None \<Rightarrow>
             (case resolve_uncached env (rs_vault_client r) source key of
                Inl e \<Rightarrow> (Inl e, r)
              | Inr v \<Rightarrow> (Inr v, r\<lparr>rs_cache := (rs_cache r)(cache_key \<mapsto> v)\<rparr>)))"

definition clear_cache :: "SecretResolver \<Rightarrow> SecretResolver" where
  "clear_cache r = r\<lparr>rs_cache := Map.empty\<rparr>"

definition invalidate :: "SecretResolver \<Rightarrow> string \<Rightarrow> string \<Rightarrow> SecretResolver" where
  "invalidate r source key = r\<lparr>rs_cache := (rs_cache r)(secret_cache_key source key := None)\<rparr>"

fun resolve_all ::
  "secret_env \<Rightarrow> SecretResolver \<Rightarrow> (string \<times> string \<times> string) list
     \<Rightarrow> (string \<rightharpoonup> string) \<Rightarrow> (SecretError + (string \<rightharpoonup> string)) \<times> SecretResolver" where
  "resolve_all env r [] result = (Inr result, r)"
| "resolve_all env r ((name, source, key) # secrets) result =
     (case resolve env r source key of
        (Inl e, r') \<Rightarrow> (Inl e, r')
      | (Inr v, r') \<Rightarrow> resolve_all env r' secrets (result(name \<mapsto> v)))"

subsection \<open>What the cache promises\<close>

text \<open>
  The operations as an alphabet: each call of \<open>resolve\<close> sees the environment of its moment.
\<close>

datatype secret_op =
  OpResolve secret_env string string | OpInvalidate string string | OpClear

fun secret_step :: "SecretResolver \<Rightarrow> secret_op \<Rightarrow> SecretResolver" where
  "secret_step r (OpResolve env source key) = snd (resolve env r source key)"
| "secret_step r (OpInvalidate source key) = invalidate r source key"
| "secret_step r OpClear = clear_cache r"

definition known_source :: "string \<Rightarrow> bool" where
  "known_source s \<longleftrightarrow> s \<in> {''env'', ''file'', ''vault''}"

lemma secret_cache_key_inject:
  assumes "CHR '':'' \<notin> set s" and "CHR '':'' \<notin> set s'"
    and "secret_cache_key s k = secret_cache_key s' k'"
  shows "s = s' \<and> k = k'"
proof -
  have "takeWhile ((\<noteq>) CHR '':'') (secret_cache_key s k) = s"
    and "takeWhile ((\<noteq>) CHR '':'') (secret_cache_key s' k') = s'"
    using assms(1,2) by (auto simp: secret_cache_key_def takeWhile_append)
  with assms(3) have "s = s'" by simp
  with assms(3) show ?thesis by (simp add: secret_cache_key_def)
qed

lemma known_source_no_colon: "known_source s \<Longrightarrow> CHR '':'' \<notin> set s"
  by (auto simp: known_source_def)


lemma secret_step_client [simp]: "rs_vault_client (secret_step r op) = rs_vault_client r"
  by (cases op) (auto simp: resolve_def invalidate_def clear_cache_def Let_def split: option.splits sum.splits)

lemma resolve_uncached_known: "resolve_uncached env vc s k = Inr v \<Longrightarrow> known_source s"
  by (auto simp: resolve_uncached_def known_source_def split: if_splits)

text \<open>A step adds at most the entry it resolves, with the value its source yields.\<close>

lemma secret_step_cache:
  assumes "rs_cache (secret_step r op) ck = Some v"
  shows "rs_cache r ck = Some v \<or>
    (\<exists>env s k. op = OpResolve env s k \<and> ck = secret_cache_key s k \<and>
       resolve_uncached env (rs_vault_client r) s k = Inr v)"
  using assms
  by (cases op)
    (auto simp: resolve_def invalidate_def clear_cache_def Let_def split: option.splits sum.splits if_splits)

definition cache_from :: "VaultClient option \<Rightarrow> secret_op set \<Rightarrow> SecretResolver \<Rightarrow> bool" where
  "cache_from vc ops r \<longleftrightarrow> rs_vault_client r = vc \<and>
     (\<forall>ck v. rs_cache r ck = Some v \<longrightarrow>
        (\<exists>env s k. OpResolve env s k \<in> ops \<and> ck = secret_cache_key s k \<and> resolve_uncached env vc s k = Inr v))"

lemma cache_from_run: "cache_from vc A r \<Longrightarrow> cache_from vc (A \<union> set ops) (run secret_step r ops)"
proof (induction ops arbitrary: r A)
  case (Cons op ops)
  have "cache_from vc (insert op A) (secret_step r op)"
    using Cons.prems unfolding cache_from_def by (fastforce dest: secret_step_cache)
  from Cons.IH [OF this] show ?case by simp
qed simp


definition demo_secret_env :: secret_env where
  "demo_secret_env =
     \<lparr>se_var = (\<lambda>v. if v = ''TOKEN'' then Some ''t0'' else None), se_read_file = (\<lambda>p. Inl ''absent''),
      se_vault_get = (\<lambda>url tok. Inl ''refused'')\<rparr>"


end
