(* ===== verification/Orchestrator_Task.thy ===== *)
theory Orchestrator_Task
  imports Secret_Resolver
begin

section \<open>Orchestrated tasks (\<open>orchestrator/task.rs\<close>, \<open>orchestrator/manifest.rs\<close>)\<close>

text \<open>
  The task state machine, the task record and the manifest it is created from, with the errors of
  the orchestrator. YAML and JSON parsing belong to serde and a parsed manifest is a record; a
  string map is a partial function, an I/O error is its text.
\<close>

subsection \<open>The state machine\<close>

datatype TaskState =
  Pending | Staging | Provisioning | Ready | Running | Completing
| Completed | Failed | FailedPreserved | Cancelled

fun can_transition_to :: "TaskState \<Rightarrow> TaskState \<Rightarrow> bool" where
  "can_transition_to Pending Staging = True"
| "can_transition_to Staging Provisioning = True"
| "can_transition_to Provisioning Ready = True"
| "can_transition_to Ready Running = True"
| "can_transition_to Running Completing = True"
| "can_transition_to Completing Completed = True"
| "can_transition_to Staging Failed = True"
| "can_transition_to Provisioning Failed = True"
| "can_transition_to Ready Failed = True"
| "can_transition_to Running Failed = True"
| "can_transition_to Running FailedPreserved = True"
| "can_transition_to Completing Failed = True"
| "can_transition_to Pending Cancelled = True"
| "can_transition_to Staging Cancelled = True"
| "can_transition_to Provisioning Cancelled = True"
| "can_transition_to Ready Cancelled = True"
| "can_transition_to Running Cancelled = True"
| "can_transition_to Completing Cancelled = True"
| "can_transition_to _ _ = False"

definition is_terminal :: "TaskState \<Rightarrow> bool" where
  "is_terminal s \<longleftrightarrow> s \<in> {Completed, Failed, FailedPreserved, Cancelled}"

fun to_proto :: "TaskState \<Rightarrow> int" where
  "to_proto Pending = 1"
| "to_proto Staging = 2"
| "to_proto Provisioning = 3"
| "to_proto Ready = 4"
| "to_proto Running = 5"
| "to_proto Completing = 6"
| "to_proto Completed = 7"
| "to_proto Failed = 8"
| "to_proto FailedPreserved = 9"
| "to_proto Cancelled = 10"

fun state_text :: "TaskState \<Rightarrow> string" where
  "state_text Pending = ''pending''"
| "state_text Staging = ''staging''"
| "state_text Provisioning = ''provisioning''"
| "state_text Ready = ''ready''"
| "state_text Running = ''running''"
| "state_text Completing = ''completing''"
| "state_text Completed = ''completed''"
| "state_text Failed = ''failed''"
| "state_text FailedPreserved = ''failed_preserved''"
| "state_text Cancelled = ''cancelled''"

subsection \<open>Configuration\<close>

record RepositoryConfig =
  repo_url :: string
  repo_branch :: string
  repo_commit :: "string option"
  repo_subpath :: "string option"

record TaskConfig =
  tc_provider :: string
  tc_prompt :: string
  tc_headless :: bool
  tc_skip_permissions :: bool
  tc_output_format :: string
  tc_model :: string
  tc_allowed_tools :: "string list"
  tc_mcp_config :: "json option"
  tc_max_turns :: "u32 option"

datatype NetworkMode = Isolated | Outbound | Full

record VmConfig =
  vc_profile :: string
  vc_cpus :: u32
  vc_memory :: string
  vc_disk :: string
  vc_network_mode :: NetworkMode
  vc_allowed_hosts :: "string list"

definition default_vm_config :: VmConfig where
  "default_vm_config =
     \<lparr>vc_profile = ''agentic-dev'', vc_cpus = 4, vc_memory = ''8G'', vc_disk = ''40G'',
      vc_network_mode = Isolated, vc_allowed_hosts = []\<rparr>"

record SecretRef =
  sr_name :: string
  sr_source :: string
  sr_key :: string

record LifecycleConfig =
  lc_timeout :: string
  lc_failure_action :: string
  lc_artifact_patterns :: "string list"

definition default_lifecycle_config :: LifecycleConfig where
  "default_lifecycle_config =
     \<lparr>lc_timeout = ''24h'', lc_failure_action = ''destroy'', lc_artifact_patterns = []\<rparr>"

record ChildrenConfig =
  cc_max_concurrent :: "usize option"
  cc_wait_for_children :: bool
  cc_aggregate_artifacts :: bool

record TaskProgress =
  tp_output_bytes :: u64
  tp_tool_calls :: u32
  tp_current_tool :: "string option"
  tp_last_activity_at :: "timestamp option"

record Task =
  tk_id :: string
  tk_name :: string
  tk_labels :: "string \<rightharpoonup> string"
  tk_repository :: RepositoryConfig
  tk_task :: TaskConfig
  tk_vm :: VmConfig
  tk_secrets :: "SecretRef list"
  tk_lifecycle :: LifecycleConfig
  tk_parent_id :: "string option"
  tk_children :: ChildrenConfig
  tk_state :: TaskState
  tk_created_at :: timestamp
  tk_started_at :: "timestamp option"
  tk_state_changed_at :: timestamp
  tk_state_message :: "string option"
  tk_vm_name :: "string option"
  tk_vm_ip :: "string option"
  tk_exit_code :: "int option"
  tk_error :: "string option"
  tk_progress :: TaskProgress

subsection \<open>Manifests\<close>

record ManifestMetadata =
  mm_id :: string
  mm_name :: string
  mm_labels :: "string \<rightharpoonup> string"

record TaskManifest =
  tm_version :: string
  tm_kind :: string
  tm_metadata :: ManifestMetadata
  tm_repository :: RepositoryConfig
  tm_task :: TaskConfig
  tm_vm :: VmConfig
  tm_secrets :: "SecretRef list"
  tm_lifecycle :: LifecycleConfig
  tm_parent_id :: "string option"
  tm_children :: ChildrenConfig

datatype ManifestError =
  ParseError string | JsonParseError string | UnsupportedVersion string | InvalidKind string
| MissingField string | InvalidField string string

definition validate_secret :: "SecretRef \<Rightarrow> ManifestError + unit" where
  \<open>validate_secret secret =
     (if sr_name secret = [] then Inl (MissingField ''secrets[].name'')
      else if sr_source secret = [] then Inl (MissingField ''secrets[].source'')
      else if sr_source secret \<notin> {''env'', ''vault'', ''file''}
      then Inl (InvalidField (''secrets['' @ sr_name secret @ ''].source'')
                  ''Must be one of: ["env", "vault", "file"]'')
      else Inr ())\<close>

fun validate_secrets :: "SecretRef list \<Rightarrow> ManifestError + unit" where
  "validate_secrets [] = Inr ()"
| "validate_secrets (secret # rest) = and_then (validate_secret secret) (\<lambda>_. validate_secrets rest)"

definition validate :: "TaskManifest \<Rightarrow> ManifestError + unit" where
  \<open>validate m =
     (let repo = tm_repository m; vm = tm_vm m; timeout = lc_timeout (tm_lifecycle m)
      in if tm_version m \<noteq> ''1'' then Inl (UnsupportedVersion (tm_version m))
         else if tm_kind m \<noteq> ''Task'' then Inl (InvalidKind (tm_kind m))
         else if mm_id (tm_metadata m) = [] then Inl (MissingField ''metadata.id'')
         else if mm_name (tm_metadata m) = [] then Inl (MissingField ''metadata.name'')
         else if repo_url repo = [] then Inl (MissingField ''repository.url'')
         else if repo_branch repo = [] then Inl (MissingField ''repository.branch'')
         else if tc_prompt (tm_task m) = [] then Inl (MissingField ''task.prompt'')
         else if \<not> starts_with ''git@'' (repo_url repo) \<and> \<not> starts_with ''https://'' (repo_url repo)
                 \<and> \<not> starts_with ''http://'' (repo_url repo)
         then Inl (InvalidField ''repository.url'' ''Must be a valid git URL (https:// or git@)'')
         else if vc_cpus vm = 0 then Inl (InvalidField ''vm.cpus'' ''Must be at least 1'')
         else if \<not> ends_with ''G'' (vc_memory vm) \<and> \<not> ends_with ''M'' (vc_memory vm)
         then Inl (InvalidField ''vm.memory'' ''Must end with G or M (e.g., 8G, 4096M)'')
         else if timeout \<noteq> [] \<and> \<not> ends_with ''h'' timeout \<and> \<not> ends_with ''m'' timeout
                 \<and> \<not> ends_with ''s'' timeout
         then Inl (InvalidField ''lifecycle.timeout'' ''Must end with h, m, or s (e.g., 24h, 30m)'')
         else if lc_failure_action (tm_lifecycle m) \<notin> {''destroy'', ''preserve''}
         then Inl (InvalidField ''lifecycle.failure_action''
                     ''Must be one of: ["destroy", "preserve"]'')
         else validate_secrets (tm_secrets m))\<close>

definition with_generated_id :: "string \<Rightarrow> TaskManifest \<Rightarrow> TaskManifest" where
  "with_generated_id uuid m =
     (if mm_id (tm_metadata m) = [] then m\<lparr>tm_metadata := (tm_metadata m)\<lparr>mm_id := uuid\<rparr>\<rparr> else m)"

subsection \<open>Errors of the orchestrator\<close>

datatype StorageError = Io string | Json string | TaskNotFound string
datatype CheckpointError = Io string | Serialization string | Deserialization string string | NotFound string
datatype ExecutorError =
  UnknownProvider string | CommandFailed string | ProvisionFailed string | VmNotReady
| StorageError string | SecretError string
datatype CollectorError = Io string | GlobPattern string | AggregationError string
datatype OrchestratorError =
  TaskNotFound string | InvalidTransition string string | Manifest ManifestError
| Storage StorageError | Checkpoint CheckpointError | Executor ExecutorError
| Collector CollectorError | Secret SecretError | Io string

fun storage_error_text :: "StorageError \<Rightarrow> string" where
  "storage_error_text (StorageError.Io e) = ''IO error: '' @ e"
| "storage_error_text (StorageError.Json e) = ''JSON error: '' @ e"
| "storage_error_text (StorageError.TaskNotFound e) = ''Task directory not found: '' @ e"

fun executor_error_text :: "ExecutorError \<Rightarrow> string" where
  "executor_error_text (UnknownProvider p) = ''Unknown task provider: '' @ p"
| "executor_error_text (CommandFailed e) = ''Command failed: '' @ e"
| "executor_error_text (ProvisionFailed e) = ''VM provisioning failed: '' @ e"
| "executor_error_text VmNotReady = ''VM not ready - no IP assigned''"
| "executor_error_text (StorageError e) = ''Storage error: '' @ e"
| "executor_error_text (SecretError e) = ''Secret resolution failed: '' @ e"

fun checkpoint_error_text :: "CheckpointError \<Rightarrow> string" where
  "checkpoint_error_text (CheckpointError.Io e) = ''IO error: '' @ e"
| "checkpoint_error_text (Serialization e) = ''Serialization error: '' @ e"
| "checkpoint_error_text (Deserialization i e) = ''Deserialization error for task '' @ i @ '': '' @ e"
| "checkpoint_error_text (CheckpointError.NotFound i) = ''Checkpoint not found: '' @ i"

fun manifest_error_text :: "ManifestError \<Rightarrow> string" where
  "manifest_error_text (ManifestError.ParseError e) = ''Failed to parse YAML: '' @ e"
| "manifest_error_text (JsonParseError e) = ''Failed to parse JSON: '' @ e"
| "manifest_error_text (UnsupportedVersion v) = ''Unsupported manifest version: '' @ v"
| "manifest_error_text (InvalidKind k) = ''Invalid manifest kind: '' @ k"
| "manifest_error_text (MissingField f) = ''Missing required field: '' @ f"
| "manifest_error_text (InvalidField f e) = ''Invalid field '' @ f @ '': '' @ e"

fun collector_error_text :: "CollectorError \<Rightarrow> string" where
  "collector_error_text (CollectorError.Io e) = ''IO error: '' @ e"
| "collector_error_text (GlobPattern e) = ''Glob pattern error: '' @ e"
| "collector_error_text (AggregationError e) = ''Artifact aggregation error: '' @ e"

fun secret_error_text :: "SecretError \<Rightarrow> string" where
  "secret_error_text (UnknownSource s) = ''Unknown secret source: '' @ s"
| "secret_error_text (SecretError.NotFound k) = ''Secret not found: '' @ k"
| "secret_error_text VaultNotConfigured = ''Vault not configured (VAULT_ADDR and VAULT_TOKEN required)''"
| "secret_error_text (VaultError e) = ''Vault error: '' @ e"

fun orchestrator_error_text :: "OrchestratorError \<Rightarrow> string" where
  "orchestrator_error_text (OrchestratorError.TaskNotFound i) = ''Task not found: '' @ i"
| "orchestrator_error_text (InvalidTransition a b) = ''Invalid state transition: '' @ a @ '' -> '' @ b"
| "orchestrator_error_text (Manifest e) = ''Manifest error: '' @ manifest_error_text e"
| "orchestrator_error_text (Storage e) = ''Storage error: '' @ storage_error_text e"
| "orchestrator_error_text (Checkpoint e) = ''Checkpoint error: '' @ checkpoint_error_text e"
| "orchestrator_error_text (Executor e) = ''Executor error: '' @ executor_error_text e"
| "orchestrator_error_text (Collector e) = ''Collector error: '' @ collector_error_text e"
| "orchestrator_error_text (Secret e) = ''Secret resolution error: '' @ secret_error_text e"
| "orchestrator_error_text (OrchestratorError.Io e) = ''IO error: '' @ e"

subsection \<open>Task operations\<close>

definition default_progress :: TaskProgress where
  "default_progress =
     \<lparr>tp_output_bytes = 0, tp_tool_calls = 0, tp_current_tool = None, tp_last_activity_at = None\<rparr>"

definition from_manifest :: "timestamp \<Rightarrow> TaskManifest \<Rightarrow> OrchestratorError + Task" where
  "from_manifest now m = Inr
     \<lparr>tk_id = mm_id (tm_metadata m), tk_name = mm_name (tm_metadata m),
      tk_labels = mm_labels (tm_metadata m), tk_repository = tm_repository m, tk_task = tm_task m,
      tk_vm = tm_vm m, tk_secrets = tm_secrets m, tk_lifecycle = tm_lifecycle m,
      tk_parent_id = tm_parent_id m, tk_children = tm_children m, tk_state = Pending,
      tk_created_at = now, tk_started_at = None, tk_state_changed_at = now, tk_state_message = None,
      tk_vm_name = None, tk_vm_ip = None, tk_exit_code = None, tk_error = None,
      tk_progress = default_progress\<rparr>"

fun state_message :: "TaskState \<Rightarrow> string" where
  "state_message Pending = ''Waiting to start''"
| "state_message Staging = ''Cloning repository and preparing workspace''"
| "state_message Provisioning = ''Creating VM''"
| "state_message Ready = ''VM ready, starting execution''"
| "state_message Running = ''Task provider executing''"
| "state_message Completing = ''Collecting artifacts''"
| "state_message Completed = ''Task completed successfully''"
| "state_message Failed = ''Task failed''"
| "state_message FailedPreserved = ''Task failed, VM preserved for debugging''"
| "state_message Cancelled = ''Task cancelled''"

text \<open>The error leaves the task as it was, so the task is returned on success only.\<close>

definition transition_to :: "timestamp \<Rightarrow> TaskState \<Rightarrow> Task \<Rightarrow> OrchestratorError + Task" where
  "transition_to now next t =
     (if \<not> can_transition_to (tk_state t) next
      then Inl (InvalidTransition (state_text (tk_state t)) (state_text next))
      else Inr (t\<lparr>tk_state := next, tk_state_changed_at := now,
                  tk_started_at := (if tk_started_at t = None \<and> next \<noteq> Pending then Some now
                                    else tk_started_at t),
                  tk_state_message := Some (state_message next)\<rparr>))"

text \<open>The byte counter wraps: release builds have no overflow checks.\<close>

definition update_progress :: "timestamp \<Rightarrow> u64 \<Rightarrow> u32 option \<Rightarrow> string option \<Rightarrow> Task \<Rightarrow> Task" where
  "update_progress now bytes tool_calls current_tool t =
     (let p = tk_progress t
      in t\<lparr>tk_progress :=
            p\<lparr>tp_output_bytes := tp_output_bytes p + bytes,
              tp_tool_calls := (case tool_calls of Some n \<Rightarrow> n | None \<Rightarrow> tp_tool_calls p),
              tp_current_tool := current_tool, tp_last_activity_at := Some now\<rparr>\<rparr>)"


subsection \<open>The state machine is a lifecycle\<close>

definition state_rank :: "TaskState \<Rightarrow> nat" where
  "state_rank s = nat (to_proto s)"

lemma can_transition_cases:
  "can_transition_to s next \<longleftrightarrow>
     (s, next) \<in> {(Pending, Staging), (Staging, Provisioning), (Provisioning, Ready), (Ready, Running),
        (Running, Completing), (Completing, Completed)}
     \<or> \<not> is_terminal s \<and> (next = Cancelled \<or> next = Failed \<and> s \<noteq> Pending \<or> next = FailedPreserved \<and> s = Running)"
  by (cases s; cases "next") (simp_all add: is_terminal_def)

interpretation task_states: lifecycle can_transition_to is_terminal state_rank
proof
  show "is_terminal s \<Longrightarrow> \<not> can_transition_to s t" for s t
    by (auto simp: can_transition_cases is_terminal_def)
  show "\<not> is_terminal s \<Longrightarrow> \<exists>t. can_transition_to s t" for s
    by (auto simp: can_transition_cases)
  show "can_transition_to s t \<Longrightarrow> state_rank s < state_rank t" for s t
    by (cases s; cases t) (simp_all add: state_rank_def)
qed

lemma transition_to_Inr:
  "transition_to now next t = Inr t' \<Longrightarrow> can_transition_to (tk_state t) next \<and> tk_state t' = next \<and>
     tk_id t' = tk_id t \<and> tk_vm_name t' = tk_vm_name t \<and> tk_lifecycle t' = tk_lifecycle t \<and>
     tk_error t' = tk_error t \<and> tk_exit_code t' = tk_exit_code t"
  by (auto simp: transition_to_def split: if_splits)

lemma transition_to_Inl:
  "transition_to now next t = Inl e \<longleftrightarrow>
     \<not> can_transition_to (tk_state t) next \<and> e = InvalidTransition (state_text (tk_state t)) (state_text next)"
  by (auto simp: transition_to_def)

lemma update_progress_state [simp]:
  "tk_state (update_progress now bytes tc ct t) = tk_state t" "tk_id (update_progress now bytes tc ct t) = tk_id t"
  by (simp_all add: update_progress_def Let_def)

subsection \<open>Accepted manifests\<close>

lemma validate_secrets_ok: "validate_secrets ss = Inr () \<longleftrightarrow> (\<forall>s \<in> set ss. sr_name s \<noteq> [] \<and> known_source (sr_source s))"
  by (induction ss) (auto simp: and_then_Inr validate_secret_def known_source_def)

lemma validate_ok:
  "validate m = Inr () \<longleftrightarrow>
     tm_version m = ''1'' \<and> tm_kind m = ''Task'' \<and> mm_id (tm_metadata m) \<noteq> [] \<and> mm_name (tm_metadata m) \<noteq> [] \<and>
     repo_branch (tm_repository m) \<noteq> [] \<and> tc_prompt (tm_task m) \<noteq> [] \<and>
     (\<exists>p \<in> {''git@'', ''https://'', ''http://''}. starts_with p (repo_url (tm_repository m))) \<and>
     vc_cpus (tm_vm m) \<noteq> 0 \<and> (\<exists>u \<in> {''G'', ''M''}. ends_with u (vc_memory (tm_vm m))) \<and>
     (lc_timeout (tm_lifecycle m) = [] \<or> (\<exists>u \<in> {''h'', ''m'', ''s''}. ends_with u (lc_timeout (tm_lifecycle m)))) \<and>
     lc_failure_action (tm_lifecycle m) \<in> {''destroy'', ''preserve''} \<and>
     (\<forall>s \<in> set (tm_secrets m). sr_name s \<noteq> [] \<and> known_source (sr_source s))"
  by (auto simp: validate_def Let_def validate_secrets_ok starts_with_def)

end
