(* ===== verification/Task_Files.thy ===== *)
theory Task_Files
  imports Orchestrator_Task "HOL-Library.AList"
begin

section \<open>Task files (\<open>orchestrator/storage.rs\<close>, \<open>orchestrator/checkpoint.rs\<close>)\<close>

text \<open>
  The task directories and the checkpoint store, over a file system of named files and
  directories. Whether a system call fails, and how much of a failing write reached the file, is
  decided by the parameter \<open>io_env\<close>, so every error branch is a value of the model; the faults
  include those of a missing parent directory. A crash between two system calls of an operation
  leaves the files of the run in which the second of them fails.
\<close>

subsection \<open>File system\<close>

record fs =
  fs_files :: "(string \<times> string) list"
  fs_dirs :: "string list"

record io_env =
  io_fail :: "string \<Rightarrow> string \<Rightarrow> string option"
  io_written :: nat

definition path_exists :: "fs \<Rightarrow> string \<Rightarrow> bool" where
  "path_exists s p \<longleftrightarrow> map_of (fs_files s) p \<noteq> None \<or> p \<in> set (fs_dirs s)"

definition put_file :: "string \<Rightarrow> string \<Rightarrow> fs \<Rightarrow> fs" where
  "put_file p c s = s\<lparr>fs_files := AList.update p c (fs_files s)\<rparr>"

definition drop_file :: "string \<Rightarrow> fs \<Rightarrow> fs" where
  "drop_file p s = s\<lparr>fs_files := AList.delete p (fs_files s)\<rparr>"

definition sys_create :: "io_env \<Rightarrow> string \<Rightarrow> fs \<Rightarrow> (string + unit) \<times> fs" where
  "sys_create io p s =
     (case io_fail io ''create'' p of Some e \<Rightarrow> (Inl e, s) | None \<Rightarrow> (Inr (), put_file p [] s))"

text \<open>Writing at the end of the open file: \<open>write_all\<close> after \<open>create\<close> and in append mode.\<close>

definition sys_append :: "io_env \<Rightarrow> string \<Rightarrow> string \<Rightarrow> fs \<Rightarrow> (string + unit) \<times> fs" where
  "sys_append io p data s =
     (let old = (case map_of (fs_files s) p of Some c \<Rightarrow> c | None \<Rightarrow> [])
      in case io_fail io ''write'' p of
           Some e \<Rightarrow> (Inl e, put_file p (old @ take (io_written io) data) s)
         | None \<Rightarrow> (Inr (), put_file p (old @ data) s))"

definition sys_sync :: "io_env \<Rightarrow> string \<Rightarrow> fs \<Rightarrow> (string + unit) \<times> fs" where
  "sys_sync io p s = (case io_fail io ''sync'' p of Some e \<Rightarrow> (Inl e, s) | None \<Rightarrow> (Inr (), s))"

definition sys_rename :: "io_env \<Rightarrow> string \<Rightarrow> string \<Rightarrow> fs \<Rightarrow> (string + unit) \<times> fs" where
  "sys_rename io p q s =
     (case io_fail io ''rename'' p of
        Some e \<Rightarrow> (Inl e, s)
      | None \<Rightarrow>
          (case map_of (fs_files s) p of
             None \<Rightarrow> (Inl ''No such file or directory (os error 2)'', s)
           | Some c \<Rightarrow> (Inr (), put_file q c (drop_file p s))))"

definition sys_remove :: "io_env \<Rightarrow> string \<Rightarrow> fs \<Rightarrow> (string + unit) \<times> fs" where
  "sys_remove io p s =
     (case io_fail io ''unlink'' p of Some e \<Rightarrow> (Inl e, s) | None \<Rightarrow> (Inr (), drop_file p s))"

definition sys_read :: "io_env \<Rightarrow> string \<Rightarrow> fs \<Rightarrow> string + string" where
  "sys_read io p s =
     (case io_fail io ''read'' p of
        Some e \<Rightarrow> Inl e
      | None \<Rightarrow> ok_or ''No such file or directory (os error 2)'' (map_of (fs_files s) p))"

text \<open>\<open>create_dir_all\<close>: the directory and its ancestors.\<close>

fun ancestors :: "string \<Rightarrow> string \<Rightarrow> string list" where
  "ancestors acc [] = (if acc = [] then [] else [acc])"
| "ancestors acc (c # s) = (if c = CHR ''/'' \<and> acc \<noteq> [] then [acc] else []) @ ancestors (acc @ [c]) s"

definition sys_mkdir_all :: "io_env \<Rightarrow> string \<Rightarrow> fs \<Rightarrow> (string + unit) \<times> fs" where
  "sys_mkdir_all io p s =
     (case io_fail io ''mkdir'' p of
        Some e \<Rightarrow> (Inl e, s)
      | None \<Rightarrow> (Inr (), s\<lparr>fs_dirs := remdups (fs_dirs s @ ancestors [] p)\<rparr>))"

text \<open>\<open>remove_dir_all\<close>: the directory with everything below it.\<close>

definition below :: "string \<Rightarrow> string \<Rightarrow> bool" where
  "below d p \<longleftrightarrow> p = d \<or> starts_with (path_join d []) p"

definition sys_rmdir_all :: "io_env \<Rightarrow> string \<Rightarrow> fs \<Rightarrow> (string + unit) \<times> fs" where
  "sys_rmdir_all io p s =
     (case io_fail io ''rmdir'' p of
        Some e \<Rightarrow> (Inl e, s)
      | None \<Rightarrow> (Inr (), s\<lparr>fs_files := filter (\<lambda>(q, c). \<not> below p q) (fs_files s),
                          fs_dirs := filter (\<lambda>q. \<not> below p q) (fs_dirs s)\<rparr>))"

text \<open>The \<open>?\<close> operator over effectful calls: the error ends the operation, the effects stay.\<close>

definition try_io :: "('e + 'a) \<times> 's \<Rightarrow> ('e \<Rightarrow> 'f) \<Rightarrow> ('a \<Rightarrow> 's \<Rightarrow> ('f + 'b) \<times> 's) \<Rightarrow> ('f + 'b) \<times> 's" where
  "try_io r conv k = (case r of (Inl e, s) \<Rightarrow> (Inl (conv e), s) | (Inr x, s) \<Rightarrow> k x s)"

lemma try_io_simps [simp]:
  "try_io (Inl e, s) conv k = (Inl (conv e), s)" "try_io (Inr x, s) conv k = k x s"
  by (simp_all add: try_io_def)

text \<open>The names of the entries of a directory.\<close>

definition entry_name :: "string \<Rightarrow> string \<Rightarrow> string option" where
  "entry_name d p =
     (let pre = path_join d []; name = drop (length pre) p
      in if starts_with pre p \<and> name \<noteq> [] \<and> CHR ''/'' \<notin> set name then Some name else None)"

definition dir_entries :: "string \<Rightarrow> fs \<Rightarrow> string list" where
  "dir_entries d s = List.map_filter (entry_name d) (map fst (fs_files s) @ fs_dirs s)"

subsection \<open>Task storage\<close>

record TaskStorage =
  st_tasks_root :: string
  st_agentshare_root :: string

definition task_dir :: "TaskStorage \<Rightarrow> string \<Rightarrow> string" where
  "task_dir st task_id = path_join (st_tasks_root st) task_id"

definition inbox_path :: "TaskStorage \<Rightarrow> string \<Rightarrow> string" where
  "inbox_path st task_id = path_join (task_dir st task_id) ''inbox''"

definition outbox_path :: "TaskStorage \<Rightarrow> string \<Rightarrow> string" where
  "outbox_path st task_id = path_join (task_dir st task_id) ''outbox''"

definition progress_path :: "TaskStorage \<Rightarrow> string \<Rightarrow> string" where
  "progress_path st task_id = path_join (outbox_path st task_id) ''progress''"

definition artifacts_path :: "TaskStorage \<Rightarrow> string \<Rightarrow> string" where
  "artifacts_path st task_id = path_join (outbox_path st task_id) ''artifacts''"

definition global_path :: "TaskStorage \<Rightarrow> string" where
  "global_path st = path_join (st_agentshare_root st) ''global-ro''"

abbreviation storage_try where
  "storage_try r k \<equiv> try_io r StorageError.Io (\<lambda>_. k)"

definition create_task_directory :: "io_env \<Rightarrow> TaskStorage \<Rightarrow> string \<Rightarrow> fs \<Rightarrow> (StorageError + unit) \<times> fs" where
  "create_task_directory io st task_id s =
     (let progress = progress_path st task_id
      in storage_try (sys_mkdir_all io (task_dir st task_id) s) (\<lambda>s.
         storage_try (sys_mkdir_all io (inbox_path st task_id) s) (\<lambda>s.
         storage_try (sys_mkdir_all io (outbox_path st task_id) s) (\<lambda>s.
         storage_try (sys_mkdir_all io progress s) (\<lambda>s.
         storage_try (sys_mkdir_all io (artifacts_path st task_id) s) (\<lambda>s.
         storage_try (sys_create io (path_join progress ''stdout.log'') s) (\<lambda>s.
         storage_try (sys_create io (path_join progress ''stderr.log'') s) (\<lambda>s.
         storage_try (sys_create io (path_join progress ''events.jsonl'') s) (\<lambda>s.
         (Inr (), s))))))))))"

text \<open>\<open>fs::write\<close>: create or truncate, then write.\<close>

definition sys_write_file :: "io_env \<Rightarrow> string \<Rightarrow> string \<Rightarrow> fs \<Rightarrow> (string + unit) \<times> fs" where
  "sys_write_file io p data s = try_io (sys_create io p s) id (\<lambda>_. sys_append io p data)"

definition write_manifest :: "io_env \<Rightarrow> TaskStorage \<Rightarrow> string \<Rightarrow> string \<Rightarrow> fs \<Rightarrow> (StorageError + unit) \<times> fs" where
  "write_manifest io st task_id manifest_yaml s =
     storage_try (sys_write_file io (path_join (task_dir st task_id) ''manifest.yaml'') manifest_yaml s)
       (\<lambda>s. (Inr (), s))"

definition nl :: string where
  "nl = [CHR 0x0A]"

definition task_prompt_text :: "string \<Rightarrow> string" where
  "task_prompt_text prompt =
     ''# Task Instructions'' @ nl @ nl @ prompt @ nl @ nl @ ''---'' @ nl
       @ ''*This file was generated by agentic-sandbox task orchestration.*'' @ nl"

definition write_task_prompt :: "io_env \<Rightarrow> TaskStorage \<Rightarrow> string \<Rightarrow> string \<Rightarrow> fs \<Rightarrow> (StorageError + unit) \<times> fs" where
  "write_task_prompt io st task_id prompt s =
     storage_try (sys_write_file io (path_join (inbox_path st task_id) ''TASK.md'') (task_prompt_text prompt) s)
       (\<lambda>s. (Inr (), s))"

text \<open>Opening a log in append mode creates a missing file.\<close>

definition append_log :: "io_env \<Rightarrow> string \<Rightarrow> string \<Rightarrow> fs \<Rightarrow> (StorageError + unit) \<times> fs" where
  "append_log io path data s =
     (case io_fail io ''open'' path of
        Some e \<Rightarrow> (Inl (StorageError.Io e), s)
      | None \<Rightarrow> storage_try (sys_append io path data s) (\<lambda>s. (Inr (), s)))"

definition append_stdout :: "io_env \<Rightarrow> TaskStorage \<Rightarrow> string \<Rightarrow> string \<Rightarrow> fs \<Rightarrow> (StorageError + unit) \<times> fs" where
  "append_stdout io st task_id data s = append_log io (path_join (progress_path st task_id) ''stdout.log'') data s"

definition append_stderr :: "io_env \<Rightarrow> TaskStorage \<Rightarrow> string \<Rightarrow> string \<Rightarrow> fs \<Rightarrow> (StorageError + unit) \<times> fs" where
  "append_stderr io st task_id data s = append_log io (path_join (progress_path st task_id) ''stderr.log'') data s"

definition read_stdout :: "io_env \<Rightarrow> TaskStorage \<Rightarrow> string \<Rightarrow> fs \<Rightarrow> StorageError + string" where
  "read_stdout io st task_id s =
     Inr (case sys_read io (path_join (progress_path st task_id) ''stdout.log'') s of Inr c \<Rightarrow> c | Inl e \<Rightarrow> [])"

definition read_stderr :: "io_env \<Rightarrow> TaskStorage \<Rightarrow> string \<Rightarrow> fs \<Rightarrow> StorageError + string" where
  "read_stderr io st task_id s =
     Inr (case sys_read io (path_join (progress_path st task_id) ''stderr.log'') s of Inr c \<Rightarrow> c | Inl e \<Rightarrow> [])"

text \<open>JSON rendering and \<open>to_rfc3339\<close> are parameters of the two operations that use them.\<close>

definition append_event ::
  "io_env \<Rightarrow> (json \<Rightarrow> string + string) \<Rightarrow> TaskStorage \<Rightarrow> string \<Rightarrow> json \<Rightarrow> fs \<Rightarrow> (StorageError + unit) \<times> fs" where
  "append_event io to_string st task_id event s =
     (let path = path_join (progress_path st task_id) ''events.jsonl''
      in case io_fail io ''open'' path of
           Some e \<Rightarrow> (Inl (StorageError.Io e), s)
         | None \<Rightarrow>
             (case to_string event of
                Inl e \<Rightarrow> (Inl (StorageError.Json e),
                            put_file path (case map_of (fs_files s) path of Some c \<Rightarrow> c | None \<Rightarrow> []) s)
              | Inr line \<Rightarrow> storage_try (sys_append io path (line @ nl) s) (\<lambda>s. (Inr (), s))))"

definition jopt :: "('a \<Rightarrow> json) \<Rightarrow> 'a option \<Rightarrow> json" where
  "jopt f x = (case x of None \<Rightarrow> JNull | Some v \<Rightarrow> f v)"

definition task_metadata :: "(timestamp \<Rightarrow> string) \<Rightarrow> Task \<Rightarrow> json" where
  "task_metadata rfc3339 t =
     jobj [(''task_id'', JStr (tk_id t)), (''name'', JStr (tk_name t)), (''state'', JStr (state_text (tk_state t))),
           (''created_at'', JStr (rfc3339 (tk_created_at t))),
           (''started_at'', jopt (\<lambda>x. JStr (rfc3339 x)) (tk_started_at t)),
           (''repository'', jobj [(''url'', JStr (repo_url (tk_repository t))),
                                  (''branch'', JStr (repo_branch (tk_repository t))),
                                  (''commit'', jopt JStr (repo_commit (tk_repository t)))]),
           (''vm'', jobj [(''name'', jopt JStr (tk_vm_name t)), (''ip'', jopt JStr (tk_vm_ip t)),
                          (''profile'', JStr (vc_profile (tk_vm t)))]),
           (''exit_code'', jopt JInt (tk_exit_code t)), (''error'', jopt JStr (tk_error t))]"

definition write_metadata ::
  "io_env \<Rightarrow> (timestamp \<Rightarrow> string) \<Rightarrow> (json \<Rightarrow> string + string) \<Rightarrow> TaskStorage \<Rightarrow> Task \<Rightarrow> fs \<Rightarrow> (StorageError + unit) \<times> fs" where
  "write_metadata io rfc3339 to_string_pretty st t s =
     (case to_string_pretty (task_metadata rfc3339 t) of
        Inl e \<Rightarrow> (Inl (StorageError.Json e), s)
      | Inr content \<Rightarrow>
          storage_try (sys_write_file io (path_join (outbox_path st (tk_id t)) ''metadata.json'') content s)
            (\<lambda>s. (Inr (), s)))"

definition cleanup_task :: "io_env \<Rightarrow> TaskStorage \<Rightarrow> string \<Rightarrow> fs \<Rightarrow> (StorageError + unit) \<times> fs" where
  "cleanup_task io st task_id s =
     (if path_exists s (task_dir st task_id)
      then storage_try (sys_rmdir_all io (task_dir st task_id) s) (\<lambda>s. (Inr (), s))
      else (Inr (), s))"

definition task_exists :: "TaskStorage \<Rightarrow> string \<Rightarrow> fs \<Rightarrow> bool" where
  "task_exists st task_id s = path_exists s (task_dir st task_id)"


subsection \<open>Checkpoints\<close>

text \<open>The JSON text of a task, a parameter: \<open>to_string_pretty\<close> and \<open>from_str\<close>.\<close>

record task_codec =
  task_to_string :: "Task \<Rightarrow> string + string"
  task_from_str :: "string \<Rightarrow> string + Task"

definition checkpoint_path :: "string \<Rightarrow> string \<Rightarrow> string" where
  "checkpoint_path dir task_id = path_join dir (task_id @ ''.checkpoint.json'')"

definition temp_checkpoint_path :: "string \<Rightarrow> string \<Rightarrow> string" where
  "temp_checkpoint_path dir task_id = path_join dir (task_id @ ''.checkpoint.tmp'')"

abbreviation checkpoint_try where
  "checkpoint_try r k \<equiv> try_io r CheckpointError.Io (\<lambda>_. k)"

definition initialize :: "io_env \<Rightarrow> string \<Rightarrow> fs \<Rightarrow> (CheckpointError + unit) \<times> fs" where
  "initialize io dir s = checkpoint_try (sys_mkdir_all io dir s) (\<lambda>s. (Inr (), s))"

definition save :: "io_env \<Rightarrow> task_codec \<Rightarrow> string \<Rightarrow> Task \<Rightarrow> fs \<Rightarrow> (CheckpointError + unit) \<times> fs" where
  "save io cd dir t s =
     (let temp_path = temp_checkpoint_path dir (tk_id t); final_path = checkpoint_path dir (tk_id t)
      in case task_to_string cd t of
           Inl e \<Rightarrow> (Inl (Serialization e), s)
         | Inr json \<Rightarrow>
             checkpoint_try (sys_create io temp_path s) (\<lambda>s.
             checkpoint_try (sys_append io temp_path json s) (\<lambda>s.
             checkpoint_try (sys_sync io temp_path s) (\<lambda>s.
             checkpoint_try (sys_rename io temp_path final_path s) (\<lambda>s.
             (Inr (), s))))))"

definition load :: "io_env \<Rightarrow> task_codec \<Rightarrow> string \<Rightarrow> string \<Rightarrow> fs \<Rightarrow> CheckpointError + Task option" where
  "load io cd dir task_id s =
     (let path = checkpoint_path dir task_id
      in if \<not> path_exists s path then Inr None
         else (case sys_read io path s of
                 Inl e \<Rightarrow> Inl (CheckpointError.Io e)
               | Inr json \<Rightarrow>
                   (case task_from_str cd json of
                      Inl e \<Rightarrow> Inl (Deserialization task_id e)
                    | Inr t \<Rightarrow> Inr (Some t))))"

text \<open>\<open>trim_end_matches\<close> of a string pattern: every repetition of the suffix goes.\<close>

function trim_end_str :: "string \<Rightarrow> string \<Rightarrow> string" where
  "trim_end_str p s = (if p \<noteq> [] \<and> ends_with p s then trim_end_str p (take (length s - length p) s) else s)"
  by pat_completeness auto
termination
  by (relation "measure (\<lambda>(p, s). length s)") (auto simp: ends_with_def intro!: diff_less)

declare trim_end_str.simps [simp del]

definition list_checkpoints :: "io_env \<Rightarrow> string \<Rightarrow> fs \<Rightarrow> CheckpointError + string list" where
  "list_checkpoints io dir s =
     (if \<not> path_exists s dir then Inr []
      else (case io_fail io ''readdir'' dir of
              Some e \<Rightarrow> Inl (CheckpointError.Io e)
            | None \<Rightarrow>
                Inr (sort (map (trim_end_str ''.checkpoint.json'')
                             (filter (ends_with ''.checkpoint.json'') (dir_entries dir s))))))"

definition delete :: "io_env \<Rightarrow> string \<Rightarrow> string \<Rightarrow> fs \<Rightarrow> (CheckpointError + unit) \<times> fs" where
  "delete io dir task_id s =
     (let path = checkpoint_path dir task_id; temp_path = temp_checkpoint_path dir task_id
      in checkpoint_try (if path_exists s path then sys_remove io path s else (Inr (), s)) (\<lambda>s.
           (Inr (), if path_exists s temp_path then snd (sys_remove io temp_path s) else s)))"

fun delete_each :: "io_env \<Rightarrow> string \<Rightarrow> string list \<Rightarrow> fs \<Rightarrow> (CheckpointError + unit) \<times> fs" where
  "delete_each io dir [] s = (Inr (), s)"
| "delete_each io dir (task_id # rest) s = try_io (delete io dir task_id s) id (\<lambda>_. delete_each io dir rest)"

definition delete_all :: "io_env \<Rightarrow> string \<Rightarrow> fs \<Rightarrow> (CheckpointError + nat) \<times> fs" where
  "delete_all io dir s =
     (case list_checkpoints io dir s of
        Inl e \<Rightarrow> (Inl e, s)
      | Inr task_ids \<Rightarrow> try_io (delete_each io dir task_ids s) id (\<lambda>_ s. (Inr (length task_ids), s)))"

definition checkpoint_exists :: "string \<Rightarrow> string \<Rightarrow> fs \<Rightarrow> bool" where
  "checkpoint_exists dir task_id s = path_exists s (checkpoint_path dir task_id)"


subsection \<open>Checkpoints are replaced atomically\<close>

lemma map_of_put_file [simp]: "map_of (fs_files (put_file p c s)) q = (if q = p then Some c else map_of (fs_files s) q)"
  by (simp add: put_file_def AList.update_conv')

lemma map_of_drop_file [simp]: "map_of (fs_files (drop_file p s)) q = (if q = p then None else map_of (fs_files s) q)"
  by (simp add: drop_file_def AList.delete_conv')

lemma fs_dirs_put_drop [simp]: "fs_dirs (put_file p c s) = fs_dirs s" "fs_dirs (drop_file p s) = fs_dirs s"
  by (simp_all add: put_file_def drop_file_def)

definition relative :: "string \<Rightarrow> bool" where
  "relative p \<longleftrightarrow> \<not> starts_with ''/'' p"

lemma path_join_ends: "ends_with x p \<Longrightarrow> ends_with x (path_join d p)"
  by (auto simp: path_join_def ends_with_iff)

lemma path_join_inject: "relative p \<Longrightarrow> relative q \<Longrightarrow> path_join d p = path_join d q \<longleftrightarrow> p = q"
  by (auto simp: path_join_def relative_def)

lemma starts_with_slash: "starts_with ''/'' s \<longleftrightarrow> (\<exists>t. s = CHR ''/'' # t)"
  by (cases s) (auto simp: starts_with_def)

lemma relative_append: "p \<noteq> [] \<Longrightarrow> relative (p @ x) \<longleftrightarrow> relative p"
  by (cases p) (auto simp: relative_def starts_with_slash)

lemma temp_not_checkpoint [simp]: "temp_checkpoint_path d i \<noteq> checkpoint_path d j"
proof
  assume eq: "temp_checkpoint_path d i = checkpoint_path d j"
  have "ends_with ''.checkpoint.tmp'' (temp_checkpoint_path d i)" and "ends_with ''.checkpoint.json'' (checkpoint_path d j)"
    by (simp_all add: temp_checkpoint_path_def checkpoint_path_def path_join_ends)
  then have "last (temp_checkpoint_path d i) = CHR ''p''" and "last (checkpoint_path d j) = CHR ''n''"
    by (auto simp: ends_with_iff)
  with eq show False by simp
qed

lemma checkpoint_path_inject:
  "relative i \<Longrightarrow> relative j \<Longrightarrow> i \<noteq> [] \<Longrightarrow> j \<noteq> [] \<Longrightarrow> checkpoint_path d i = checkpoint_path d j \<longleftrightarrow> i = j"
  by (simp add: checkpoint_path_def path_join_inject relative_append)

text \<open>A save either replaces the file of the checkpoint by the whole text or leaves it alone.\<close>

lemma save_files:
  assumes "save io cd d t s = (r, s')" and "q \<noteq> temp_checkpoint_path d (tk_id t)"
  shows "map_of (fs_files s') q =
    (if r = Inr () \<and> q = checkpoint_path d (tk_id t)
     then Some (projr (task_to_string cd t)) else map_of (fs_files s) q) \<and> fs_dirs s' = fs_dirs s"
proof -
  let ?p = "temp_checkpoint_path d (tk_id t)"
  show ?thesis
    using assms
    by (cases "task_to_string cd t"; cases "io_fail io ''create'' ?p"; cases "io_fail io ''write'' ?p";
        cases "io_fail io ''sync'' ?p"; cases "io_fail io ''rename'' ?p")
      (auto simp: save_def sys_create_def sys_append_def sys_sync_def sys_rename_def Let_def)
qed

lemma save_ok_text: "save io cd d t s = (Inr (), s') \<Longrightarrow> \<exists>json. task_to_string cd t = Inr json"
  by (auto simp: save_def Let_def split: sum.splits)

text \<open>
  The text of a task reads back. An MCP configuration of \<open>Some(null)\<close>, which no parsed manifest
  has, is the one value serde does not return.
\<close>

definition serializable :: "Task \<Rightarrow> bool" where
  "serializable t \<longleftrightarrow> tc_mcp_config (tk_task t) \<noteq> Some JNull"

definition task_roundtrip :: "task_codec \<Rightarrow> bool" where
  "task_roundtrip cd \<longleftrightarrow>
     (\<forall>t s. serializable t \<longrightarrow> task_to_string cd t = Inr s \<longrightarrow> task_from_str cd s = Inr t)"

lemma load_cong:
  "map_of (fs_files s) (checkpoint_path d i) = map_of (fs_files s') (checkpoint_path d i) \<Longrightarrow> fs_dirs s = fs_dirs s' \<Longrightarrow>
   load io cd d i s = load io cd d i s'"
  by (auto simp: load_def Let_def path_exists_def sys_read_def cong: if_cong option.case_cong sum.case_cong)

lemma load_saved:
  assumes "save io cd d t s = (Inr (), s')" and "task_roundtrip cd" and "serializable t"
    and "io_fail rd ''read'' (checkpoint_path d (tk_id t)) = None"
  shows "load rd cd d (tk_id t) s' = Inr (Some t)"
proof -
  obtain json where json: "task_to_string cd t = Inr json" using save_ok_text [OF assms(1)] by blast
  then have "map_of (fs_files s') (checkpoint_path d (tk_id t)) = Some json"
    using save_files [OF assms(1) temp_not_checkpoint [symmetric]] by simp
  with json assms(2-4) show ?thesis
    by (simp add: load_def path_exists_def sys_read_def Let_def task_roundtrip_def)
qed


text \<open>A codec that knows one task.\<close>

definition one_task_codec :: "Task \<Rightarrow> task_codec" where
  "one_task_codec t0 =
     \<lparr>task_to_string = (\<lambda>t. if t = t0 then Inr ''x'' else Inl ''unknown''),
      task_from_str = (\<lambda>s. if s = ''x'' then Inr t0 else Inl ''unknown'')\<rparr>"

lemma one_task_roundtrip: "task_roundtrip (one_task_codec t0)"
  by (simp add: task_roundtrip_def one_task_codec_def)

definition demo_task :: Task where
  "demo_task =
     \<lparr>tk_id = ''task-0001'', tk_name = ''demo'', tk_labels = Map.empty,
      tk_repository = \<lparr>repo_url = ''https://h/r'', repo_branch = ''main'', repo_commit = None, repo_subpath = None\<rparr>,
      tk_task = \<lparr>tc_provider = ''claude'', tc_prompt = ''p'', tc_headless = True, tc_skip_permissions = True,
        tc_output_format = ''stream-json'', tc_model = ''m'', tc_allowed_tools = [], tc_mcp_config = None,
        tc_max_turns = None\<rparr>,
      tk_vm = default_vm_config, tk_secrets = [], tk_lifecycle = default_lifecycle_config, tk_parent_id = None,
      tk_children = \<lparr>cc_max_concurrent = None, cc_wait_for_children = False, cc_aggregate_artifacts = False\<rparr>,
      tk_state = Pending, tk_created_at = 0, tk_started_at = None, tk_state_changed_at = 0,
      tk_state_message = None, tk_vm_name = None, tk_vm_ip = None, tk_exit_code = None, tk_error = None,
      tk_progress = default_progress\<rparr>"

definition io_ok :: io_env where
  "io_ok = \<lparr>io_fail = (\<lambda>op p. None), io_written = 0\<rparr>"

definition io_no_rename :: io_env where
  "io_no_rename = \<lparr>io_fail = (\<lambda>op p. if op = ''rename'' then Some ''EIO'' else None), io_written = 0\<rparr>"

definition empty_fs :: fs where
  "empty_fs = \<lparr>fs_files = [], fs_dirs = [''/c'']\<rparr>"



subsection \<open>Listing finds what was saved\<close>

definition plain_id :: "string \<Rightarrow> bool" where
  "plain_id i \<longleftrightarrow> i \<noteq> [] \<and> CHR ''/'' \<notin> set i \<and> \<not> ends_with ''.checkpoint.json'' i"

lemma plain_relative: "plain_id i \<Longrightarrow> relative i"
  by (auto simp: plain_id_def relative_def starts_with_slash)

lemma trim_end_str_once:
  assumes "p \<noteq> []" and "\<not> ends_with p s"
  shows "trim_end_str p (s @ p) = s"
  using assms by (subst trim_end_str.simps) (simp add: trim_end_str.simps [of p s])

lemma path_join_relative: "relative p \<Longrightarrow> path_join d p = path_join d [] @ p"
  by (auto simp: path_join_def relative_def starts_with_def)

lemma entry_name_checkpoint:
  assumes "plain_id i"
  shows "entry_name d (checkpoint_path d i) = Some (i @ ''.checkpoint.json'')"
proof -
  have "checkpoint_path d i = path_join d [] @ (i @ ''.checkpoint.json'')"
    using assms path_join_relative [of "i @ ''.checkpoint.json''" d] plain_relative [OF assms]
    by (simp add: checkpoint_path_def relative_append plain_id_def)
  with assms show ?thesis by (simp add: entry_name_def Let_def plain_id_def)
qed

lemma saved_listed:
  assumes "save io cd d t s = (Inr (), s')" and "plain_id (tk_id t)" and "path_exists s' d"
    and "io_fail rd ''readdir'' d = None"
  obtains ids where "list_checkpoints rd d s' = Inr ids" and "tk_id t \<in> set ids"
proof -
  have "checkpoint_path d (tk_id t) \<in> fst ` set (fs_files s')"
    using save_files [OF assms(1) temp_not_checkpoint [symmetric], of "tk_id t"] map_of_eq_None_iff [of "fs_files s'"]
    by (metis option.distinct(1))
  then have "tk_id t @ ''.checkpoint.json'' \<in> set (dir_entries d s')"
    using entry_name_checkpoint [OF assms(2), of d]
    by (force simp: dir_entries_def List.map_filter_def image_iff)
  then have "tk_id t \<in> trim_end_str ''.checkpoint.json'' ` {e \<in> set (dir_entries d s'). ends_with ''.checkpoint.json'' e}"
    using assms(2) by (force simp: image_iff plain_id_def trim_end_str_once)
  with assms(3,4) show ?thesis by (intro that) (auto simp: list_checkpoints_def)
qed

text \<open>An id that ends in the suffix itself is listed without it.\<close>

lemma suffixed_id_lost:
  assumes "\<not> ends_with ''.checkpoint.json'' i"
  shows "trim_end_str ''.checkpoint.json'' ((i @ ''.checkpoint.json'') @ ''.checkpoint.json'') = i"
  by (subst trim_end_str.simps) (simp add: trim_end_str_once assms del: append_assoc)

end
