(* ===== verification/Task_Executor.thy ===== *)
theory Task_Executor
  imports Task_Files
begin

section \<open>Task execution (\<open>orchestrator/executor.rs\<close>, \<open>orchestrator/collector.rs\<close>)\<close>

text \<open>
  Staging, provisioning, provider execution and clean-up of a task, and the collection of its
  artifacts. External programs are parameters: what a command prints and returns, and what it does
  to the files. The state is the file system, the secret cache and the list of the commands that
  were started. A panic is \<open>None\<close>.
\<close>

subsection \<open>Commands\<close>

text \<open>Captured output; the standard error is the text after lossy decoding.\<close>

record Output =
  out_code :: "int option"
  out_stdout :: string
  out_stderr :: string

definition success :: "Output \<Rightarrow> bool" where
  "success output \<longleftrightarrow> out_code output = Some 0"

record world =
  w_fs :: fs
  w_secrets :: SecretResolver
  w_commands :: "(string \<times> string list) list"

record ssh_run =
  ssh_stdout :: "string list"
  ssh_stderr :: "string list"
  ssh_wait :: "string + int option"

record exec_env =
  ee_io :: io_env
  ee_secret :: secret_env
  ee_command :: "string \<Rightarrow> string list \<Rightarrow> string + Output"
  ee_effect :: "string \<Rightarrow> string list \<Rightarrow> fs \<Rightarrow> fs"
  ee_ssh :: "string list \<Rightarrow> string + ssh_run"
  ee_parse_json :: "string \<Rightarrow> string + json"
  ee_hash_order :: "(string \<times> string) list \<Rightarrow> (string \<times> string) list"
  ee_glob :: "string \<Rightarrow> string + (string + string) list"

definition started :: "exec_env \<Rightarrow> string \<Rightarrow> string list \<Rightarrow> world \<Rightarrow> world" where
  "started env prog args w =
     w\<lparr>w_fs := ee_effect env prog args (w_fs w), w_commands := w_commands w @ [(prog, args)]\<rparr>"

definition run_command :: "exec_env \<Rightarrow> string \<Rightarrow> string list \<Rightarrow> world \<Rightarrow> (string + Output) \<times> world" where
  "run_command env prog args w =
     (case ee_command env prog args of
        Inl e \<Rightarrow> (Inl e, w)
      | Inr output \<Rightarrow> (Inr output, started env prog args w))"

definition lift_fs :: "(fs \<Rightarrow> 'r \<times> fs) \<Rightarrow> world \<Rightarrow> 'r \<times> world" where
  "lift_fs f w = (case f (w_fs w) of (r, s) \<Rightarrow> (r, w\<lparr>w_fs := s\<rparr>))"

subsection \<open>The executor\<close>

record VmInfo =
  vi_name :: string
  vi_ip :: string
  vi_ssh_key_path :: string

record TaskExecutor =
  ex_storage :: TaskStorage
  ex_agentshare_root :: string
  ex_provision_script :: string
  ex_destroy_script :: string

definition new_executor :: "secret_env \<Rightarrow> TaskStorage \<Rightarrow> string \<Rightarrow> TaskExecutor" where
  "new_executor env storage agentshare_root =
     \<lparr>ex_storage = storage, ex_agentshare_root = agentshare_root,
      ex_provision_script = (case se_var env ''PROVISION_SCRIPT'' of Some p \<Rightarrow> p
        | None \<Rightarrow> ''/opt/agentic-sandbox/images/qemu/provision-vm.sh''),
      ex_destroy_script = (case se_var env ''DESTROY_SCRIPT'' of Some p \<Rightarrow> p
        | None \<Rightarrow> ''/opt/agentic-sandbox/scripts/destroy-vm.sh'')\<rparr>"

definition stage_task :: "exec_env \<Rightarrow> TaskExecutor \<Rightarrow> Task \<Rightarrow> world \<Rightarrow> (ExecutorError + unit) \<times> world" where
  "stage_task env ex t w =
     (let inbox = inbox_path (ex_storage ex) (tk_id t);
          git_args = [''clone'', ''--depth'', ''1'', ''--branch'', repo_branch (tk_repository t),
                      repo_url (tk_repository t), inbox]
      in case run_command env ''git'' git_args w of
           (Inl e, w) \<Rightarrow> (Inl (CommandFailed (''git clone: '' @ e)), w)
         | (Inr output, w) \<Rightarrow>
             if \<not> success output then (Inl (CommandFailed (''git clone failed: '' @ out_stderr output)), w)
             else
               try_io
                 (case repo_commit (tk_repository t) of
                    None \<Rightarrow> (Inr (), w)
                  | Some commit_sha \<Rightarrow>
                      (case run_command env ''git'' [''-C'', inbox, ''checkout'', commit_sha] w of
                         (Inl e, w) \<Rightarrow> (Inl (CommandFailed (''git checkout: '' @ e)), w)
                       | (Inr output, w) \<Rightarrow> (Inr (), w)))
                 id
                 (\<lambda>_ w. try_io (lift_fs (write_task_prompt (ee_io env) (ex_storage ex) (tk_id t) (tc_prompt (tk_task t))) w)
                          (\<lambda>e. StorageError (storage_error_text e)) (\<lambda>_ w. (Inr (), w))))"

text \<open>\<open>&task_id[..8]\<close> panics when byte 8 is past the end or inside a character.\<close>

definition is_char_boundary :: "string \<Rightarrow> nat \<Rightarrow> bool" where
  "is_char_boundary s n \<longleftrightarrow>
     n = 0 \<or> n = length s \<or> n < length s \<and> \<not> (CHR 0x80 \<le> s ! n \<and> s ! n < CHR 0xC0)"

definition id_prefix :: "string \<Rightarrow> string option" where
  "id_prefix task_id = (if is_char_boundary task_id 8 then Some (take 8 task_id) else None)"

definition provision_args :: "Task \<Rightarrow> string \<Rightarrow> string list" where
  "provision_args t vm_name =
     [''--profile'', vc_profile (tk_vm t), ''--cpus'', digits (unat (vc_cpus (tk_vm t))),
      ''--memory'', vc_memory (tk_vm t), ''--task-id'', tk_id t, ''--start'', ''--wait'', vm_name]"

definition vm_info_from :: "string \<Rightarrow> json \<Rightarrow> ExecutorError + VmInfo" where
  "vm_info_from vm_name info =
     (case jget ''ip'' info of
        Some (JStr ip) \<Rightarrow>
          (case Option.bind (jget ''management'' info) (jget ''ssh_key_path'') of
             Some (JStr key) \<Rightarrow> Inr \<lparr>vi_name = vm_name, vi_ip = ip, vi_ssh_key_path = key\<rparr>
           | _ \<Rightarrow> Inl (CommandFailed ''No ssh_key_path in vm-info.json''))
      | _ \<Rightarrow> Inl (CommandFailed ''No IP in vm-info.json''))"

definition vm_info_path :: "string \<Rightarrow> string" where
  "vm_info_path vm_name = ''/var/lib/agentic-sandbox/vms/'' @ vm_name @ ''/vm-info.json''"

definition provision_vm ::
  "exec_env \<Rightarrow> TaskExecutor \<Rightarrow> Task \<Rightarrow> world \<Rightarrow> ((ExecutorError + VmInfo) \<times> world) option" where
  "provision_vm env ex t w =
     (case id_prefix (tk_id t) of
        None \<Rightarrow> None
      | Some prefix \<Rightarrow>
          let vm_name = ''task-'' @ prefix
          in Some (case run_command env (ex_provision_script ex) (provision_args t vm_name) w of
               (Inl e, w) \<Rightarrow> (Inl (CommandFailed (''provision-vm.sh: '' @ e)), w)
             | (Inr output, w) \<Rightarrow>
                 if \<not> success output
                 then (Inl (ProvisionFailed (''VM provisioning failed: '' @ out_stderr output)), w)
                 else (case sys_read (ee_io env) (vm_info_path vm_name) (w_fs w) of
                         Inl e \<Rightarrow> (Inl (CommandFailed (''Failed to read vm-info.json: '' @ e)), w)
                       | Inr content \<Rightarrow>
                           (case ee_parse_json env content of
                              Inl e \<Rightarrow> (Inl (CommandFailed (''Failed to parse vm-info.json: '' @ e)), w)
                            | Inr info \<Rightarrow> (vm_info_from vm_name info, w)))))"

subsection \<open>Providers\<close>

datatype provider = ClaudeProvider | DshProvider

fun provider_name :: "provider \<Rightarrow> string" where
  "provider_name ClaudeProvider = ''claude''"
| "provider_name DshProvider = ''dsh''"

fun executable :: "provider \<Rightarrow> string" where
  "executable ClaudeProvider = ''claude''"
| "executable DshProvider = ''dsh''"

fun provider_args :: "provider \<Rightarrow> TaskConfig \<Rightarrow> string list" where
  "provider_args ClaudeProvider config =
     [''--print'']
     @ (if tc_skip_permissions config then [''--dangerously-skip-permissions''] else [])
     @ (if tc_output_format config = ''stream-json'' then [''--output-format'', ''stream-json''] else [])
     @ (case tc_max_turns config of Some turns \<Rightarrow> [''--max-turns'', digits (unat turns)] | None \<Rightarrow> [])
     @ concat (map (\<lambda>tool. [''--allowedTools'', tool]) (tc_allowed_tools config))
     @ [''--prompt'', ''Read TASK.md for your instructions'']"
| "provider_args DshProvider config = [''--profile'', ''headless'', ''Read TASK.md for your instructions'']"

definition provider_executor :: "string \<Rightarrow> ExecutorError + provider" where
  "provider_executor name =
     (if name = ''claude'' then Inr ClaudeProvider
      else if name = ''dsh'' then Inr DshProvider
      else Inl (UnknownProvider name))"

text \<open>A secret that does not resolve is skipped.\<close>

fun resolve_secrets ::
  "secret_env \<Rightarrow> SecretResolver \<Rightarrow> SecretRef list \<Rightarrow> (string \<times> string) list \<Rightarrow> (string \<times> string) list \<times> SecretResolver" where
  "resolve_secrets env r [] env_vars = (env_vars, r)"
| "resolve_secrets env r (secret_ref # rest) env_vars =
     (case resolve env r (sr_source secret_ref) (sr_key secret_ref) of
        (Inr v, r') \<Rightarrow> resolve_secrets env r' rest (AList.update (sr_name secret_ref) v env_vars)
      | (Inl e, r') \<Rightarrow> resolve_secrets env r' rest env_vars)"

definition quote_char :: string where
  "quote_char = [CHR 0x27]"

definition env_export :: "string \<times> string \<Rightarrow> string" where
  "env_export kv =
     (case kv of (k, v) \<Rightarrow>
        ''export '' @ k @ ''='' @ quote_char
          @ replace_str quote_char (quote_char @ [CHR 0x5C] @ quote_char @ quote_char) v @ quote_char)"

definition remote_command :: "(string \<times> string) list \<Rightarrow> provider \<Rightarrow> TaskConfig \<Rightarrow> string" where
  "remote_command env_vars p config =
     (let env_cmd = join_str '' && '' (map env_export env_vars)
      in ''cd ~/workspace && '' @ (if env_cmd = [] then ''true'' else env_cmd) @ '' && ''
           @ executable p @ '' '' @ join_str '' '' (provider_args p config))"

definition ssh_args :: "string \<Rightarrow> string \<Rightarrow> string \<Rightarrow> string list" where
  "ssh_args prefix vm_ip remote_cmd =
     [''-i'', ''/var/lib/agentic-sandbox/secrets/ssh-keys/task-'' @ prefix,
      ''-o'', ''StrictHostKeyChecking=no'', ''-o'', ''UserKnownHostsFile=/dev/null'',
      ''-o'', ''BatchMode=yes'', ''agent@'' @ vm_ip, remote_cmd]"

text \<open>The readers copy every line to the log and only report a failing write.\<close>

definition copy_lines :: "(string \<Rightarrow> fs \<Rightarrow> (StorageError + unit) \<times> fs) \<Rightarrow> string list \<Rightarrow> fs \<Rightarrow> fs" where
  "copy_lines log ls s = foldl (\<lambda>s line. snd (log (line @ nl) s)) s ls"

definition execute_provider ::
  "exec_env \<Rightarrow> TaskExecutor \<Rightarrow> Task \<Rightarrow> world \<Rightarrow> ((ExecutorError + int) \<times> world) option" where
  "execute_provider env ex t w =
     (case tk_vm_ip t of
        None \<Rightarrow> Some (Inl VmNotReady, w)
      | Some vm_ip \<Rightarrow>
          (case provider_executor (tc_provider (tk_task t)) of
             Inl e \<Rightarrow> Some (Inl e, w)
           | Inr p \<Rightarrow>
               (case resolve_secrets (ee_secret env) (w_secrets w) (tk_secrets t) [] of
                  (env_vars, r) \<Rightarrow>
                    (case id_prefix (tk_id t) of
                       None \<Rightarrow> None
                     | Some prefix \<Rightarrow>
                         let args = ssh_args prefix vm_ip (remote_command (ee_hash_order env env_vars) p (tk_task t));
                             w = w\<lparr>w_secrets := r\<rparr>
                         in (case ee_ssh env args of
                               Inl e \<Rightarrow> Some (Inl (CommandFailed (''SSH spawn failed: '' @ e)), w)
                             | Inr child \<Rightarrow>
                                 let s = copy_lines (append_stderr (ee_io env) (ex_storage ex) (tk_id t)) (ssh_stderr child)
                                           (copy_lines (append_stdout (ee_io env) (ex_storage ex) (tk_id t)) (ssh_stdout child)
                                              (w_fs w));
                                     w = w\<lparr>w_fs := s, w_commands := w_commands w @ [(''ssh'', args)]\<rparr>
                                 in (case ssh_wait child of
                                       Inl e \<Rightarrow> Some (Inl (CommandFailed (''SSH wait failed: '' @ e)), w)
                                     | Inr code \<Rightarrow>
                                         Some (Inr (case code of Some c \<Rightarrow> c | None \<Rightarrow> - 1), w)))))))"

definition cleanup_vm :: "exec_env \<Rightarrow> TaskExecutor \<Rightarrow> Task \<Rightarrow> world \<Rightarrow> (ExecutorError + unit) \<times> world" where
  "cleanup_vm env ex t w =
     (case tk_vm_name t of
        None \<Rightarrow> (Inr (), w)
      | Some vm_name \<Rightarrow>
          (case run_command env (ex_destroy_script ex) [vm_name] w of
             (Inl e, w) \<Rightarrow> (Inl (CommandFailed (''destroy-vm.sh: '' @ e)), w)
           | (Inr output, w) \<Rightarrow> (Inr (), w)))"


subsection \<open>Artifact collection\<close>

definition tasks_root_var :: "secret_env \<Rightarrow> string" where
  "tasks_root_var env = (case se_var env ''TASKS_ROOT'' of Some p \<Rightarrow> p | None \<Rightarrow> ''/srv/agentshare/tasks'')"

definition file_name :: "string \<Rightarrow> string option" where
  "file_name p =
     (let name = rev (takeWhile ((\<noteq>) CHR ''/'') (rev p))
      in if name \<in> {[], ''.'', ''..''} then None else Some name)"

text \<open>\<open>fs::copy\<close>; copying a file onto itself truncates it.\<close>

definition sys_copy :: "io_env \<Rightarrow> string \<Rightarrow> string \<Rightarrow> fs \<Rightarrow> (string + unit) \<times> fs" where
  "sys_copy io p q s =
     (case io_fail io ''copy'' p of
        Some e \<Rightarrow> (Inl e, s)
      | None \<Rightarrow>
          (case map_of (fs_files s) p of
             None \<Rightarrow> (Inl ''No such file or directory (os error 2)'', s)
           | Some c \<Rightarrow> (Inr (), put_file q (if p = q then [] else c) s)))"

text \<open>One entry of a glob match: a regular file is copied under its own name, a failure is skipped.\<close>

definition collect_entry :: "io_env \<Rightarrow> string \<Rightarrow> string + string \<Rightarrow> fs \<Rightarrow> fs" where
  "collect_entry io artifacts entry s =
     (case entry of
        Inl e \<Rightarrow> s
      | Inr path \<Rightarrow>
          if map_of (fs_files s) path \<noteq> None
          then (case file_name path of
                  None \<Rightarrow> s
                | Some filename \<Rightarrow> snd (sys_copy io path (path_join artifacts filename) s))
          else s)"

definition collect_pattern :: "exec_env \<Rightarrow> string \<Rightarrow> string \<Rightarrow> fs \<Rightarrow> string \<Rightarrow> fs" where
  "collect_pattern env inbox artifacts s pattern =
     (case ee_glob env (path_join inbox pattern) of
        Inl e \<Rightarrow> s
      | Inr entries \<Rightarrow> foldl (\<lambda>s entry. collect_entry (ee_io env) artifacts entry s) s entries)"

abbreviation collector_try where
  "collector_try r k \<equiv> try_io r CollectorError.Io k"

definition collect_git_patch ::
  "exec_env \<Rightarrow> string \<Rightarrow> string \<Rightarrow> string \<Rightarrow> world \<Rightarrow> (CollectorError + unit) \<times> world" where
  "collect_git_patch env task_id inbox artifacts w =
     collector_try (run_command env ''git'' [''-C'', inbox, ''status'', ''--porcelain''] w) (\<lambda>status w.
       if out_stdout status = [] then (Inr (), w)
       else
         collector_try (run_command env ''git'' [''-C'', inbox, ''diff'', ''HEAD''] w) (\<lambda>diff w.
         collector_try
           (if out_stdout diff \<noteq> []
            then lift_fs (sys_write_file (ee_io env) (path_join artifacts (task_id @ ''.patch'')) (out_stdout diff)) w
            else (Inr (), w)) (\<lambda>_ w.
         collector_try (run_command env ''git'' [''-C'', inbox, ''ls-files'', ''--others'', ''--exclude-standard''] w) (\<lambda>untracked w.
         collector_try
           (if out_stdout untracked \<noteq> []
            then lift_fs (sys_write_file (ee_io env) (path_join artifacts (task_id @ ''-untracked.txt'')) (out_stdout untracked)) w
            else (Inr (), w)) (\<lambda>_ w. (Inr (), w))))))"

definition collect_artifacts :: "exec_env \<Rightarrow> Task \<Rightarrow> world \<Rightarrow> (CollectorError + unit) \<times> world" where
  "collect_artifacts env t w =
     (if lc_artifact_patterns (tk_lifecycle t) = [] then (Inr (), w)
      else
        let task_root = path_join (tasks_root_var (ee_secret env)) (tk_id t);
            inbox = path_join task_root ''inbox'';
            artifacts = path_join (path_join task_root ''outbox'') ''artifacts''
        in collector_try (lift_fs (sys_mkdir_all (ee_io env) artifacts) w) (\<lambda>_ w.
             let w = w\<lparr>w_fs := foldl (collect_pattern env inbox artifacts) (w_fs w) (lc_artifact_patterns (tk_lifecycle t))\<rparr>
             in if path_exists (w_fs w) (path_join inbox ''.git'')
                then (Inr (), snd (collect_git_patch env (tk_id t) inbox artifacts w))
                else (Inr (), w)))"

subsection \<open>Commands and results\<close>

lemma run_command_commands:
  "w_commands (snd (run_command env prog args w)) =
     w_commands w @ (if isl (ee_command env prog args) then [] else [(prog, args)])"
  by (auto simp: run_command_def started_def split: sum.splits)

lemma cleanup_vm_commands:
  "w_commands (snd (cleanup_vm env ex t w)) =
     w_commands w @ (case tk_vm_name t of
        None \<Rightarrow> []
      | Some n \<Rightarrow> if isl (ee_command env (ex_destroy_script ex) [n]) then [] else [(ex_destroy_script ex, [n])])"
  by (auto simp: cleanup_vm_def run_command_def started_def split: sum.splits option.splits)

lemma provision_panics: "provision_vm env ex t w = None \<longleftrightarrow> id_prefix (tk_id t) = None"
  by (simp add: provision_vm_def Let_def split: option.splits)

lemma provision_vm_name:
  "provision_vm env ex t w = Some (Inr info, w') \<Longrightarrow> \<exists>prefix. id_prefix (tk_id t) = Some prefix \<and> vi_name info = ''task-'' @ prefix"
  by (auto simp: provision_vm_def vm_info_from_def Let_def
      split: option.splits prod.splits sum.splits if_splits json.splits)

text \<open>Two tasks whose ids agree on the first eight bytes get the same VM name.\<close>

lemma vm_name_collision:
  assumes "take 8 i = take 8 j" and "id_prefix i = Some p" and "id_prefix j = Some q"
  shows "''task-'' @ p = ''task-'' @ q"
  using assms by (auto simp: id_prefix_def split: if_splits)

lemma collect_artifacts_error:
  "fst (collect_artifacts env t w) = Inl e \<Longrightarrow> lc_artifact_patterns (tk_lifecycle t) \<noteq> []"
  by (auto simp: collect_artifacts_def)


subsection \<open>The remote shell sees exactly the secret\<close>

text \<open>
  A specification of how a POSIX shell splits a simple command into words: blanks separate,
  operators end the command, single quotes and the backslash quote; a word with any other
  expansion is refused. The fuel of \<open>sh_words\<close> bounds the number of words and blanks, so the length
  of the text is enough.
\<close>

definition sh_blank :: "char \<Rightarrow> bool" where
  "sh_blank c \<longleftrightarrow> c \<in> {CHR '' '', CHR 0x09}"

definition sh_operator :: "char \<Rightarrow> bool" where
  "sh_operator c \<longleftrightarrow> c \<in> set '';&|<>()'' \<union> {CHR 0x0A}"

definition sh_expansion :: "char \<Rightarrow> bool" where
  "sh_expansion c \<longleftrightarrow> c \<in> set ''$`*?[#~!{}'' \<union> {CHR 0x22}"

fun sh_word :: "bool \<Rightarrow> string \<Rightarrow> string \<Rightarrow> (string \<times> string) option" where
  "sh_word True acc [] = None"
| "sh_word True acc (c # s) = (if c = CHR 0x27 then sh_word False acc s else sh_word True (acc @ [c]) s)"
| "sh_word False acc [] = Some (acc, [])"
| "sh_word False acc [c] =
     (if c = CHR 0x27 \<or> c = CHR 0x5C \<or> sh_expansion c then None
      else if sh_blank c \<or> sh_operator c then Some (acc, [c])
      else Some (acc @ [c], []))"
| "sh_word False acc (c # d # s) =
     (if c = CHR 0x27 then sh_word True acc (d # s)
      else if c = CHR 0x5C then sh_word False (if d = CHR 0x0A then acc else acc @ [d]) s
      else if sh_blank c \<or> sh_operator c then Some (acc, c # d # s)
      else if sh_expansion c then None
      else sh_word False (acc @ [c]) (d # s))"

fun sh_words :: "nat \<Rightarrow> string \<Rightarrow> (string list \<times> string) option" where
  "sh_words 0 s = None"
| "sh_words (Suc n) [] = Some ([], [])"
| "sh_words (Suc n) (c # s) =
     (if sh_blank c then sh_words n s
      else if sh_operator c then Some ([], c # s)
      else (case sh_word False [] (c # s) of
              None \<Rightarrow> None
            | Some (word, rest) \<Rightarrow> map_option (\<lambda>(ws, rest). (word # ws, rest)) (sh_words n rest)))"

definition name_char :: "char \<Rightarrow> bool" where
  "name_char c \<longleftrightarrow> is_ascii_alphanumeric c \<or> c = CHR ''_''"

lemma name_char_plain: "name_char c \<or> c = CHR ''='' \<Longrightarrow>
  c \<noteq> CHR 0x27 \<and> c \<noteq> CHR 0x5C \<and> \<not> sh_blank c \<and> \<not> sh_operator c \<and> \<not> sh_expansion c"
  by (auto simp: name_char_def is_ascii_alphanumeric_def is_ascii_digit_def is_ascii_upper_def sh_blank_def
      sh_operator_def sh_expansion_def less_eq_char_def)

lemma sh_word_plain:
  assumes "list_all (\<lambda>c. name_char c \<or> c = CHR ''='') k"
  shows "s \<noteq> [] \<Longrightarrow> sh_word False acc (k @ s) = sh_word False (acc @ k) s"
  using assms
proof (induction k arbitrary: acc)
  case (Cons c k)
  obtain d u where "k @ s = d # u" using Cons.prems(1) by (cases "k @ s") auto
  with Cons show ?case using name_char_plain [of c] by simp
qed simp

definition sh_escape :: "string \<Rightarrow> string" where
  "sh_escape v = replace_str quote_char (quote_char @ [CHR 0x5C] @ quote_char @ quote_char) v"

lemma sh_escape_simps [simp]:
  "sh_escape [] = []"
  "sh_escape (c # v) = (if c = CHR 0x27 then [CHR 0x27, CHR 0x5C, CHR 0x27, CHR 0x27] else [c]) @ sh_escape v"
  by (simp_all add: sh_escape_def replace_str.simps [of _ _ "c # v"] replace_str.simps [of _ _ "[]"] quote_char_def
      starts_with_def)

lemma env_export_escape: "env_export (k, v) = ''export '' @ k @ ''='' @ CHR 0x27 # sh_escape v @ [CHR 0x27]"
  by (simp add: env_export_def sh_escape_def quote_char_def)

text \<open>Inside the quotes, the escaped value reads back as the value and the quote closes after it.\<close>

lemma sh_word_open: "s \<noteq> [] \<Longrightarrow> sh_word False acc (CHR 0x27 # s) = sh_word True acc s"
  by (cases s) simp_all

lemma sh_word_blank: "sh_word False acc (CHR '' '' # s) = Some (acc, CHR '' '' # s)"
  by (cases s) (simp_all add: sh_blank_def sh_expansion_def)

lemma sh_word_escaped: "sh_word True acc (sh_escape v @ CHR 0x27 # rest) = sh_word False (acc @ v) rest"
  by (induction v arbitrary: acc) (simp_all add: sh_word_open)



text \<open>The provider's arguments are joined unquoted, so the shell splits its last argument.\<close>

lemma prompt_is_split:
  "sh_words 100 (join_str '' '' (provider_args DshProvider config)) =
     Some ([''--profile'', ''headless'', ''Read'', ''TASK.md'', ''for'', ''your'', ''instructions''], [])"
  by (simp add: numeral_eq_Suc sh_blank_def sh_operator_def sh_expansion_def)

end
