(* ===== verification/Orchestrator.thy ===== *)
theory Orchestrator
  imports Task_Executor
begin

section \<open>The orchestrator (\<open>orchestrator/mod.rs\<close>)\<close>

text \<open>
  Submission, execution and cancellation of tasks. A task is a cell shared by the task table, the
  background runner that executes it and the requests that cancel it, so cells have addresses. A
  runner and a cancellation are actors that take one step per lock region or awaited call of the
  code; any interleaving of their steps is a run. The monitor is the set of the tasks it watches.
  Every step has its own clock and environment.
\<close>

subsection \<open>State\<close>

datatype runner_pc =
  ToStaging | Stage | ToProvisioning | Provision | ToReady VmInfo | ToRunning | StartMonitor
| Execute | StopMonitor "ExecutorError + int" | HandleOk int | CollectArtifacts int | ToCompleted int
| CleanupOk | HandleErr ExecutorError | CleanupErr | RunnerDone "OrchestratorError + unit" | RunnerPanicked

datatype cancel_pc = CancelTask string | CancelCleanup | CancelDone "OrchestratorError + unit"

datatype actor = Runner nat runner_pc | Canceller nat cancel_pc

record orch_config =
  oc_storage :: TaskStorage
  oc_checkpoint_dir :: string
  oc_executor :: TaskExecutor
  oc_codec :: task_codec

record Orchestrator =
  or_world :: world
  or_cells :: "Task list"
  or_tasks :: "string \<rightharpoonup> nat"
  or_monitors :: "string set"
  or_actors :: "actor list"

record step_env =
  sv_now :: timestamp
  sv_exec :: exec_env

definition new_config :: "task_codec \<Rightarrow> secret_env \<Rightarrow> string \<Rightarrow> string \<Rightarrow> orch_config" where
  "new_config cd env tasks_root agentshare_root =
     (let storage = \<lparr>st_tasks_root = tasks_root, st_agentshare_root = agentshare_root\<rparr>
      in \<lparr>oc_storage = storage, oc_checkpoint_dir = tasks_root @ ''/checkpoints'',
          oc_executor = new_executor env storage agentshare_root, oc_codec = cd\<rparr>)"

definition new_orchestrator :: "secret_env \<Rightarrow> fs \<Rightarrow> Orchestrator" where
  "new_orchestrator env s =
     \<lparr>or_world = \<lparr>w_fs = s, w_secrets = new_resolver env, w_commands = []\<rparr>, or_cells = [],
      or_tasks = Map.empty, or_monitors = {}, or_actors = []\<rparr>"

definition put_cell :: "nat \<Rightarrow> Task \<Rightarrow> Orchestrator \<Rightarrow> Orchestrator" where
  "put_cell a t orch = orch\<lparr>or_cells := (or_cells orch)[a := t]\<rparr>"

definition put_world :: "world \<Rightarrow> Orchestrator \<Rightarrow> Orchestrator" where
  "put_world w orch = orch\<lparr>or_world := w\<rparr>"

subsection \<open>Lock regions\<close>

text \<open>
  The region every state change shares: update the task, move it to the next state, save the
  checkpoint. A refused transition keeps the update, a failed save keeps the transition.
\<close>

definition advance ::
  "orch_config \<Rightarrow> step_env \<Rightarrow> nat \<Rightarrow> (Task \<Rightarrow> Task) \<Rightarrow> TaskState \<Rightarrow> Orchestrator
     \<Rightarrow> (OrchestratorError + unit) \<times> Orchestrator" where
  "advance cfg env a upd next orch =
     (let t = upd (or_cells orch ! a)
      in case transition_to (sv_now env) next t of
           Inl e \<Rightarrow> (Inl e, put_cell a t orch)
         | Inr t' \<Rightarrow>
             (case lift_fs (save (ee_io (sv_exec env)) (oc_codec cfg) (oc_checkpoint_dir cfg) t') (or_world orch) of
                (Inl e, w) \<Rightarrow> (Inl (Checkpoint e), put_world w (put_cell a t' orch))
              | (Inr _, w) \<Rightarrow> (Inr (), put_world w (put_cell a t' orch))))"

text \<open>The \<open>?\<close> operator in the runner: an error ends the lifecycle.\<close>

definition runner_try ::
  "(OrchestratorError + unit) \<times> Orchestrator \<Rightarrow> runner_pc \<Rightarrow> runner_pc \<times> Orchestrator" where
  "runner_try r pc = (case r of (Inl e, orch) \<Rightarrow> (RunnerDone (Inl e), orch) | (Inr _, orch) \<Rightarrow> (pc, orch))"

definition start_monitoring :: "string \<Rightarrow> Orchestrator \<Rightarrow> bool \<times> Orchestrator" where
  "start_monitoring task_id orch =
     (if task_id \<in> or_monitors orch then (False, orch)
      else (True, orch\<lparr>or_monitors := insert task_id (or_monitors orch)\<rparr>))"

definition stop_monitoring :: "string \<Rightarrow> Orchestrator \<Rightarrow> Orchestrator" where
  "stop_monitoring task_id orch = orch\<lparr>or_monitors := or_monitors orch - {task_id}\<rparr>"

subsection \<open>The task lifecycle\<close>

fun execute_task_lifecycle ::
  "orch_config \<Rightarrow> step_env \<Rightarrow> nat \<Rightarrow> runner_pc \<Rightarrow> Orchestrator \<Rightarrow> runner_pc \<times> Orchestrator" where
  "execute_task_lifecycle cfg env a ToStaging orch = runner_try (advance cfg env a id Staging orch) Stage"
| "execute_task_lifecycle cfg env a Stage orch =
     (case stage_task (sv_exec env) (oc_executor cfg) (or_cells orch ! a) (or_world orch) of
        (Inl e, w) \<Rightarrow> (RunnerDone (Inl (Executor e)), put_world w orch)
      | (Inr _, w) \<Rightarrow> (ToProvisioning, put_world w orch))"
| "execute_task_lifecycle cfg env a ToProvisioning orch = runner_try (advance cfg env a id Provisioning orch) Provision"
| "execute_task_lifecycle cfg env a Provision orch =
     (case provision_vm (sv_exec env) (oc_executor cfg) (or_cells orch ! a) (or_world orch) of
        None \<Rightarrow> (RunnerPanicked, orch)
      | Some (Inl e, w) \<Rightarrow> (RunnerDone (Inl (Executor e)), put_world w orch)
      | Some (Inr vm_info, w) \<Rightarrow> (ToReady vm_info, put_world w orch))"
| "execute_task_lifecycle cfg env a (ToReady vm_info) orch =
     runner_try
       (advance cfg env a (\<lambda>t. t\<lparr>tk_vm_name := Some (vi_name vm_info), tk_vm_ip := Some (vi_ip vm_info)\<rparr>) Ready orch)
       ToRunning"
| "execute_task_lifecycle cfg env a ToRunning orch = runner_try (advance cfg env a id Running orch) StartMonitor"
| "execute_task_lifecycle cfg env a StartMonitor orch =
     (Execute, snd (start_monitoring (tk_id (or_cells orch ! a)) orch))"
| "execute_task_lifecycle cfg env a Execute orch =
     (case execute_provider (sv_exec env) (oc_executor cfg) (or_cells orch ! a) (or_world orch) of
        None \<Rightarrow> (RunnerPanicked, orch)
      | Some (result, w) \<Rightarrow> (StopMonitor result, put_world w orch))"
| "execute_task_lifecycle cfg env a (StopMonitor result) orch =
     ((case result of Inr exit_code \<Rightarrow> HandleOk exit_code | Inl e \<Rightarrow> HandleErr e),
      stop_monitoring (tk_id (or_cells orch ! a)) orch)"
| "execute_task_lifecycle cfg env a (HandleOk exit_code) orch =
     runner_try (advance cfg env a id Completing orch) (CollectArtifacts exit_code)"
| "execute_task_lifecycle cfg env a (CollectArtifacts exit_code) orch =
     (case collect_artifacts (sv_exec env) (or_cells orch ! a) (or_world orch) of
        (Inl e, w) \<Rightarrow> (RunnerDone (Inl (Collector e)), put_world w orch)
      | (Inr _, w) \<Rightarrow> (ToCompleted exit_code, put_world w orch))"
| "execute_task_lifecycle cfg env a (ToCompleted exit_code) orch =
     runner_try (advance cfg env a (\<lambda>t. t\<lparr>tk_exit_code := Some exit_code\<rparr>) Completed orch) CleanupOk"
| "execute_task_lifecycle cfg env a CleanupOk orch =
     (case cleanup_vm (sv_exec env) (oc_executor cfg) (or_cells orch ! a) (or_world orch) of
        (Inl e, w) \<Rightarrow> (RunnerDone (Inl (Executor e)), put_world w orch)
      | (Inr _, w) \<Rightarrow> (RunnerDone (Inr ()), put_world w orch))"
| "execute_task_lifecycle cfg env a (HandleErr e) orch =
     (if lc_failure_action (tk_lifecycle (or_cells orch ! a)) = ''preserve''
      then runner_try (advance cfg env a (\<lambda>t. t\<lparr>tk_error := Some (executor_error_text e)\<rparr>) FailedPreserved orch)
             (RunnerDone (Inr ()))
      else runner_try (advance cfg env a (\<lambda>t. t\<lparr>tk_error := Some (executor_error_text e)\<rparr>) Failed orch)
             CleanupErr)"
| "execute_task_lifecycle cfg env a CleanupErr orch =
     (RunnerDone (Inr ()),
      put_world (snd (cleanup_vm (sv_exec env) (oc_executor cfg) (or_cells orch ! a) (or_world orch))) orch)"
| "execute_task_lifecycle cfg env a (RunnerDone r) orch = (RunnerDone r, orch)"
| "execute_task_lifecycle cfg env a RunnerPanicked orch = (RunnerPanicked, orch)"

subsection \<open>Requests\<close>

definition submit_task ::
  "orch_config \<Rightarrow> step_env \<Rightarrow> TaskManifest \<Rightarrow> Orchestrator \<Rightarrow> (OrchestratorError + string) \<times> Orchestrator" where
  "submit_task cfg env manifest orch =
     (case and_then (map_sum Manifest id (validate manifest)) (\<lambda>_. from_manifest (sv_now env) manifest) of
        Inl e \<Rightarrow> (Inl e, orch)
      | Inr t \<Rightarrow>
          (case lift_fs (create_task_directory (ee_io (sv_exec env)) (oc_storage cfg) (tk_id t)) (or_world orch) of
             (Inl e, w) \<Rightarrow> (Inl (Storage e), put_world w orch)
           | (Inr _, w) \<Rightarrow>
               (case lift_fs (save (ee_io (sv_exec env)) (oc_codec cfg) (oc_checkpoint_dir cfg) t) w of
                  (Inl e, w) \<Rightarrow> (Inl (Checkpoint e), put_world w orch)
                | (Inr _, w) \<Rightarrow>
                    let a = length (or_cells orch)
                    in (Inr (tk_id t),
                        orch\<lparr>or_world := w, or_cells := or_cells orch @ [t],
                             or_tasks := (or_tasks orch)(tk_id t \<mapsto> a),
                             or_actors := or_actors orch @ [Runner a ToStaging]\<rparr>))))"

text \<open>A cancellation looks the task up, then acts on its cell.\<close>

definition request_cancel :: "string \<Rightarrow> string \<Rightarrow> Orchestrator \<Rightarrow> OrchestratorError option \<times> Orchestrator" where
  "request_cancel task_id reason orch =
     (case or_tasks orch task_id of
        None \<Rightarrow> (Some (TaskNotFound task_id), orch)
      | Some a \<Rightarrow> (None, orch\<lparr>or_actors := or_actors orch @ [Canceller a (CancelTask reason)]\<rparr>))"

fun cancel_task :: "orch_config \<Rightarrow> step_env \<Rightarrow> nat \<Rightarrow> cancel_pc \<Rightarrow> Orchestrator \<Rightarrow> cancel_pc \<times> Orchestrator" where
  "cancel_task cfg env a (CancelTask reason) orch =
     (case advance cfg env a (\<lambda>t. t\<lparr>tk_error := Some (''Cancelled: '' @ reason)\<rparr>) Cancelled orch of
        (Inl e, orch) \<Rightarrow> (CancelDone (Inl e), orch)
      | (Inr _, orch) \<Rightarrow> (CancelCleanup, orch))"
| "cancel_task cfg env a CancelCleanup orch =
     (case cleanup_vm (sv_exec env) (oc_executor cfg) (or_cells orch ! a) (or_world orch) of
        (Inl e, w) \<Rightarrow> (CancelDone (Inl (Executor e)), put_world w orch)
      | (Inr _, w) \<Rightarrow> (CancelDone (Inr ()), put_world w orch))"
| "cancel_task cfg env a (CancelDone r) orch = (CancelDone r, orch)"

fun step_actor :: "orch_config \<Rightarrow> step_env \<Rightarrow> actor \<Rightarrow> Orchestrator \<Rightarrow> actor \<times> Orchestrator" where
  "step_actor cfg env (Runner a pc) orch = map_prod (Runner a) id (execute_task_lifecycle cfg env a pc orch)"
| "step_actor cfg env (Canceller a pc) orch = map_prod (Canceller a) id (cancel_task cfg env a pc orch)"

datatype event =
  Submit step_env TaskManifest | CancelRequest string string | Watch string | Step nat step_env

fun orch_step :: "orch_config \<Rightarrow> Orchestrator \<Rightarrow> event \<Rightarrow> Orchestrator" where
  "orch_step cfg orch (Submit env manifest) = snd (submit_task cfg env manifest orch)"
| "orch_step cfg orch (CancelRequest task_id reason) = snd (request_cancel task_id reason orch)"
| "orch_step cfg orch (Watch task_id) = snd (start_monitoring task_id orch)"
| "orch_step cfg orch (Step i env) =
     (if i < length (or_actors orch)
      then case step_actor cfg env (or_actors orch ! i) orch of
             (act, orch') \<Rightarrow> orch'\<lparr>or_actors := (or_actors orch')[i := act]\<rparr>
      else orch)"

subsection \<open>Restart\<close>

fun restore_each ::
  "orch_config \<Rightarrow> io_env \<Rightarrow> string list \<Rightarrow> nat \<Rightarrow> Orchestrator \<Rightarrow> (OrchestratorError + nat) \<times> Orchestrator" where
  "restore_each cfg io [] n orch = (Inr n, orch)"
| "restore_each cfg io (task_id # rest) n orch =
     (case load io (oc_codec cfg) (oc_checkpoint_dir cfg) task_id (w_fs (or_world orch)) of
        Inl e \<Rightarrow> (Inl (Checkpoint e), orch)
      | Inr None \<Rightarrow> restore_each cfg io rest n orch
      | Inr (Some t) \<Rightarrow>
          restore_each cfg io rest (n + 1)
            (orch\<lparr>or_cells := or_cells orch @ [t], or_tasks := (or_tasks orch)(task_id \<mapsto> length (or_cells orch))\<rparr>))"

definition restore_from_checkpoints ::
  "orch_config \<Rightarrow> io_env \<Rightarrow> Orchestrator \<Rightarrow> (OrchestratorError + nat) \<times> Orchestrator" where
  "restore_from_checkpoints cfg io orch =
     (case list_checkpoints io (oc_checkpoint_dir cfg) (w_fs (or_world orch)) of
        Inl e \<Rightarrow> (Inl (Checkpoint e), orch)
      | Inr task_ids \<Rightarrow> restore_each cfg io task_ids 0 orch)"


subsection \<open>What one step does to a task\<close>

lemma lift_fs_commands: "lift_fs f w = (r, w') \<Longrightarrow> w_commands w' = w_commands w \<and> w_secrets w' = w_secrets w"
  by (auto simp: lift_fs_def split: prod.splits)

lemma put_cell_simps [simp]:
  "or_cells (put_cell a t orch) = (or_cells orch)[a := t]" "or_world (put_cell a t orch) = or_world orch"
  "or_tasks (put_cell a t orch) = or_tasks orch" "or_monitors (put_cell a t orch) = or_monitors orch"
  "or_actors (put_cell a t orch) = or_actors orch"
  by (simp_all add: put_cell_def)

lemma put_world_simps [simp]:
  "or_cells (put_world w orch) = or_cells orch" "or_world (put_world w orch) = w"
  "or_tasks (put_world w orch) = or_tasks orch" "or_monitors (put_world w orch) = or_monitors orch"
  "or_actors (put_world w orch) = or_actors orch"
  by (simp_all add: put_world_def)

text \<open>The parts of a task no step changes.\<close>

definition same_spec :: "Task \<Rightarrow> Task \<Rightarrow> bool" where
  "same_spec t t' \<longleftrightarrow> tk_id t' = tk_id t \<and> tk_task t' = tk_task t \<and> tk_lifecycle t' = tk_lifecycle t"

lemma same_spec_refl [simp]: "same_spec t t"
  by (simp add: same_spec_def)

lemma same_spec_trans: "same_spec t u \<Longrightarrow> same_spec u v \<Longrightarrow> same_spec t v"
  by (simp add: same_spec_def)

definition neutral :: "(Task \<Rightarrow> Task) \<Rightarrow> bool" where
  "neutral upd \<longleftrightarrow> (\<forall>t. tk_state (upd t) = tk_state t \<and> same_spec t (upd t))"

lemma neutral_updates [simp]:
  "neutral id" "neutral (\<lambda>t. t\<lparr>tk_error := e\<rparr>)" "neutral (\<lambda>t. t\<lparr>tk_exit_code := c\<rparr>)"
  "neutral (\<lambda>t. t\<lparr>tk_vm_name := n, tk_vm_ip := ip\<rparr>)"
  by (simp_all add: neutral_def same_spec_def)

lemma advance_cases:
  assumes "advance cfg env a upd next orch = (r, orch')"
  obtains (refused) "\<not> can_transition_to (tk_state (upd (or_cells orch ! a))) next"
      "r = Inl (InvalidTransition (state_text (tk_state (upd (or_cells orch ! a)))) (state_text next))"
      "orch' = put_cell a (upd (or_cells orch ! a)) orch"
  | (moved) t' w where "transition_to (sv_now env) next (upd (or_cells orch ! a)) = Inr t'"
      "w_commands w = w_commands (or_world orch)" "orch' = put_world w (put_cell a t' orch)"
      "r = Inr () \<or> (\<exists>e. r = Inl (Checkpoint e))"
proof (cases "transition_to (sv_now env) next (upd (or_cells orch ! a))")
  case (Inl e)
  with assms show thesis by (intro refused) (auto simp: advance_def transition_to_Inl)
next
  case (Inr t')
  with assms show thesis
    by (intro moved [of t' "or_world orch'"]) (auto simp: advance_def dest: lift_fs_commands split: sum.splits prod.splits)
qed

text \<open>A step of an actor on the cell \<open>a\<close>: at most that cell changes, along one transition.\<close>

definition cell_step :: "nat \<Rightarrow> Orchestrator \<Rightarrow> Orchestrator \<Rightarrow> bool" where
  "cell_step a orch orch' \<longleftrightarrow>
     (\<exists>t'. or_cells orch' = (or_cells orch)[a := t'] \<and> same_spec (or_cells orch ! a) t' \<and>
        (tk_state t' = tk_state (or_cells orch ! a) \<or> can_transition_to (tk_state (or_cells orch ! a)) (tk_state t'))) \<and>
     or_tasks orch' = or_tasks orch \<and> or_actors orch' = or_actors orch"

lemma cell_step_refl [simp]: "cell_step a orch (put_world w orch)" "cell_step a orch orch"
  by (auto simp: cell_step_def intro!: exI [of _ "or_cells orch ! a"])

lemma advance_cell_step:
  assumes "advance cfg env a upd next orch = (r, orch')" and "neutral upd"
  shows "cell_step a orch orch'"
  using assms(1)
proof (cases rule: advance_cases)
  case refused
  then show ?thesis using assms(2) by (auto simp: cell_step_def neutral_def)
next
  case (moved t' w)
  have "same_spec (upd (or_cells orch ! a)) t'"
    using moved(1) by (auto simp: transition_to_def same_spec_def split: if_splits)
  with moved assms(2) transition_to_Inr [OF moved(1)] show ?thesis
    by (auto simp: cell_step_def neutral_def intro: same_spec_trans)
qed

lemma advance_state:
  assumes "advance cfg env a upd next orch = (r, orch')" and "neutral upd" and "a < length (or_cells orch)"
  shows "r = Inr () \<Longrightarrow> tk_state (or_cells orch' ! a) = next"
    and "tk_state (or_cells orch' ! a) \<in> {tk_state (or_cells orch ! a), next}"
proof -
  show "r = Inr () \<Longrightarrow> tk_state (or_cells orch' ! a) = next"
    using assms(1) by (cases rule: advance_cases) (use assms(3) in \<open>auto dest: transition_to_Inr\<close>)
  show "tk_state (or_cells orch' ! a) \<in> {tk_state (or_cells orch ! a), next}"
    using assms(1) by (cases rule: advance_cases) (use assms(2,3) in \<open>auto simp: neutral_def dest: transition_to_Inr\<close>)
qed


subsection \<open>The runner and its task agree\<close>

text \<open>The task states a runner may find at each of its points.\<close>

fun allowed :: "runner_pc \<Rightarrow> TaskState set" where
  "allowed ToStaging = {Pending, Cancelled}"
| "allowed Stage = {Staging, Cancelled}"
| "allowed ToProvisioning = {Staging, Cancelled}"
| "allowed Provision = {Provisioning, Cancelled}"
| "allowed (ToReady i) = {Provisioning, Cancelled}"
| "allowed ToRunning = {Ready, Cancelled}"
| "allowed StartMonitor = {Running, Cancelled}"
| "allowed Execute = {Running, Cancelled}"
| "allowed (StopMonitor r) = {Running, Cancelled}"
| "allowed (HandleOk c) = {Running, Cancelled}"
| "allowed (HandleErr e) = {Running, Cancelled}"
| "allowed (CollectArtifacts c) = {Completing, Cancelled}"
| "allowed (ToCompleted c) = {Completing, Cancelled}"
| "allowed CleanupOk = {Completed}"
| "allowed CleanupErr = {Failed}"
| "allowed (RunnerDone (Inr u)) = {Completed, Failed, FailedPreserved}"
| "allowed (RunnerDone (Inl e)) = UNIV"
| "allowed RunnerPanicked = UNIV"

lemma allowed_cancel: "s \<in> allowed pc \<Longrightarrow> can_transition_to s Cancelled \<Longrightarrow> Cancelled \<in> allowed pc"
  by (cases pc rule: allowed.cases) auto

text \<open>The steps left before the runner has returned.\<close>

fun steps_left :: "runner_pc \<Rightarrow> nat" where
  "steps_left ToStaging = 13"
| "steps_left Stage = 12"
| "steps_left ToProvisioning = 11"
| "steps_left Provision = 10"
| "steps_left (ToReady i) = 9"
| "steps_left ToRunning = 8"
| "steps_left StartMonitor = 7"
| "steps_left Execute = 6"
| "steps_left (StopMonitor r) = 5"
| "steps_left (HandleOk c) = 4"
| "steps_left (CollectArtifacts c) = 3"
| "steps_left (ToCompleted c) = 2"
| "steps_left CleanupOk = 1"
| "steps_left (HandleErr e) = 2"
| "steps_left CleanupErr = 1"
| "steps_left (RunnerDone r) = 0"
| "steps_left RunnerPanicked = 0"

lemma runner_try_cases:
  "runner_try r pc = (pc', orch') \<Longrightarrow> (\<exists>e. r = (Inl e, orch') \<and> pc' = RunnerDone (Inl e)) \<or> r = (Inr (), orch') \<and> pc' = pc"
  by (auto simp: runner_try_def split: prod.splits sum.splits)

lemma runner_try_step:
  assumes "runner_try (advance cfg env a upd next orch) pc = (pc', orch')" and "a < length (or_cells orch)"
    and "neutral upd" and "next \<in> allowed pc"
  shows "cell_step a orch orch' \<and> tk_state (or_cells orch' ! a) \<in> allowed pc' \<and> steps_left pc' \<le> steps_left pc"
proof -
  obtain r where adv: "advance cfg env a upd next orch = (r, orch')"
    and pc': "(\<exists>e. r = Inl e \<and> pc' = RunnerDone (Inl e)) \<or> r = Inr () \<and> pc' = pc"
    using runner_try_cases [OF assms(1)] by auto
  then show ?thesis
    using advance_cell_step [OF adv assms(3)] advance_state(1) [OF adv assms(3,2)] assms(4) by auto
qed

lemma monitor_step [simp]:
  "cell_step a orch (snd (start_monitoring i orch))" "cell_step a orch (stop_monitoring i orch)"
  "or_cells (snd (start_monitoring i orch)) = or_cells orch" "or_cells (stop_monitoring i orch) = or_cells orch"
  by (auto simp: start_monitoring_def stop_monitoring_def cell_step_def intro!: exI [of _ "or_cells orch ! a"])

lemma lifecycle_step:
  assumes "execute_task_lifecycle cfg env a pc orch = (pc', orch')" and "a < length (or_cells orch)"
    and "tk_state (or_cells orch ! a) \<in> allowed pc"
  shows "cell_step a orch orch' \<and> tk_state (or_cells orch' ! a) \<in> allowed pc' \<and>
    (steps_left pc' < steps_left pc \<or> steps_left pc = 0 \<and> pc' = pc)"
  using assms
  by (cases pc) (auto dest!: runner_try_step split: prod.splits sum.splits option.splits if_splits)


lemma cancel_step:
  assumes "cancel_task cfg env a pc orch = (pc', orch')" and "a < length (or_cells orch)"
  shows "cell_step a orch orch' \<and> tk_state (or_cells orch' ! a) \<in> {tk_state (or_cells orch ! a), Cancelled}"
proof (cases pc)
  case (CancelTask reason)
  with assms(1) obtain r where adv: "advance cfg env a (\<lambda>t. t\<lparr>tk_error := Some (''Cancelled: '' @ reason)\<rparr>) Cancelled orch = (r, orch')"
    by (auto split: prod.splits sum.splits)
  show ?thesis
    using advance_cell_step [OF adv] advance_state(2) [OF adv _ assms(2)] by simp
qed (use assms in \<open>auto split: prod.splits sum.splits\<close>)

subsection \<open>The invariant of every interleaving\<close>

fun runner_addr :: "actor \<Rightarrow> nat option" where
  "runner_addr (Runner a pc) = Some a"
| "runner_addr (Canceller a pc) = None"

fun actor_ok :: "Task list \<Rightarrow> actor \<Rightarrow> bool" where
  "actor_ok cells (Runner a pc) \<longleftrightarrow> a < length cells \<and> tk_state (cells ! a) \<in> allowed pc"
| "actor_ok cells (Canceller a pc) \<longleftrightarrow> a < length cells"

definition runners_distinct :: "actor list \<Rightarrow> bool" where
  "runners_distinct acts \<longleftrightarrow> (\<forall>i < length acts. \<forall>j < length acts. i \<noteq> j \<longrightarrow>
     runner_addr (acts ! i) \<noteq> None \<longrightarrow> runner_addr (acts ! i) \<noteq> runner_addr (acts ! j))"

definition orch_inv :: "Orchestrator \<Rightarrow> bool" where
  "orch_inv orch \<longleftrightarrow>
     (\<forall>i a. or_tasks orch i = Some a \<longrightarrow> a < length (or_cells orch) \<and> tk_id (or_cells orch ! a) = i) \<and>
     (\<forall>i < length (or_actors orch). actor_ok (or_cells orch) (or_actors orch ! i)) \<and>
     runners_distinct (or_actors orch)"

lemma cell_step_others:
  assumes "cell_step a orch orch'"
  shows "length (or_cells orch') = length (or_cells orch)" and "b \<noteq> a \<Longrightarrow> or_cells orch' ! b = or_cells orch ! b"
    and "or_tasks orch' = or_tasks orch" and "or_actors orch' = or_actors orch"
    and "a < length (or_cells orch) \<Longrightarrow> same_spec (or_cells orch ! a) (or_cells orch' ! a)"
    and "a < length (or_cells orch) \<Longrightarrow> tk_state (or_cells orch' ! a) = tk_state (or_cells orch ! a) \<or>
           can_transition_to (tk_state (or_cells orch ! a)) (tk_state (or_cells orch' ! a))"
  using assms by (auto simp: cell_step_def)

lemma cell_step_spec: "cell_step a orch orch' \<Longrightarrow> b < length (or_cells orch) \<Longrightarrow> same_spec (or_cells orch ! b) (or_cells orch' ! b)"
  by (cases "b = a") (simp_all add: cell_step_others)

lemma inv_actor: "orch_inv orch \<Longrightarrow> i < length (or_actors orch) \<Longrightarrow> actor_ok (or_cells orch) (or_actors orch ! i)"
  by (simp add: orch_inv_def)

lemma inv_other_addr:
  "orch_inv orch \<Longrightarrow> i < length (or_actors orch) \<Longrightarrow> j < length (or_actors orch) \<Longrightarrow> j \<noteq> i \<Longrightarrow>
   or_actors orch ! i = Runner a pc \<Longrightarrow> runner_addr (or_actors orch ! j) \<noteq> Some a"
  unfolding orch_inv_def runners_distinct_def by (metis option.distinct(1) runner_addr.simps(1))

lemma actor_ok_kept:
  "actor_ok (or_cells orch) act \<Longrightarrow> cell_step a orch orch' \<Longrightarrow> runner_addr act \<noteq> Some a \<Longrightarrow> actor_ok (or_cells orch') act"
  by (cases act) (simp_all add: cell_step_others)

lemma actor_ok_cancel:
  assumes "actor_ok (or_cells orch) act" and "cell_step a orch orch'" and "a < length (or_cells orch)"
    and "tk_state (or_cells orch' ! a) \<in> {tk_state (or_cells orch ! a), Cancelled}"
  shows "actor_ok (or_cells orch') act"
proof (cases "runner_addr act = Some a")
  case True
  then obtain pc where act: "act = Runner a pc" by (cases act) auto
  have "tk_state (or_cells orch' ! a) \<in> allowed pc"
    using assms(1,4) cell_step_others(6) [OF assms(2,3)] allowed_cancel [of "tk_state (or_cells orch ! a)" pc]
    unfolding act by auto
  with assms(3) show ?thesis by (simp add: act cell_step_others(1) [OF assms(2)])
qed (use assms actor_ok_kept in blast)

text \<open>One actor's step: the cell it acts on, the actor afterwards and the other actors.\<close>

lemma step_actor_ok:
  assumes "step_actor cfg env (or_actors orch ! i) orch = (act, orch')" and "orch_inv orch"
    and "i < length (or_actors orch)"
  obtains a where "cell_step a orch orch'" "a < length (or_cells orch)" "actor_ok (or_cells orch') act"
    "runner_addr act = runner_addr (or_actors orch ! i)"
    "\<And>j. j < length (or_actors orch) \<Longrightarrow> j \<noteq> i \<Longrightarrow> actor_ok (or_cells orch') (or_actors orch ! j)"
proof (cases "or_actors orch ! i")
  case (Runner a pc)
  then obtain pc' where run: "execute_task_lifecycle cfg env a pc orch = (pc', orch')" and act: "act = Runner a pc'"
    using assms(1) by (cases "execute_task_lifecycle cfg env a pc orch") simp
  have ok: "a < length (or_cells orch)" "tk_state (or_cells orch ! a) \<in> allowed pc"
    using inv_actor [OF assms(2,3)] Runner by simp_all
  note st = lifecycle_step [OF run ok]
  show thesis
  proof (rule that [of a])
    show "actor_ok (or_cells orch') (or_actors orch ! j)" if "j < length (or_actors orch)" "j \<noteq> i" for j
      using actor_ok_kept [OF inv_actor [OF assms(2) that(1)]] inv_other_addr [OF assms(2,3) that Runner] st by blast
  qed (use st ok act Runner cell_step_others(1) [of a orch orch'] in simp_all)
next
  case (Canceller a pc)
  then obtain pc' where run: "cancel_task cfg env a pc orch = (pc', orch')" and act: "act = Canceller a pc'"
    using assms(1) by (cases "cancel_task cfg env a pc orch") simp
  have ok: "a < length (or_cells orch)" using inv_actor [OF assms(2,3)] Canceller by simp
  note st = cancel_step [OF run ok]
  show thesis
  proof (rule that [of a])
    show "actor_ok (or_cells orch') (or_actors orch ! j)" if "j < length (or_actors orch)" for j
      using actor_ok_cancel [OF inv_actor [OF assms(2) that]] st ok by blast
  qed (use st ok act Canceller cell_step_others(1) [of a orch orch'] in simp_all)
qed


lemma submit_cases:
  assumes "submit_task cfg env m orch = (r, orch')"
  obtains (refused) e where "r = Inl e" "or_cells orch' = or_cells orch" "or_tasks orch' = or_tasks orch" "or_actors orch' = or_actors orch"
  | (accepted) t where "r = Inr (tk_id t)" "tk_state t = Pending" "tk_id t = mm_id (tm_metadata m)"
      "or_cells orch' = or_cells orch @ [t]" "or_tasks orch' = (or_tasks orch)(tk_id t \<mapsto> length (or_cells orch))"
      "or_actors orch' = or_actors orch @ [Runner (length (or_cells orch)) ToStaging]"
proof (cases "and_then (map_sum Manifest id (validate m)) (\<lambda>_. from_manifest (sv_now env) m)")
  case (Inl e)
  with assms show thesis by (auto simp: submit_task_def intro: refused)
next
  case (Inr t)
  then have "tk_state t = Pending" and "tk_id t = mm_id (tm_metadata m)"
    by (auto simp: and_then_Inr from_manifest_def)
  with Inr assms show thesis
    by (auto simp: submit_task_def Let_def intro: refused accepted [of t] split: sum.splits prod.splits)
qed

lemma runners_distinct_append:
  "runners_distinct acts \<Longrightarrow> (\<forall>i < length acts. runner_addr act \<noteq> None \<longrightarrow> runner_addr (acts ! i) \<noteq> runner_addr act) \<Longrightarrow>
   runners_distinct (acts @ [act])"
  unfolding runners_distinct_def by (simp add: less_Suc_eq all_conj_distrib nth_append) metis

lemma runners_distinct_update:
  "runners_distinct acts \<Longrightarrow> runner_addr act = runner_addr (acts ! i) \<Longrightarrow> runners_distinct (acts[i := act])"
  unfolding runners_distinct_def by (cases "i < length acts") (auto simp: nth_list_update)

lemma actor_ok_append: "actor_ok cells act \<Longrightarrow> actor_ok (cells @ [t]) act"
  by (cases act) (simp_all add: nth_append)

lemma actor_ok_addr: "actor_ok cells act \<Longrightarrow> runner_addr act \<noteq> Some (length cells)"
  by (cases act) simp_all

lemma inv_step_actor:
  assumes "orch_inv orch" and "i < length (or_actors orch)" and "step_actor cfg env (or_actors orch ! i) orch = (act, orch')"
  shows "orch_inv (orch'\<lparr>or_actors := (or_actors orch')[i := act]\<rparr>)"
proof -
  from assms(3,1,2) obtain a where st: "cell_step a orch orch'" "a < length (or_cells orch)" "actor_ok (or_cells orch') act"
    "runner_addr act = runner_addr (or_actors orch ! i)"
    "\<And>j. j < length (or_actors orch) \<Longrightarrow> j \<noteq> i \<Longrightarrow> actor_ok (or_cells orch') (or_actors orch ! j)"
    by (rule step_actor_ok) blast
  have "tk_id (or_cells orch' ! b) = tk_id (or_cells orch ! b)" if "b < length (or_cells orch)" for b
    using cell_step_spec [OF st(1) that] by (simp add: same_spec_def)
  then show ?thesis
    using assms(1,2) st cell_step_others [OF st(1)] runners_distinct_update [OF _ st(4)]
    unfolding orch_inv_def by (simp add: nth_list_update)
qed

lemma inv_orch_step: "orch_inv orch \<Longrightarrow> orch_inv (orch_step cfg orch ev)"
proof (cases ev)
  case (Submit env m)
  assume inv: "orch_inv orch"
  obtain r orch' where sub: "submit_task cfg env m orch = (r, orch')" by fastforce
  from sub show ?thesis
  proof (cases rule: submit_cases)
    case (accepted t)
    have "runners_distinct (or_actors orch')"
      unfolding accepted using inv actor_ok_addr inv_actor [OF inv]
      by (intro runners_distinct_append) (auto simp: orch_inv_def)
    then show ?thesis
      using inv by (auto simp: orch_inv_def Submit sub accepted nth_append less_Suc_eq actor_ok_append dest: less_imp_le)
  qed (use inv Submit sub in \<open>simp add: orch_inv_def\<close>)
next
  case (CancelRequest i reason)
  assume "orch_inv orch"
  then show ?thesis
    by (auto simp: CancelRequest request_cancel_def orch_inv_def nth_append less_Suc_eq intro!: runners_distinct_append split: option.splits)
next
  case (Watch i)
  assume "orch_inv orch"
  then show ?thesis by (simp add: Watch orch_inv_def start_monitoring_def)
next
  case (Step i env)
  assume "orch_inv orch"
  then show ?thesis
    by (cases "step_actor cfg env (or_actors orch ! i) orch") (simp add: Step inv_step_actor)
qed

lemma inv_new [simp]: "orch_inv (new_orchestrator env s)"
  by (simp add: orch_inv_def new_orchestrator_def runners_distinct_def)

interpretation orch: op_system "orch_step cfg" orch_inv for cfg
  by unfold_locales (rule inv_orch_step)


subsection \<open>Runs\<close>

lemma event_cell:
  assumes "orch_inv orch" and "b < length (or_cells orch)"
  shows "b < length (or_cells (orch_step cfg orch ev)) \<and> same_spec (or_cells orch ! b) (or_cells (orch_step cfg orch ev) ! b) \<and>
    (tk_state (or_cells (orch_step cfg orch ev) ! b) = tk_state (or_cells orch ! b) \<or>
     can_transition_to (tk_state (or_cells orch ! b)) (tk_state (or_cells (orch_step cfg orch ev) ! b)))"
proof (cases ev)
  case (Submit env m)
  obtain r orch' where sub: "submit_task cfg env m orch = (r, orch')" by fastforce
  from sub show ?thesis
    by (cases rule: submit_cases) (use assms(2) in \<open>simp_all add: Submit sub nth_append\<close>)
next
  case (CancelRequest i reason)
  then show ?thesis using assms(2) by (simp add: request_cancel_def split: option.splits)
next
  case (Watch i)
  then show ?thesis using assms(2) by simp
next
  case (Step i env)
  show ?thesis
  proof (cases "i < length (or_actors orch)")
    case True
    obtain act orch' where st: "step_actor cfg env (or_actors orch ! i) orch = (act, orch')" by fastforce
    from st assms(1) True obtain a where cs: "cell_step a orch orch'" "a < length (or_cells orch)"
      by (rule step_actor_ok) blast
    show ?thesis
      using cell_step_others [OF cs(1)] cs(2) cell_step_spec [OF cs(1) assms(2)] assms(2)
      by (cases "b = a") (simp_all add: Step True st)
  qed (use assms(2) Step in simp)
qed

definition settled :: "Orchestrator \<Rightarrow> nat \<Rightarrow> TaskState option" where
  "settled orch a =
     (if a < length (or_cells orch) \<and> is_terminal (tk_state (or_cells orch ! a)) then Some (tk_state (or_cells orch ! a)) else None)"

interpretation orch_final: final_outcomes "orch_step cfg" orch_inv settled for cfg
proof unfold_locales
  fix orch ev a v
  assume "orch_inv orch" and "settled orch a = Some v"
  then show "settled (orch_step cfg orch ev) a = Some v"
    using event_cell [of orch a cfg ev] task_states.terminal_stuck
    by (auto simp: settled_def split: if_splits)
qed

text \<open>An actor keeps its kind and its cell; a runner only moves on, and does when it is scheduled.\<close>

lemma event_runner:
  assumes "orch_inv orch" and "i < length (or_actors orch)" and "or_actors orch ! i = Runner a pc"
  obtains pc' where "i < length (or_actors (orch_step cfg orch ev))" "or_actors (orch_step cfg orch ev) ! i = Runner a pc'"
    "steps_left pc' \<le> steps_left pc" "(\<exists>env. ev = Step i env) \<Longrightarrow> steps_left pc' < steps_left pc \<or> steps_left pc = 0"
proof (cases ev)
  case (Submit env m)
  obtain r orch' where sub: "submit_task cfg env m orch = (r, orch')" by fastforce
  from sub show thesis
    by (cases rule: submit_cases) (use assms(2,3) in \<open>auto intro!: that [of pc] simp: Submit sub nth_append\<close>)
next
  case (CancelRequest j reason)
  then show thesis
    using assms(2,3) by (intro that [of pc]) (simp_all add: request_cancel_def nth_append split: option.splits)
next
  case (Watch j)
  then show thesis using assms(2,3) by (intro that [of pc]) (simp_all add: start_monitoring_def)
next
  case (Step j env)
  show thesis
  proof (cases "j < length (or_actors orch)")
    case True
    obtain act orch' where st: "step_actor cfg env (or_actors orch ! j) orch = (act, orch')" by fastforce
    from st assms(1) True obtain b where cs: "cell_step b orch orch'" by (rule step_actor_ok) blast
    note acts = cell_step_others(4) [OF cs]
    show thesis
    proof (cases "j = i")
      case True
      then obtain pc' where run: "execute_task_lifecycle cfg env a pc orch = (pc', orch')" "act = Runner a pc'"
        using st assms(3) by (cases "execute_task_lifecycle cfg env a pc orch") simp
      have "steps_left pc' < steps_left pc \<or> steps_left pc = 0 \<and> pc' = pc"
        using lifecycle_step [OF run(1)] inv_actor [OF assms(1,2)] assms(3) by simp
      then show thesis using assms(2) run(2) True st acts by (intro that [of pc']) (auto simp: Step)
    qed (use assms(2,3) True st acts in \<open>auto intro!: that [of pc] simp: Step\<close>)
  qed (use assms(2,3) Step in \<open>auto intro!: that [of pc]\<close>)
qed

definition steps_of :: "nat \<Rightarrow> event list \<Rightarrow> nat" where
  "steps_of i evs = length (filter (\<lambda>ev. case ev of Step j env \<Rightarrow> j = i | _ \<Rightarrow> False) evs)"

lemma steps_of_simps [simp]: "steps_of i [] = 0"
  "steps_of i (ev # evs) = (case ev of Step j env \<Rightarrow> if j = i then 1 else 0 | _ \<Rightarrow> 0) + steps_of i evs"
  by (simp_all add: steps_of_def split: event.splits)

lemma run_runner:
  assumes "orch_inv orch" and "i < length (or_actors orch)" and "or_actors orch ! i = Runner a pc"
  shows "\<exists>pc'. i < length (or_actors (run (orch_step cfg) orch evs)) \<and> or_actors (run (orch_step cfg) orch evs) ! i = Runner a pc' \<and>
    steps_left pc' \<le> steps_left pc - steps_of i evs"
  using assms
proof (induction evs arbitrary: orch pc)
  case (Cons ev evs)
  obtain pc1 where 1: "i < length (or_actors (orch_step cfg orch ev))" "or_actors (orch_step cfg orch ev) ! i = Runner a pc1"
    "steps_left pc1 \<le> steps_left pc" "(\<exists>env. ev = Step i env) \<Longrightarrow> steps_left pc1 < steps_left pc \<or> steps_left pc = 0"
    using event_runner [OF Cons.prems] by metis
  obtain pc2 where 2: "i < length (or_actors (run (orch_step cfg) (orch_step cfg orch ev) evs))"
    "or_actors (run (orch_step cfg) (orch_step cfg orch ev) evs) ! i = Runner a pc2" "steps_left pc2 \<le> steps_left pc1 - steps_of i evs"
    using Cons.IH [OF inv_orch_step [OF Cons.prems(1)] 1(1,2)] by blast
  have "steps_left pc1 \<le> steps_left pc - (case ev of Step j env \<Rightarrow> if j = i then 1 else 0 | _ \<Rightarrow> 0)"
    using 1(3,4) by (cases ev) auto
  with 2(3) have "steps_left pc2 \<le> steps_left pc - steps_of i (ev # evs)" by (auto split: event.splits)
  with 2 show ?case by auto
qed simp

lemma steps_left_zero: "steps_left pc = 0 \<longleftrightarrow> pc = RunnerPanicked \<or> (\<exists>r. pc = RunnerDone r)"
  by (cases pc) simp_all

lemma steps_left_max: "steps_left pc \<le> 13"
  by (cases pc) simp_all


subsection \<open>The undisturbed run\<close>

text \<open>Every external call of the task's steps succeeds.\<close>

definition good_env :: "orch_config \<Rightarrow> Task \<Rightarrow> step_env \<Rightarrow> bool" where
  "good_env cfg t0 env \<longleftrightarrow> (\<forall>t w s. same_spec t0 t \<longrightarrow>
     fst (stage_task (sv_exec env) (oc_executor cfg) t w) = Inr () \<and>
     (\<exists>info w'. provision_vm (sv_exec env) (oc_executor cfg) t w = Some (Inr info, w')) \<and>
     (tk_vm_ip t \<noteq> None \<longrightarrow> (\<exists>code w'. execute_provider (sv_exec env) (oc_executor cfg) t w = Some (Inr code, w'))) \<and>
     fst (collect_artifacts (sv_exec env) t w) = Inr () \<and>
     fst (cleanup_vm (sv_exec env) (oc_executor cfg) t w) = Inr () \<and>
     fst (save (ee_io (sv_exec env)) (oc_codec cfg) (oc_checkpoint_dir cfg) t s) = Inr ())"

fun on_course :: "runner_pc \<Rightarrow> Task \<Rightarrow> bool" where
  "on_course ToStaging t \<longleftrightarrow> tk_state t = Pending"
| "on_course Stage t \<longleftrightarrow> tk_state t = Staging"
| "on_course ToProvisioning t \<longleftrightarrow> tk_state t = Staging"
| "on_course Provision t \<longleftrightarrow> tk_state t = Provisioning"
| "on_course (ToReady i) t \<longleftrightarrow> tk_state t = Provisioning"
| "on_course ToRunning t \<longleftrightarrow> tk_state t = Ready \<and> tk_vm_ip t \<noteq> None"
| "on_course StartMonitor t \<longleftrightarrow> tk_state t = Running \<and> tk_vm_ip t \<noteq> None"
| "on_course Execute t \<longleftrightarrow> tk_state t = Running \<and> tk_vm_ip t \<noteq> None"
| "on_course (StopMonitor r) t \<longleftrightarrow> tk_state t = Running \<and> \<not> isl r"
| "on_course (HandleOk c) t \<longleftrightarrow> tk_state t = Running"
| "on_course (CollectArtifacts c) t \<longleftrightarrow> tk_state t = Completing"
| "on_course (ToCompleted c) t \<longleftrightarrow> tk_state t = Completing"
| "on_course CleanupOk t \<longleftrightarrow> tk_state t = Completed"
| "on_course (RunnerDone r) t \<longleftrightarrow> tk_state t = Completed \<and> \<not> isl r"
| "on_course _ t \<longleftrightarrow> False"

lemma good_advance:
  assumes "good_env cfg t0 env" and "same_spec t0 (or_cells orch ! a)" and "neutral upd" and "a < length (or_cells orch)"
    and "can_transition_to (tk_state (or_cells orch ! a)) next"
  obtains orch' where "\<And>pc. runner_try (advance cfg env a upd next orch) pc = (pc, orch')"
    "tk_state (or_cells orch' ! a) = next" "tk_vm_ip (or_cells orch' ! a) = tk_vm_ip (upd (or_cells orch ! a))"
proof -
  let ?t = "upd (or_cells orch ! a)"
  obtain t' where t': "transition_to (sv_now env) next ?t = Inr t'" "tk_state t' = next" "tk_vm_ip t' = tk_vm_ip ?t" "same_spec ?t t'"
    using assms(3,5) by (auto simp: transition_to_def neutral_def same_spec_def)
  have "same_spec t0 t'"
    using assms(2,3) t'(4) same_spec_trans unfolding neutral_def by blast
  then have "fst (save (ee_io (sv_exec env)) (oc_codec cfg) (oc_checkpoint_dir cfg) t' (w_fs (or_world orch))) = Inr ()"
    using assms(1) unfolding good_env_def by blast
  then obtain w where w: "lift_fs (save (ee_io (sv_exec env)) (oc_codec cfg) (oc_checkpoint_dir cfg) t') (or_world orch) = (Inr (), w)"
    by (cases "save (ee_io (sv_exec env)) (oc_codec cfg) (oc_checkpoint_dir cfg) t' (w_fs (or_world orch))")
      (simp add: lift_fs_def)
  have "advance cfg env a upd next orch = (Inr (), put_world w (put_cell a t' orch))"
    by (simp add: advance_def t'(1) w)
  then show thesis using assms(4) t' by (intro that [of "put_world w (put_cell a t' orch)"]) (simp_all add: runner_try_def)
qed

lemma course_step:
  assumes "execute_task_lifecycle cfg env a pc orch = (pc', orch')" and "a < length (or_cells orch)"
    and "good_env cfg t0 env" and "same_spec t0 (or_cells orch ! a)" and "on_course pc (or_cells orch ! a)"
  shows "on_course pc' (or_cells orch' ! a)"
proof -
  note good = assms(3) [unfolded good_env_def, rule_format, OF assms(4), of "or_world orch" "w_fs (or_world orch)"]
  have adv: "on_course pc2 (or_cells orch2 ! a)"
    if "runner_try (advance cfg env a upd next orch) pc1 = (pc2, orch2)" "neutral upd"
      "can_transition_to (tk_state (or_cells orch ! a)) next"
      "\<And>t. tk_state t = next \<Longrightarrow> tk_vm_ip t = tk_vm_ip (upd (or_cells orch ! a)) \<Longrightarrow> on_course pc1 t"
    for upd "next" pc1 pc2 orch2
    using good_advance [OF assms(3,4) that(2) assms(2) that(3)] that(1,4) by (metis prod.inject)
  show ?thesis
    using assms(1,5) good
    by (cases pc) (auto elim!: adv split: prod.splits sum.splits)
qed

fun actor_addr :: "actor \<Rightarrow> nat" where
  "actor_addr (Runner a pc) = a"
| "actor_addr (Canceller a pc) = a"

lemma step_actor_cell:
  assumes "step_actor cfg env (or_actors orch ! i) orch = (act, orch')" and "orch_inv orch" and "i < length (or_actors orch)"
  shows "cell_step (actor_addr (or_actors orch ! i)) orch orch' \<and> actor_addr act = actor_addr (or_actors orch ! i) \<and>
    runner_addr act = runner_addr (or_actors orch ! i)"
proof (cases "or_actors orch ! i")
  case (Runner a pc)
  with assms(1) inv_actor [OF assms(2,3)] lifecycle_step [of cfg env a pc orch _ orch'] show ?thesis
    by (cases "execute_task_lifecycle cfg env a pc orch") auto
next
  case (Canceller a pc)
  with assms(1) inv_actor [OF assms(2,3)] cancel_step [of cfg env a pc orch _ orch'] show ?thesis
    by (cases "cancel_task cfg env a pc orch") auto
qed

lemma nth_update_addr: "actor_addr act = actor_addr (acts ! j) \<Longrightarrow> actor_addr (acts[j := act] ! k) = actor_addr (acts ! k)"
  by (cases "j < length acts"; cases "k = j") (simp_all add: nth_list_update list_update_beyond)

text \<open>Nobody else acts on the cell.\<close>

definition undisturbed :: "Orchestrator \<Rightarrow> nat \<Rightarrow> nat \<Rightarrow> bool" where
  "undisturbed orch i a \<longleftrightarrow> (\<forall>j < length (or_actors orch). j \<noteq> i \<longrightarrow> actor_addr (or_actors orch ! j) \<noteq> a)"

definition completing :: "Task \<Rightarrow> nat \<Rightarrow> nat \<Rightarrow> Orchestrator \<Rightarrow> bool" where
  "completing t0 i a orch \<longleftrightarrow> i < length (or_actors orch) \<and> undisturbed orch i a \<and> same_spec t0 (or_cells orch ! a) \<and>
     (\<exists>pc. or_actors orch ! i = Runner a pc \<and> on_course pc (or_cells orch ! a))"

lemma completing_actor:
  assumes "orch_inv orch" and "completing t0 i a orch" and "j < length (or_actors orch)"
    and "step_actor cfg env (or_actors orch ! j) orch = (act, orch')" and "j = i \<Longrightarrow> good_env cfg t0 env"
  shows "completing t0 i a (orch'\<lparr>or_actors := (or_actors orch')[j := act]\<rparr>)"
proof -
  obtain pc where i: "i < length (or_actors orch)" "or_actors orch ! i = Runner a pc" "on_course pc (or_cells orch ! a)"
    and others: "undisturbed orch i a" and spec: "same_spec t0 (or_cells orch ! a)"
    using assms(2) by (auto simp: completing_def)
  have a: "a < length (or_cells orch)" using inv_actor [OF assms(1) i(1)] i(2) by simp
  note cs = step_actor_cell [OF assms(4,1,3)]
  have frame: "or_actors orch' = or_actors orch" "same_spec t0 (or_cells orch' ! a)"
    using cs cell_step_others(4) cell_step_spec [OF _ a] spec same_spec_trans by blast+
  have und: "undisturbed (orch'\<lparr>or_actors := (or_actors orch')[j := act]\<rparr>) i a"
    using others cs by (simp add: undisturbed_def frame nth_update_addr)
  show ?thesis
  proof (cases "j = i")
    case True
    then obtain pc' where run: "execute_task_lifecycle cfg env a pc orch = (pc', orch')" "act = Runner a pc'"
      using assms(4) i(2) by (cases "execute_task_lifecycle cfg env a pc orch") auto
    have "on_course pc' (or_cells orch' ! a)" by (rule course_step [OF run(1) a assms(5) [OF True] spec i(3)])
    with True run(2) i(1) und frame show ?thesis by (simp add: completing_def)
  next
    case False
    then have "or_cells orch' ! a = or_cells orch ! a"
      using others assms(3) cell_step_others(2) [OF conjunct1 [OF cs]] unfolding undisturbed_def by metis
    with False i und frame show ?thesis by (simp add: completing_def)
  qed
qed

lemma completing_step:
  assumes "orch_inv orch" and "completing t0 i a orch"
    and "\<And>env. ev = Step i env \<Longrightarrow> good_env cfg t0 env" and "\<And>r. ev \<noteq> CancelRequest (tk_id t0) r"
  shows "completing t0 i a (orch_step cfg orch ev)"
proof -
  obtain pc where i: "i < length (or_actors orch)" "or_actors orch ! i = Runner a pc" "on_course pc (or_cells orch ! a)"
    and others: "undisturbed orch i a" and spec: "same_spec t0 (or_cells orch ! a)"
    using assms(2) by (auto simp: completing_def)
  have a: "a < length (or_cells orch)" using inv_actor [OF assms(1) i(1)] i(2) by simp
  show ?thesis
  proof (cases ev)
    case (Submit env m)
    obtain r orch' where sub: "submit_task cfg env m orch = (r, orch')" by fastforce
    from sub show ?thesis
      by (cases rule: submit_cases)
        (use i others spec a in \<open>auto simp: Submit sub completing_def undisturbed_def nth_append less_Suc_eq\<close>)
  next
    case (CancelRequest j reason)
    then have "or_tasks orch j \<noteq> Some a" using assms(1,4) spec unfolding orch_inv_def same_spec_def by metis
    then show ?thesis
      using i others spec
      by (auto simp: CancelRequest request_cancel_def completing_def undisturbed_def nth_append less_Suc_eq split: option.splits)
  next
    case (Watch j)
    then show ?thesis using i others spec by (simp add: completing_def undisturbed_def start_monitoring_def)
  next
    case (Step j env)
    obtain act orch' where "step_actor cfg env (or_actors orch ! j) orch = (act, orch')" by fastforce
    then show ?thesis
      using completing_actor [OF assms(1,2)] assms(2,3) by (simp add: Step)
  qed
qed

lemma completing_run:
  assumes "orch_inv orch" and "completing t0 i a orch"
    and "\<forall>env. Step i env \<in> set evs \<longrightarrow> good_env cfg t0 env" and "\<forall>r. CancelRequest (tk_id t0) r \<notin> set evs"
  shows "completing t0 i a (run (orch_step cfg) orch evs)"
  using assms
proof (induction evs arbitrary: orch)
  case (Cons ev evs)
  have "completing t0 i a (orch_step cfg orch ev)"
    by (rule completing_step [OF Cons.prems(1,2)]) (use Cons.prems(3,4) in auto)
  then show ?case using Cons.IH [OF inv_orch_step [OF Cons.prems(1)]] Cons.prems(3,4) by simp
qed simp


subsection \<open>Virtual machines of completed tasks\<close>

text \<open>No operation forgets a command that was started.\<close>

lemma run_command_keeps: "run_command env prog args w = (r, w') \<Longrightarrow> c \<in> set (w_commands w) \<Longrightarrow> c \<in> set (w_commands w')"
  by (auto simp: run_command_def started_def split: sum.splits)

lemma run_command_keeps': "c \<in> set (w_commands w) \<Longrightarrow> c \<in> set (w_commands (snd (run_command env prog args w)))"
  by (cases "run_command env prog args w") (simp add: run_command_keeps)

lemma lift_fs_keeps: "w_commands (snd (lift_fs f w)) = w_commands w"
  by (simp add: lift_fs_def split: prod.splits)

lemma try_io_keeps:
  assumes "c \<in> set (w_commands (snd m))"
    and "\<And>x w. c \<in> set (w_commands w) \<Longrightarrow> c \<in> set (w_commands (snd (k x w)))"
  shows "c \<in> set (w_commands (snd (try_io m conv k)))"
  using assms by (auto simp: try_io_def split: prod.splits sum.splits)

lemmas keeps = run_command_keeps' try_io_keeps

lemma stage_task_keeps: "c \<in> set (w_commands w) \<Longrightarrow> c \<in> set (w_commands (snd (stage_task env ex t w)))"
  unfolding stage_task_def Let_def
  by (auto split: prod.splits sum.splits if_splits option.splits simp: lift_fs_keeps intro!: try_io_keeps
      dest!: run_command_keeps)

lemma cleanup_vm_keeps: "c \<in> set (w_commands w) \<Longrightarrow> c \<in> set (w_commands (snd (cleanup_vm env ex t w)))"
  by (simp add: cleanup_vm_commands)

lemma provision_vm_keeps:
  "provision_vm env ex t w = Some (r, w') \<Longrightarrow> c \<in> set (w_commands w) \<Longrightarrow> c \<in> set (w_commands w')"
  unfolding provision_vm_def Let_def
  by (auto split: prod.splits sum.splits if_splits option.splits dest!: run_command_keeps)

lemma execute_provider_keeps:
  "execute_provider env ex t w = Some (r, w') \<Longrightarrow> c \<in> set (w_commands w) \<Longrightarrow> c \<in> set (w_commands w')"
  unfolding execute_provider_def Let_def
  by (auto split: prod.splits sum.splits option.splits)

lemma collect_artifacts_keeps: "c \<in> set (w_commands w) \<Longrightarrow> c \<in> set (w_commands (snd (collect_artifacts env t w)))"
  unfolding collect_artifacts_def collect_git_patch_def Let_def
  by (auto simp: lift_fs_keeps intro!: keeps)

lemma advance_keeps: "w_commands (or_world (snd (advance cfg env a upd next orch))) = w_commands (or_world orch)"
  by (auto simp: advance_def Let_def dest: lift_fs_commands split: sum.splits prod.splits)

lemma advance_keeps': "advance cfg env a upd next orch = (r, orch') \<Longrightarrow> w_commands (or_world orch') = w_commands (or_world orch)"
  using advance_keeps [of cfg env a upd "next" orch] by simp

lemma runner_try_world: "or_world (snd (runner_try r pc)) = or_world (snd r)"
  by (simp add: runner_try_def split: prod.splits sum.splits)

lemma monitor_world [simp]: "or_world (snd (start_monitoring i orch)) = or_world orch" "or_world (stop_monitoring i orch) = or_world orch"
  by (simp_all add: start_monitoring_def stop_monitoring_def)

lemma lifecycle_keeps:
  assumes "c \<in> set (w_commands (or_world orch))"
  shows "c \<in> set (w_commands (or_world (snd (execute_task_lifecycle cfg env a pc orch))))"
  using assms
  by (cases pc)
    (auto simp: runner_try_world advance_keeps cleanup_vm_keeps dest: provision_vm_keeps execute_provider_keeps
      stage_task_keeps [of c _ "sv_exec env" "oc_executor cfg" "or_cells orch ! a"]
      collect_artifacts_keeps [of c _ "sv_exec env" "or_cells orch ! a"]
      cleanup_vm_keeps [of c _ "sv_exec env" "oc_executor cfg" "or_cells orch ! a"]
      split: prod.splits sum.splits option.splits)

lemma cancel_keeps:
  assumes "c \<in> set (w_commands (or_world orch))"
  shows "c \<in> set (w_commands (or_world (snd (cancel_task cfg env a pc orch))))"
  using assms
  by (cases pc)
    (auto split: prod.splits sum.splits
      dest!: advance_keeps'
      dest: cleanup_vm_keeps [of c _ "sv_exec env" "oc_executor cfg" "or_cells orch ! a"])

fun vm_ok :: "string \<Rightarrow> (string \<times> string list) set \<Rightarrow> runner_pc \<Rightarrow> Task \<Rightarrow> bool" where
  "vm_ok d cmds (RunnerDone (Inr u)) t \<longleftrightarrow>
     (\<exists>n. tk_vm_name t = Some n \<and> (tk_state t = Completed \<longrightarrow> (d, [n]) \<in> cmds))"
| "vm_ok d cmds pc t \<longleftrightarrow>
     (case pc of
        RunnerDone r \<Rightarrow> True | RunnerPanicked \<Rightarrow> True | ToStaging \<Rightarrow> True | Stage \<Rightarrow> True | ToProvisioning \<Rightarrow> True
      | Provision \<Rightarrow> True | ToReady i \<Rightarrow> True | _ \<Rightarrow> tk_vm_name t \<noteq> None)"

abbreviation commands :: "Orchestrator \<Rightarrow> (string \<times> string list) set" where
  "commands orch \<equiv> set (w_commands (or_world orch))"

lemma vm_ok_mono: "vm_ok d A pc t \<Longrightarrow> A \<subseteq> B \<Longrightarrow> tk_vm_name t' = tk_vm_name t \<Longrightarrow>
    (tk_state t' = Completed \<longrightarrow> tk_state t = Completed) \<Longrightarrow> vm_ok d B pc t'"
  by (cases pc rule: allowed.cases) auto

lemma advance_vm:
  assumes "advance cfg env a upd next orch = (r, orch')" and "a < length (or_cells orch)"
  shows "tk_vm_name (or_cells orch' ! a) = tk_vm_name (upd (or_cells orch ! a))"
  using assms(1) by (cases rule: advance_cases) (use assms(2) in \<open>auto dest: transition_to_Inr\<close>)

lemma runner_try_vm:
  assumes "runner_try (advance cfg env a upd next orch) pc = (pc', orch')" and "a < length (or_cells orch)"
    and "neutral upd" and "pc \<in> {Stage, Provision} \<or> tk_vm_name (upd (or_cells orch ! a)) \<noteq> None"
    and "next \<noteq> Completed \<or> pc = CleanupOk"
  shows "vm_ok d (commands orch') pc' (or_cells orch' ! a)"
proof -
  obtain r where adv: "advance cfg env a upd next orch = (r, orch')"
    and pc': "(\<exists>e. r = Inl e \<and> pc' = RunnerDone (Inl e)) \<or> r = Inr () \<and> pc' = pc"
    using runner_try_cases [OF assms(1)] by auto
  show ?thesis
    using pc' advance_vm [OF adv assms(2)] advance_state(1) [OF adv assms(3,2)] assms(4,5)
    by (cases pc rule: allowed.cases) auto
qed

lemma cleanup_done: "cleanup_vm env ex t w = (Inr u, w') \<Longrightarrow> tk_vm_name t = Some n \<Longrightarrow> (ex_destroy_script ex, [n]) \<in> set (w_commands w')"
  by (auto simp: cleanup_vm_def run_command_def started_def split: sum.splits prod.splits)

lemma lifecycle_vm:
  assumes "execute_task_lifecycle cfg env a pc orch = (pc', orch')" and "a < length (or_cells orch)"
    and "tk_state (or_cells orch ! a) \<in> allowed pc"
    and "vm_ok (ex_destroy_script (oc_executor cfg)) (commands orch) pc (or_cells orch ! a)"
  shows "vm_ok (ex_destroy_script (oc_executor cfg)) (commands orch') pc' (or_cells orch' ! a)"
  using assms
  by (cases pc)
    (auto elim!: runner_try_vm dest: cleanup_done split: prod.splits sum.splits option.splits if_splits)

lemma cancel_vm:
  assumes "cancel_task cfg env a pc orch = (pc', orch')" and "a < length (or_cells orch)"
  shows "tk_vm_name (or_cells orch' ! a) = tk_vm_name (or_cells orch ! a)"
  using assms by (cases pc) (auto dest!: advance_vm split: prod.splits sum.splits)

fun actor_vm_ok :: "string \<Rightarrow> Orchestrator \<Rightarrow> actor \<Rightarrow> bool" where
  "actor_vm_ok d orch (Runner a pc) = vm_ok d (commands orch) pc (or_cells orch ! a)"
| "actor_vm_ok d orch (Canceller a pc) = True"

definition vm_inv :: "orch_config \<Rightarrow> Orchestrator \<Rightarrow> bool" where
  "vm_inv cfg orch \<longleftrightarrow> (\<forall>i < length (or_actors orch). actor_vm_ok (ex_destroy_script (oc_executor cfg)) orch (or_actors orch ! i))"

lemma actor_vm_ok_kept:
  assumes "actor_vm_ok d orch act" and "commands orch \<subseteq> commands orch'"
    and "\<And>b. runner_addr act = Some b \<Longrightarrow> tk_vm_name (or_cells orch' ! b) = tk_vm_name (or_cells orch ! b) \<and>
          (tk_state (or_cells orch' ! b) = Completed \<longrightarrow> tk_state (or_cells orch ! b) = Completed)"
  shows "actor_vm_ok d orch' act"
  using assms by (cases act) (auto elim: vm_ok_mono)

lemma step_actor_vm:
  assumes "step_actor cfg env (or_actors orch ! i) orch = (act, orch')" and "orch_inv orch" and "vm_inv cfg orch"
    and "i < length (or_actors orch)"
  shows "actor_vm_ok (ex_destroy_script (oc_executor cfg)) orch' act \<and>
    (\<forall>j < length (or_actors orch). j \<noteq> i \<longrightarrow> actor_vm_ok (ex_destroy_script (oc_executor cfg)) orch' (or_actors orch ! j))"
proof (cases "or_actors orch ! i")
  case (Runner a pc)
  then obtain pc' where run: "execute_task_lifecycle cfg env a pc orch = (pc', orch')" and act: "act = Runner a pc'"
    using assms(1) by (cases "execute_task_lifecycle cfg env a pc orch") simp
  have ok: "a < length (or_cells orch)" "tk_state (or_cells orch ! a) \<in> allowed pc"
    using inv_actor [OF assms(2,4)] Runner by simp_all
  have kept: "commands orch \<subseteq> commands orch'" using lifecycle_keeps [of _ orch cfg env a pc] run by auto
  have "actor_vm_ok (ex_destroy_script (oc_executor cfg)) orch' act"
    using lifecycle_vm [OF run ok] assms(3,4) Runner unfolding vm_inv_def act by force
  moreover have "actor_vm_ok (ex_destroy_script (oc_executor cfg)) orch' (or_actors orch ! j)"
    if j: "j < length (or_actors orch)" "j \<noteq> i" for j
  proof (rule actor_vm_ok_kept [OF _ kept])
    show "actor_vm_ok (ex_destroy_script (oc_executor cfg)) orch (or_actors orch ! j)" using assms(3) j by (simp add: vm_inv_def)
  qed (use inv_other_addr [OF assms(2,4) j Runner] lifecycle_step [OF run ok] cell_step_others(2) in metis)
  ultimately show ?thesis by blast
next
  case (Canceller a pc)
  then obtain pc' where run: "cancel_task cfg env a pc orch = (pc', orch')" and act: "act = Canceller a pc'"
    using assms(1) by (cases "cancel_task cfg env a pc orch") simp
  have a: "a < length (or_cells orch)" using inv_actor [OF assms(2,4)] Canceller by simp
  have kept: "commands orch \<subseteq> commands orch'" using cancel_keeps [of _ orch cfg env a pc] run by auto
  have "tk_vm_name (or_cells orch' ! b) = tk_vm_name (or_cells orch ! b) \<and>
      (tk_state (or_cells orch' ! b) = Completed \<longrightarrow> tk_state (or_cells orch ! b) = Completed)" for b
    using cancel_vm [OF run a] cancel_step [OF run a] cell_step_others(2) [of a orch orch' b] by (cases "b = a") auto
  then have "actor_vm_ok (ex_destroy_script (oc_executor cfg)) orch' (or_actors orch ! j)" if "j < length (or_actors orch)" for j
    using actor_vm_ok_kept [OF _ kept] assms(3) that unfolding vm_inv_def by blast
  then show ?thesis by (simp add: act)
qed

lemma actor_vm_ok_frame:
  assumes "actor_ok (or_cells orch) act" and "actor_vm_ok d orch act" and "commands orch \<subseteq> commands orch'"
    and "or_cells orch' = or_cells orch @ ts"
  shows "actor_vm_ok d orch' act"
  using assms by (cases act) (auto simp: nth_append elim: vm_ok_mono)

lemma submit_commands: "w_commands (or_world (snd (submit_task cfg env m orch))) = w_commands (or_world orch)"
  by (auto simp: submit_task_def Let_def dest!: lift_fs_commands split: sum.splits prod.splits)

lemma vm_inv_step:
  assumes "orch_inv orch" and "vm_inv cfg orch"
  shows "vm_inv cfg (orch_step cfg orch ev)"
proof (cases ev)
  case (Submit env m)
  obtain r orch' where sub: "submit_task cfg env m orch = (r, orch')" by fastforce
  have cmds: "commands orch \<subseteq> commands orch'" using submit_commands [of cfg env m orch] sub by simp
  have old: "actor_vm_ok d orch' (or_actors orch ! i)"
    if "actor_vm_ok d orch (or_actors orch ! i)" "i < length (or_actors orch)" "\<exists>ts. or_cells orch' = or_cells orch @ ts" for i d
    using actor_vm_ok_frame [OF inv_actor [OF assms(1) that(2)] that(1) cmds] that(3) by blast
  from sub show ?thesis
    by (cases rule: submit_cases) (use assms(2) old in \<open>auto simp: Submit sub vm_inv_def nth_append less_Suc_eq\<close>)
next
  case (CancelRequest i reason)
  have "actor_vm_ok d (orch\<lparr>or_actors := acts\<rparr>) act = actor_vm_ok d orch act" for d acts act
    by (cases act) simp_all
  with assms(2) show ?thesis
    by (auto simp: CancelRequest request_cancel_def vm_inv_def nth_append less_Suc_eq split: option.splits)
next
  case (Watch i)
  have "actor_vm_ok d (orch\<lparr>or_monitors := ms\<rparr>) act = actor_vm_ok d orch act" for d ms act
    by (cases act) simp_all
  with assms(2) show ?thesis by (simp add: Watch vm_inv_def start_monitoring_def)
next
  case (Step i env)
  have "actor_vm_ok d (orch'\<lparr>or_actors := acts\<rparr>) act = actor_vm_ok d orch' act" for d orch' acts act
    by (cases act) simp_all
  moreover obtain act orch' where st: "step_actor cfg env (or_actors orch ! i) orch = (act, orch')" by fastforce
  ultimately show ?thesis
    using step_actor_vm [OF st assms] step_actor_cell [OF st assms(1)] assms(2) cell_step_others(4)
    by (auto simp: Step vm_inv_def nth_list_update)
qed

lemma vm_inv_run: "orch_inv orch \<Longrightarrow> vm_inv cfg orch \<Longrightarrow> vm_inv cfg (run (orch_step cfg) orch evs)"
  by (rule orch.inv_run_rel) (auto intro: vm_inv_step)


subsection \<open>Properties of every run\<close>

abbreviation orch_run :: "orch_config \<Rightarrow> secret_env \<Rightarrow> fs \<Rightarrow> event list \<Rightarrow> Orchestrator" where
  "orch_run cfg senv s evs \<equiv> run (orch_step cfg) (new_orchestrator senv s) evs"

lemma orch_run_inv: "orch_inv (orch_run cfg senv s evs)"
  by (rule orch.inv_run) simp

lemma orch_run_vm: "vm_inv cfg (orch_run cfg senv s evs)"
  by (rule vm_inv_run [OF inv_new]) (simp add: vm_inv_def new_orchestrator_def)

text \<open>A concrete task, environment and configuration.\<close>

definition demo_manifest :: TaskManifest where
  "demo_manifest =
     \<lparr>tm_version = ''1'', tm_kind = ''Task'',
      tm_metadata = \<lparr>mm_id = ''task-0001'', mm_name = ''demo'', mm_labels = Map.empty\<rparr>,
      tm_repository = tk_repository demo_task, tm_task = tk_task demo_task, tm_vm = default_vm_config,
      tm_secrets = [], tm_lifecycle = default_lifecycle_config, tm_parent_id = None,
      tm_children = tk_children demo_task\<rparr>"

definition demo_env :: step_env where
  "demo_env =
     \<lparr>sv_now = 0,
      sv_exec = \<lparr>ee_io = io_ok, ee_secret = demo_secret_env,
        ee_command = (\<lambda>prog args. Inr \<lparr>out_code = Some 0, out_stdout = [], out_stderr = []\<rparr>),
        ee_effect = (\<lambda>prog args. put_file (vm_info_path (last args)) ''j''),
        ee_ssh = (\<lambda>args. Inr \<lparr>ssh_stdout = [], ssh_stderr = [], ssh_wait = Inr (Some 0)\<rparr>),
        ee_parse_json = (\<lambda>x. Inr (JObj [(''ip'', JStr ''10.0.0.2''), (''management'', JObj [(''ssh_key_path'', JStr ''k'')])])),
        ee_hash_order = id, ee_glob = (\<lambda>p. Inr [])\<rparr>\<rparr>"

definition demo_config :: orch_config where
  "demo_config = new_config \<lparr>task_to_string = (\<lambda>t. Inr ''x''), task_from_str = (\<lambda>x. Inl ''none'')\<rparr> demo_secret_env ''/t'' ''/s''"

lemma demo_validate: "validate demo_manifest = Inr ()"
  unfolding validate_ok
  by (simp add: demo_manifest_def demo_task_def default_vm_config_def default_lifecycle_config_def starts_with_def ends_with_def)

lemma demo_from_manifest: "from_manifest 0 demo_manifest = Inr demo_task"
  by (simp add: from_manifest_def demo_manifest_def demo_task_def)

lemma demo_save: "fst (save io_ok (oc_codec demo_config) d t s) = Inr ()"
  by (simp add: save_def demo_config_def new_config_def sys_create_def sys_append_def sys_sync_def sys_rename_def io_ok_def Let_def)

lemma io_ok_simps [simp]: "io_fail io_ok op p = None"
  by (simp add: io_ok_def)

lemma demo_mkdir: "fst (create_task_directory io_ok st i s) = Inr ()"
  by (simp add: create_task_directory_def sys_mkdir_all_def sys_create_def Let_def)

lemma lift_fs_fst [simp]: "fst (lift_fs f w) = fst (f (w_fs w))"
  by (simp add: lift_fs_def split: prod.splits)

lemma lift_fs_ok: "fst (f (w_fs w)) = Inr () \<Longrightarrow> \<exists>w'. lift_fs f w = (Inr (), w')"
  by (cases "f (w_fs w)") (simp add: lift_fs_def)

lemma demo_submit:
  "\<exists>w. submit_task demo_config demo_env demo_manifest (new_orchestrator demo_secret_env empty_fs) =
     (Inr ''task-0001'',
      \<lparr>or_world = w, or_cells = [demo_task], or_tasks = [''task-0001'' \<mapsto> 0], or_monitors = {},
       or_actors = [Runner 0 ToStaging]\<rparr>)"
proof -
  have id: "tk_id demo_task = ''task-0001''" by (simp add: demo_task_def)
  obtain w1 where 1: "lift_fs (create_task_directory io_ok (oc_storage demo_config) ''task-0001'')
      (or_world (new_orchestrator demo_secret_env empty_fs)) = (Inr (), w1)"
    using lift_fs_ok [of "create_task_directory io_ok (oc_storage demo_config) ''task-0001''", OF demo_mkdir] by blast
  obtain w2 where 2: "lift_fs (save io_ok (oc_codec demo_config) (oc_checkpoint_dir demo_config) demo_task) w1 = (Inr (), w2)"
    using lift_fs_ok [of "save io_ok (oc_codec demo_config) (oc_checkpoint_dir demo_config) demo_task", OF demo_save] by blast
  show ?thesis
    using 1 2 by (simp add: submit_task_def demo_validate demo_env_def demo_from_manifest id Let_def)
      (simp add: new_orchestrator_def)
qed

lemma demo_good: "good_env demo_config demo_task demo_env"
proof -
  have cmd: "run_command (sv_exec demo_env) prog args w =
      (Inr \<lparr>out_code = Some 0, out_stdout = [], out_stderr = []\<rparr>, started (sv_exec demo_env) prog args w)" for prog args w
    by (simp add: run_command_def demo_env_def)
  have prompt: "fst (write_task_prompt (ee_io (sv_exec demo_env)) st i p s) = Inr ()" for st i p s
    by (simp add: write_task_prompt_def sys_write_file_def sys_create_def sys_append_def Let_def demo_env_def)
  have try_ok: "fst (try_io m conv (\<lambda>_ w. (Inr (), w))) = Inr ()" if "fst m = Inr ()" for m conv
    using that by (cases m) simp
  have stage: "fst (stage_task (sv_exec demo_env) ex t w) = Inr ()" for ex t w
    by (cases "repo_commit (tk_repository t)") (simp_all add: stage_task_def cmd success_def Let_def try_ok prompt)
  have prefix: "id_prefix (tk_id t) = Some ''task-000''" if "same_spec demo_task t" for t
    using that by (simp add: same_spec_def demo_task_def id_prefix_def is_char_boundary_def less_eq_char_def)
  have prov: "\<exists>info w'. provision_vm (sv_exec demo_env) ex t w = Some (Inr info, w')" if "same_spec demo_task t" for ex t w
    using that
    by (simp add: provision_vm_def prefix cmd success_def started_def sys_read_def vm_info_from_def provision_args_def Let_def)
      (simp add: demo_env_def jget_def vm_info_from_def)
  have exec: "\<exists>code w'. execute_provider (sv_exec demo_env) ex t w = Some (Inr code, w')"
    if "same_spec demo_task t" "tk_vm_ip t \<noteq> None" for ex t w
  proof -
    have "tc_provider (tk_task t) = ''claude''" using that(1) by (simp add: same_spec_def demo_task_def)
    with that(2) prefix [OF that(1)] show ?thesis
      by (auto simp: execute_provider_def provider_executor_def demo_env_def Let_def split: prod.splits)
  qed
  have "lc_artifact_patterns (tk_lifecycle t) = []" if "same_spec demo_task t" for t
    using that by (simp add: same_spec_def demo_task_def default_lifecycle_config_def)
  moreover have "fst (cleanup_vm (sv_exec demo_env) ex t w) = Inr ()" for ex t w
    by (cases "tk_vm_name t") (simp_all add: cleanup_vm_def cmd)
  moreover have "ee_io (sv_exec demo_env) = io_ok" by (simp add: demo_env_def)
  ultimately show ?thesis
    using stage prov exec demo_save unfolding good_env_def by (simp add: collect_artifacts_def)
qed

lemma completing_done:
  assumes "orch_inv orch" and "completing t0 i a orch"
    and "\<forall>env. Step i env \<in> set evs \<longrightarrow> good_env cfg t0 env" and "\<forall>r. CancelRequest (tk_id t0) r \<notin> set evs"
    and "13 \<le> steps_of i evs"
  shows "i < length (or_actors (run (orch_step cfg) orch evs))"
    and "or_actors (run (orch_step cfg) orch evs) ! i = Runner a (RunnerDone (Inr ()))"
    and "tk_state (or_cells (run (orch_step cfg) orch evs) ! a) = Completed"
proof -
  let ?orch = "run (orch_step cfg) orch evs"
  have "completing t0 i a ?orch" by (rule completing_run [OF assms(1-4)])
  then obtain pc where pc: "i < length (or_actors ?orch)" "or_actors ?orch ! i = Runner a pc" "on_course pc (or_cells ?orch ! a)"
    by (auto simp: completing_def)
  obtain pc0 where "i < length (or_actors orch)" "or_actors orch ! i = Runner a pc0"
    using assms(2) by (auto simp: completing_def)
  then have "steps_left pc = 0"
    using run_runner [OF assms(1), of i a pc0 cfg evs] pc(2) assms(5) steps_left_max [of pc0] by auto
  with pc(3) obtain u where "pc = RunnerDone (Inr u)" and "tk_state (or_cells ?orch ! a) = Completed"
    by (cases pc rule: allowed.cases) auto
  with pc show "i < length (or_actors ?orch)" and "or_actors ?orch ! i = Runner a (RunnerDone (Inr ()))"
    and "tk_state (or_cells ?orch ! a) = Completed" by simp_all
qed

lemma demo_started:
  defines "orch \<equiv> orch_run demo_config demo_secret_env empty_fs [Submit demo_env demo_manifest]"
  shows "or_cells orch = [demo_task]" and "or_actors orch = [Runner 0 ToStaging]"
    and "completing demo_task 0 0 orch" and "undisturbed orch 0 0"
  using demo_submit by (auto simp: orch_def completing_def undisturbed_def demo_task_def)

definition demo_steps :: "event list" where
  "demo_steps = replicate 13 (Step 0 demo_env)"

lemma demo_steps_ok: "\<forall>env. Step 0 env \<in> set demo_steps \<longrightarrow> good_env demo_config demo_task env"
    "\<forall>r. CancelRequest j r \<notin> set demo_steps" "13 \<le> steps_of 0 demo_steps"
  by (auto simp: demo_steps_def demo_good steps_of_def)

lemma demo_done:
  defines "orch \<equiv> orch_run demo_config demo_secret_env empty_fs (Submit demo_env demo_manifest # demo_steps)"
  shows "0 < length (or_actors orch)" and "or_actors orch ! 0 = Runner 0 (RunnerDone (Inr ()))"
    and "tk_state (or_cells orch ! 0) = Completed"
  using completing_done [OF orch_run_inv demo_started(3) demo_steps_ok] by (simp_all add: orch_def)

text \<open>
  C7. An undisturbed task completes: if every external call made for it succeeds and nobody asks to
  cancel it, then once its runner has been scheduled thirteen times the task is completed, however
  its steps are interleaved with other submissions, runners, cancellations and log streams.
\<close>

theorem task_completes:
  assumes "i < length (or_actors (orch_run cfg senv s evs0))"
    and "or_actors (orch_run cfg senv s evs0) ! i = Runner a ToStaging"
    and "tk_state (or_cells (orch_run cfg senv s evs0) ! a) = Pending"
    and "undisturbed (orch_run cfg senv s evs0) i a"
    and "\<forall>env. Step i env \<in> set evs \<longrightarrow> good_env cfg (or_cells (orch_run cfg senv s evs0) ! a) env"
    and "\<forall>r. CancelRequest (tk_id (or_cells (orch_run cfg senv s evs0) ! a)) r \<notin> set evs"
    and "13 \<le> steps_of i evs"
  shows "tk_state (or_cells (orch_run cfg senv s (evs0 @ evs)) ! a) = Completed"
proof -
  have "completing (or_cells (orch_run cfg senv s evs0) ! a) i a (orch_run cfg senv s evs0)"
    using assms(1-4) by (simp add: completing_def)
  from completing_done(3) [OF orch_run_inv this assms(5-7)] show ?thesis by simp
qed

lemma task_completes_witness:
  "tk_state (or_cells (orch_run demo_config demo_secret_env empty_fs ([Submit demo_env demo_manifest] @ demo_steps)) ! 0) = Completed"
  by (rule task_completes [where i = 0]) (use demo_steps_ok in \<open>simp_all add: demo_started del: foldl.simps, simp_all add: demo_task_def\<close>)

text \<open>
  C15. Every runner returns: in any interleaving a runner that is scheduled thirteen times has
  finished, and if it finished without an error its task is completed or failed.
\<close>

theorem runner_returns:
  assumes "i < length (or_actors (orch_run cfg senv s evs0))"
    and "or_actors (orch_run cfg senv s evs0) ! i = Runner a pc" and "13 \<le> steps_of i evs"
  shows "\<exists>pc'. or_actors (orch_run cfg senv s (evs0 @ evs)) ! i = Runner a pc' \<and>
    (pc' = RunnerPanicked \<or> (\<exists>e. pc' = RunnerDone (Inl e)) \<or>
     pc' = RunnerDone (Inr ()) \<and>
     tk_state (or_cells (orch_run cfg senv s (evs0 @ evs)) ! a) \<in> {Completed, Failed, FailedPreserved})"
proof -
  let ?orch = "run (orch_step cfg) (orch_run cfg senv s evs0) evs"
  obtain pc' where pc': "i < length (or_actors ?orch)" "or_actors ?orch ! i = Runner a pc'" "steps_left pc' \<le> steps_left pc - 13"
    using run_runner [OF orch_run_inv assms(1,2)] assms(3) by fastforce
  then have left: "steps_left pc' = 0" using steps_left_max [of pc] by simp
  have "tk_state (or_cells ?orch ! a) \<in> allowed pc'"
    using inv_actor [OF orch.inv_run [OF orch_run_inv] pc'(1)] pc'(2) by simp
  with left have "pc' = RunnerPanicked \<or> (\<exists>e. pc' = RunnerDone (Inl e)) \<or>
     pc' = RunnerDone (Inr ()) \<and> tk_state (or_cells ?orch ! a) \<in> {Completed, Failed, FailedPreserved}"
    unfolding steps_left_zero by (cases pc' rule: allowed.cases) auto
  with pc'(2) show ?thesis by auto
qed

lemma runner_returns_witness:
  "\<exists>pc'. or_actors (orch_run demo_config demo_secret_env empty_fs ([Submit demo_env demo_manifest] @ demo_steps)) ! 0 = Runner 0 pc' \<and>
    (pc' = RunnerPanicked \<or> (\<exists>e. pc' = RunnerDone (Inl e)) \<or>
     pc' = RunnerDone (Inr ()) \<and>
     tk_state (or_cells (orch_run demo_config demo_secret_env empty_fs ([Submit demo_env demo_manifest] @ demo_steps)) ! 0)
       \<in> {Completed, Failed, FailedPreserved})"
  by (rule runner_returns [where pc = ToStaging]) (simp_all add: demo_started demo_steps_ok del: foldl.simps)

text \<open>
  C6. A settled task stays settled: once a task is completed, failed, preserved or cancelled, no
  interleaving of submissions, cancellations and runner steps gives it another state.
\<close>

theorem settled_task_final:
  assumes "a < length (or_cells (orch_run cfg senv s evs0))"
    and "is_terminal (tk_state (or_cells (orch_run cfg senv s evs0) ! a))"
  shows "a < length (or_cells (orch_run cfg senv s (evs0 @ evs))) \<and>
    tk_state (or_cells (orch_run cfg senv s (evs0 @ evs)) ! a) = tk_state (or_cells (orch_run cfg senv s evs0) ! a)"
  using orch_final.outcome_run [OF orch_run_inv, of cfg senv s evs0 a _ cfg evs] assms
  by (auto simp: settled_def split: if_splits)

lemma settled_task_final_witness:
  "tk_state (or_cells (orch_run demo_config demo_secret_env empty_fs
     ((Submit demo_env demo_manifest # demo_steps) @ [CancelRequest ''task-0001'' ''late'', Step 1 demo_env])) ! 0) = Completed"
proof -
  have "0 < length (or_cells (orch_run demo_config demo_secret_env empty_fs (Submit demo_env demo_manifest # demo_steps)))"
    using inv_actor [OF orch_run_inv demo_done(1)] by (simp only: demo_done(2) actor_ok.simps)
  then show ?thesis
    using settled_task_final [of 0 demo_config demo_secret_env empty_fs "Submit demo_env demo_manifest # demo_steps"] demo_done(3)
    by (simp add: is_terminal_def del: foldl.simps foldl_append)
qed

text \<open>
  C16. A completed task leaves no virtual machine: when a runner has returned without an error and
  its task is completed, the destroy script was started for the machine the task was given.
\<close>

theorem completed_vm_destroyed:
  assumes "i < length (or_actors (orch_run cfg senv s evs))"
    and "or_actors (orch_run cfg senv s evs) ! i = Runner a (RunnerDone (Inr ()))"
    and "tk_state (or_cells (orch_run cfg senv s evs) ! a) = Completed"
  shows "\<exists>n. tk_vm_name (or_cells (orch_run cfg senv s evs) ! a) = Some n \<and>
    (ex_destroy_script (oc_executor cfg), [n]) \<in> commands (orch_run cfg senv s evs)"
proof -
  have "actor_vm_ok (ex_destroy_script (oc_executor cfg)) (orch_run cfg senv s evs) (or_actors (orch_run cfg senv s evs) ! i)"
    using orch_run_vm [of cfg senv s evs] assms(1) unfolding vm_inv_def by blast
  with assms(2,3) show ?thesis by auto
qed

lemma completed_vm_destroyed_witness:
  "\<exists>n. tk_vm_name (or_cells (orch_run demo_config demo_secret_env empty_fs (Submit demo_env demo_manifest # demo_steps)) ! 0) = Some n \<and>
    (ex_destroy_script (oc_executor demo_config), [n]) \<in>
      commands (orch_run demo_config demo_secret_env empty_fs (Submit demo_env demo_manifest # demo_steps))"
  by (rule completed_vm_destroyed [OF demo_done])


subsection \<open>Where a task can be left behind\<close>

text \<open>A staging error ends the runner and the task stays in \<open>Staging\<close>.\<close>

lemma stage_error_leaves_staging:
  assumes "stage_task (sv_exec env) (oc_executor cfg) (or_cells orch ! a) (or_world orch) = (Inl e, w)"
  shows "fst (execute_task_lifecycle cfg env a Stage orch) = RunnerDone (Inl (Executor e))"
    and "or_cells (snd (execute_task_lifecycle cfg env a Stage orch)) = or_cells orch"
  by (simp_all add: assms)

text \<open>Cancelling a settled task is refused, after its error text was replaced.\<close>

lemma late_cancel_rewrites_error:
  assumes "a < length (or_cells orch)" and "is_terminal (tk_state (or_cells orch ! a))"
  shows "fst (cancel_task cfg env a (CancelTask reason) orch) =
      CancelDone (Inl (InvalidTransition (state_text (tk_state (or_cells orch ! a))) ''cancelled''))"
    and "tk_error (or_cells (snd (cancel_task cfg env a (CancelTask reason) orch)) ! a) = Some (''Cancelled: '' @ reason)"
  using assms task_states.terminal_stuck [OF assms(2), of Cancelled]
  by (simp_all add: advance_def transition_to_def)

text \<open>A cancellation that wins the race against provisioning leaves the new machine running.\<close>

lemma cancelled_before_ready:
  assumes "a < length (or_cells orch)" and "tk_state (or_cells orch ! a) = Cancelled"
  shows "fst (execute_task_lifecycle cfg env a (ToReady info) orch) = RunnerDone (Inl (InvalidTransition ''cancelled'' ''ready''))"
    and "tk_vm_name (or_cells (snd (execute_task_lifecycle cfg env a (ToReady info) orch)) ! a) = Some (vi_name info)"
    and "commands (snd (execute_task_lifecycle cfg env a (ToReady info) orch)) = commands orch"
  using assms by (simp_all add: advance_def transition_to_def runner_try_def)

text \<open>A restart brings the tasks back, but no runner.\<close>

lemma restore_each_actors: "or_actors (snd (restore_each cfg io ids n orch)) = or_actors orch"
  by (induction cfg io ids n orch rule: restore_each.induct) (auto split: sum.splits option.splits)

lemma restore_starts_no_runner: "or_actors (snd (restore_from_checkpoints cfg io orch)) = or_actors orch"
  by (simp add: restore_from_checkpoints_def restore_each_actors split: sum.splits)

subsection \<open>Restart\<close>

lemma restore_each_loads:
  assumes "\<And>i. i \<in> set ids \<Longrightarrow> \<exists>t. load io (oc_codec cfg) (oc_checkpoint_dir cfg) i (w_fs (or_world orch)) = Inr (Some t)"
    and "restored = (\<lambda>orch i. \<exists>a. or_tasks orch i = Some a \<and> a < length (or_cells orch) \<and>
           load io (oc_codec cfg) (oc_checkpoint_dir cfg) i (w_fs (or_world orch)) = Inr (Some (or_cells orch ! a)))"
    and "\<And>i. i \<in> A \<Longrightarrow> restored orch i"
  shows "\<exists>orch'. restore_each cfg io ids n orch = (Inr (n + length ids), orch') \<and> or_world orch' = or_world orch \<and>
    (\<forall>i \<in> A \<union> set ids. restored orch' i)"
  using assms(1,3)
proof (induction ids arbitrary: n orch A)
  case (Cons j ids)
  obtain t where t: "load io (oc_codec cfg) (oc_checkpoint_dir cfg) j (w_fs (or_world orch)) = Inr (Some t)"
    using Cons.prems(1) [of j] by auto
  let ?orch = "orch\<lparr>or_cells := or_cells orch @ [t], or_tasks := (or_tasks orch)(j \<mapsto> length (or_cells orch))\<rparr>"
  have "restored ?orch i" if "i \<in> insert j A" for i
    using that t Cons.prems(2) [of i] unfolding assms(2) by (cases "i = j") (auto simp: nth_append)
  then obtain orch' where "restore_each cfg io ids (n + 1) ?orch = (Inr (n + 1 + length ids), orch')"
    "or_world orch' = or_world ?orch" "\<forall>i \<in> insert j A \<union> set ids. restored orch' i"
    using Cons.IH [of ?orch "insert j A" "n + 1"] Cons.prems(1) by auto
  then show ?case using t by auto
qed auto

text \<open>
  A restart restores every checkpoint: when the checkpoint directory can be listed and each
  checkpoint loads, the restored table maps every listed id to a cell that holds exactly the
  checkpointed task, and the reported count is the number of checkpoints.
\<close>

theorem restart_restores_checkpoints:
  assumes "list_checkpoints io (oc_checkpoint_dir cfg) s = Inr ids"
    and "\<forall>i \<in> set ids. \<exists>t. load io (oc_codec cfg) (oc_checkpoint_dir cfg) i s = Inr (Some t)"
  shows "\<exists>orch. restore_from_checkpoints cfg io (new_orchestrator senv s) = (Inr (length ids), orch) \<and>
    (\<forall>i \<in> set ids. \<exists>a. or_tasks orch i = Some a \<and> a < length (or_cells orch) \<and>
       load io (oc_codec cfg) (oc_checkpoint_dir cfg) i s = Inr (Some (or_cells orch ! a)))"
proof -
  have w: "w_fs (or_world (new_orchestrator senv s)) = s" by (simp add: new_orchestrator_def)
  from restore_each_loads [OF _ refl, of ids io cfg "new_orchestrator senv s" "{}" 0] assms(2)
  show ?thesis by (auto simp: restore_from_checkpoints_def w assms(1))
qed

definition demo_disk :: fs where
  "demo_disk = \<lparr>fs_files = [(''/t/checkpoints/task-0001.checkpoint.json'', ''x'')], fs_dirs = [''/t/checkpoints'']\<rparr>"

lemma restart_restores_checkpoints_witness:
  "\<exists>orch. restore_from_checkpoints (new_config (one_task_codec demo_task) demo_secret_env ''/t'' ''/s'') io_ok
      (new_orchestrator demo_secret_env demo_disk) = (Inr 1, orch) \<and>
    (\<exists>a. or_tasks orch ''task-0001'' = Some a \<and> or_cells orch ! a = demo_task)"
proof -
  let ?cfg = "new_config (one_task_codec demo_task) demo_secret_env ''/t'' ''/s''"
  have dir: "oc_checkpoint_dir ?cfg = ''/t/checkpoints''" "oc_codec ?cfg = one_task_codec demo_task"
    by (simp_all add: new_config_def Let_def)
  have ids: "list_checkpoints io_ok ''/t/checkpoints'' demo_disk = Inr [''task-0001'']"
    using trim_end_str_once [of "''.checkpoint.json''" "''task-0001''"]
    by (simp add: list_checkpoints_def path_exists_def dir_entries_def List.map_filter_def entry_name_def demo_disk_def
        path_join_def starts_with_def ends_with_def Let_def)
  have ld: "load io_ok (one_task_codec demo_task) ''/t/checkpoints'' ''task-0001'' demo_disk = Inr (Some demo_task)"
    by (simp add: load_def path_exists_def sys_read_def checkpoint_path_def demo_disk_def path_join_def starts_with_def
        ends_with_def one_task_codec_def Let_def)
  show ?thesis
    using restart_restores_checkpoints [of io_ok ?cfg demo_disk "[''task-0001'']" demo_secret_env] ids ld
    by (auto simp: dir)
qed

end
