(* ===== verification/Fault_Tolerance.thy ===== *)
theory Fault_Tolerance
  imports Rust_Prelude
begin

section \<open>Circuit breaker, retries and timeouts (\<open>orchestrator/circuit_breaker.rs\<close>, \<open>retry.rs\<close>, \<open>timeouts.rs\<close>)\<close>

text \<open>
  The breaker's atomics are the fields of a record and its operations run one at a time; clock
  readings are arguments, in seconds. The retry loop calls an operation whose \<open>n\<close>-th result is
  \<open>f n\<close>; the length of its sleeps is floating-point and random and is left out. A panic is \<open>None\<close>.
\<close>

subsection \<open>Circuit breaker\<close>

datatype CircuitState = Closed | Open | HalfOpen

definition state_from_u8 :: "u8 \<Rightarrow> CircuitState" where
  "state_from_u8 v = (if v = 0 then Closed else if v = 1 then Open else if v = 2 then HalfOpen else Closed)"

fun state_to_u8 :: "CircuitState \<Rightarrow> u8" where
  "state_to_u8 Closed = 0"
| "state_to_u8 Open = 1"
| "state_to_u8 HalfOpen = 2"

record CircuitBreakerConfig =
  cb_failure_threshold :: u32
  cb_success_threshold :: u32
  cb_timeout :: u64
  cb_failure_window :: u64

definition default_breaker_config :: CircuitBreakerConfig where
  "default_breaker_config =
     \<lparr>cb_failure_threshold = 5, cb_success_threshold = 3, cb_timeout = 30, cb_failure_window = 60\<rparr>"

definition GITHUB_API :: CircuitBreakerConfig where
  "GITHUB_API = \<lparr>cb_failure_threshold = 3, cb_success_threshold = 2, cb_timeout = 30, cb_failure_window = 60\<rparr>"

definition CLAUDE_API :: CircuitBreakerConfig where
  "CLAUDE_API = \<lparr>cb_failure_threshold = 5, cb_success_threshold = 3, cb_timeout = 45, cb_failure_window = 90\<rparr>"

definition VM_PROVISION :: CircuitBreakerConfig where
  "VM_PROVISION = \<lparr>cb_failure_threshold = 2, cb_success_threshold = 1, cb_timeout = 60, cb_failure_window = 120\<rparr>"

record CircuitBreaker =
  cb_name :: string
  cb_state :: u8
  cb_failure_count :: u32
  cb_success_count :: u32
  cb_last_failure :: u64
  cb_config :: CircuitBreakerConfig

datatype 'e CircuitBreakerError = CircuitOpen string | ServiceError 'e

definition with_config :: "string \<Rightarrow> CircuitBreakerConfig \<Rightarrow> CircuitBreaker" where
  "with_config name config =
     \<lparr>cb_name = name, cb_state = state_to_u8 Closed, cb_failure_count = 0, cb_success_count = 0,
      cb_last_failure = 0, cb_config = config\<rparr>"

definition breaker_state :: "CircuitBreaker \<Rightarrow> CircuitState" where
  "breaker_state b = state_from_u8 (cb_state b)"

definition transition_to_open :: "CircuitBreaker \<Rightarrow> CircuitBreaker" where
  "transition_to_open b = b\<lparr>cb_state := state_to_u8 Open, cb_success_count := 0\<rparr>"

definition transition_to_half_open :: "CircuitBreaker \<Rightarrow> CircuitBreaker" where
  "transition_to_half_open b = b\<lparr>cb_state := state_to_u8 HalfOpen, cb_success_count := 0\<rparr>"

definition transition_to_closed :: "CircuitBreaker \<Rightarrow> CircuitBreaker" where
  "transition_to_closed b = b\<lparr>cb_state := state_to_u8 Closed, cb_failure_count := 0, cb_success_count := 0\<rparr>"

definition can_execute :: "u64 \<Rightarrow> CircuitBreaker \<Rightarrow> bool \<times> CircuitBreaker" where
  "can_execute now b =
     (case breaker_state b of
        Closed \<Rightarrow> (True, b)
      | Open \<Rightarrow>
          if cb_timeout (cb_config b) \<le> saturating_sub now (cb_last_failure b)
          then (True, transition_to_half_open b) else (False, b)
      | HalfOpen \<Rightarrow> (True, b))"

definition record_success :: "CircuitBreaker \<Rightarrow> CircuitBreaker" where
  "record_success b =
     (case breaker_state b of
        Closed \<Rightarrow> b\<lparr>cb_failure_count := 0\<rparr>
      | HalfOpen \<Rightarrow>
          let count = cb_success_count b + 1; b' = b\<lparr>cb_success_count := count\<rparr>
          in if cb_success_threshold (cb_config b) \<le> count then transition_to_closed b' else b'
      | Open \<Rightarrow> b)"

definition record_failure :: "u64 \<Rightarrow> CircuitBreaker \<Rightarrow> CircuitBreaker" where
  "record_failure now b =
     (let last = cb_last_failure b;
          count = (if 0 < last \<and> cb_failure_window (cb_config b) \<le> saturating_sub now last then 1
                   else cb_failure_count b + 1);
          b' = b\<lparr>cb_failure_count := count, cb_last_failure := now\<rparr>
      in case breaker_state b' of
           Closed \<Rightarrow> if cb_failure_threshold (cb_config b) \<le> count then transition_to_open b' else b'
         | HalfOpen \<Rightarrow> transition_to_open b'
         | Open \<Rightarrow> b')"

text \<open>\<open>now\<close> is read before the call and \<open>later\<close> after a failed one; \<open>f\<close> is the result of the call.\<close>

definition breaker_execute ::
  "u64 \<Rightarrow> u64 \<Rightarrow> 'e + 'a \<Rightarrow> CircuitBreaker \<Rightarrow> ('e CircuitBreakerError + 'a) \<times> CircuitBreaker" where
  "breaker_execute now later f b =
     (case can_execute now b of
        (False, b') \<Rightarrow> (Inl (CircuitOpen (''Circuit breaker '' @ [CHR 0x27] @ cb_name b @ [CHR 0x27] @ '' is open'')), b')
      | (True, b') \<Rightarrow>
          (case f of
             Inr result \<Rightarrow> (Inr result, record_success b')
           | Inl err \<Rightarrow> (Inl (ServiceError err), record_failure later b')))"

definition reset :: "CircuitBreaker \<Rightarrow> CircuitBreaker" where
  "reset b = b\<lparr>cb_state := state_to_u8 Closed, cb_failure_count := 0, cb_success_count := 0, cb_last_failure := 0\<rparr>"

subsection \<open>Retries\<close>

text \<open>The durations of the policy and its backoff factors do not influence the loop.\<close>

datatype 'e RetryError = ExhaustedRetries u32 'e | Permanent 'e

text \<open>
  \<open>to_lowercase\<close>, as far as ASCII patterns can tell: the two characters outside ASCII whose
  lower-case form has an ASCII letter are the Kelvin sign and the dotted capital I.
\<close>

fun lowercase :: "string \<Rightarrow> string" where
  "lowercase (a # b # c # s) =
     (if [a, b, c] = [CHR 0xE2, CHR 0x84, CHR 0xAA] then CHR ''k'' # lowercase s
      else if [a, b] = [CHR 0xC4, CHR 0xB0] then CHR ''i'' # CHR 0xCC # CHR 0x87 # lowercase (c # s)
      else to_ascii_lowercase [a] @ lowercase (b # c # s))"
| "lowercase [a, b] =
     (if [a, b] = [CHR 0xC4, CHR 0xB0] then [CHR ''i'', CHR 0xCC, CHR 0x87] else to_ascii_lowercase [a, b])"
| "lowercase s = to_ascii_lowercase s"

definition transient_patterns :: "string list" where
  "transient_patterns =
     [''timeout'', ''connection refused'', ''connection reset'', ''temporarily unavailable'',
      ''network unreachable'', ''dns'', ''rate limit'', ''429'', ''503'', ''504'']"

definition permanent_patterns :: "string list" where
  "permanent_patterns =
     [''404'', ''not found'', ''401'', ''unauthorized'', ''403'', ''forbidden'', ''invalid'', ''parse'', ''malformed'']"

definition is_likely_retryable :: "string \<Rightarrow> bool" where
  "is_likely_retryable error_text =
     (let s = lowercase error_text
      in if list_ex (\<lambda>p. contains_str p s) transient_patterns then True
         else if list_ex (\<lambda>p. contains_str p s) permanent_patterns then False
         else True)"

text \<open>The attempts \<open>attempt, \<dots>, max\<close>, with the error of the previous one; the calls made are counted.\<close>

function retry_loop ::
  "nat \<Rightarrow> ('e \<Rightarrow> bool) \<Rightarrow> (nat \<Rightarrow> 'e + 'a) \<Rightarrow> nat \<Rightarrow> 'e option \<Rightarrow> (('e RetryError + 'a) \<times> nat) option" where
  "retry_loop max_attempts retryable f attempt last_error =
     (if attempt \<le> max_attempts
      then (case f attempt of
              Inr result \<Rightarrow> Some (Inr result, attempt)
            | Inl error \<Rightarrow>
                if \<not> retryable error then Some (Inl (Permanent error), attempt)
                else retry_loop max_attempts retryable f (attempt + 1) (Some error))
      else (case last_error of
              None \<Rightarrow> None
            | Some e \<Rightarrow> Some (Inl (ExhaustedRetries (of_nat max_attempts) e), attempt - 1)))"
  by pat_completeness auto
termination
  by (relation "measure (\<lambda>(m, r, f, a, l). Suc m - a)") auto

declare retry_loop.simps [simp del]

definition retry_execute :: "u32 \<Rightarrow> ('e \<Rightarrow> bool) \<Rightarrow> (nat \<Rightarrow> 'e + 'a) \<Rightarrow> (('e RetryError + 'a) \<times> nat) option" where
  "retry_execute max_attempts is_retryable f = retry_loop (unat max_attempts) is_retryable f 1 None"

definition execute_heuristic :: "u32 \<Rightarrow> ('e \<Rightarrow> string) \<Rightarrow> (nat \<Rightarrow> 'e + 'a) \<Rightarrow> (('e RetryError + 'a) \<times> nat) option" where
  "execute_heuristic max_attempts to_string f =
     retry_loop (unat max_attempts) (\<lambda>e. is_likely_retryable (to_string e)) f 1 None"

subsection \<open>Timeouts\<close>

text \<open>\<open>u64::from_str\<close>: an optional plus sign and decimal digits, in range.\<close>

definition parse_u64 :: "string \<Rightarrow> u64 option" where
  "parse_u64 s =
     (let ds = (case s of CHR ''+'' # rest \<Rightarrow> rest | _ \<Rightarrow> s)
      in if ds \<noteq> [] \<and> list_all is_ascii_digit ds \<and> digits_value ds < 2 ^ 64 then Some (of_nat (digits_value ds)) else None)"

text \<open>\<open>split_at\<close> panics inside a character: the last byte of the text continues one.\<close>

definition parse_duration :: "string \<Rightarrow> u64 option option" where
  "parse_duration s0 =
     (if s0 = [] then Some None
      else
        let s = trim s0
        in if length s < 2 then Some None
           else if CHR 0x80 \<le> last s \<and> last s < CHR 0xC0 then None
           else
             let value_str = butlast s; unit = [last s]
             in Some (case parse_u64 value_str of
                  None \<Rightarrow> None
                | Some v \<Rightarrow>
                    Option.bind
                      (if unit = ''h'' then (if 168 < v then None else Some (v * 3600))
                       else if unit = ''m'' then (if 168 * 60 < v then None else Some (v * 60))
                       else if unit = ''s'' then (if 168 * 3600 < v then None else Some v)
                       else None)
                      (\<lambda>duration. if duration < 1 then None else Some duration)))"


subsection \<open>The breaker opens and recovers\<close>

lemma state_roundtrip [simp]: "state_from_u8 (state_to_u8 s) = s"
  by (cases s) (simp_all add: state_from_u8_def)

lemma state_from_u8_simps [simp]: "state_from_u8 0 = Closed" "state_from_u8 1 = Open" "state_from_u8 2 = HalfOpen"
  by (simp_all add: state_from_u8_def)

lemma transition_simps [simp]:
  "breaker_state (transition_to_open b) = Open" "breaker_state (transition_to_half_open b) = HalfOpen"
  "breaker_state (transition_to_closed b) = Closed"
  "cb_config (transition_to_open b) = cb_config b" "cb_config (transition_to_half_open b) = cb_config b"
  "cb_config (transition_to_closed b) = cb_config b"
  by (simp_all add: breaker_state_def transition_to_open_def transition_to_half_open_def transition_to_closed_def
      del: state_to_u8.simps)

text \<open>Failures that each fall inside the window opened by the one before.\<close>

fun burst :: "u64 \<Rightarrow> u64 \<Rightarrow> u64 list \<Rightarrow> bool" where
  "burst window prev [] = True"
| "burst window prev (t # ts) \<longleftrightarrow> \<not> (0 < prev \<and> window \<le> saturating_sub t prev) \<and> burst window t ts"

lemma record_failure_open: "breaker_state b = Open \<Longrightarrow> breaker_state (record_failure now b) = Open"
  by (simp add: record_failure_def breaker_state_def Let_def)

lemma failures_stay_open: "breaker_state b = Open \<Longrightarrow> breaker_state (foldl (\<lambda>b t. record_failure t b) b ts) = Open"
  by (induction ts arbitrary: b) (simp_all add: record_failure_open)

lemma unat_succ_less: "unat c < unat t \<Longrightarrow> unat (c + 1) = Suc (unat c)" for c t :: "'a::len word"
proof -
  assume "unat c < unat t"
  moreover have "unat t < 2 ^ LENGTH('a)" by (rule unsigned_less)
  ultimately have "Suc (unat c) < 2 ^ LENGTH('a)" by linarith
  then show ?thesis by (simp add: unat_word_ariths)
qed

lemma record_failure_closed:
  assumes "breaker_state b = Closed" and "\<not> (0 < cb_last_failure b \<and> cb_failure_window (cb_config b) \<le> saturating_sub t (cb_last_failure b))"
    and "unat (cb_failure_count b) < unat (cb_failure_threshold (cb_config b))"
  shows "if unat (cb_failure_threshold (cb_config b)) \<le> Suc (unat (cb_failure_count b)) then breaker_state (record_failure t b) = Open
    else breaker_state (record_failure t b) = Closed \<and> cb_config (record_failure t b) = cb_config b \<and>
      cb_last_failure (record_failure t b) = t \<and> unat (cb_failure_count (record_failure t b)) = Suc (unat (cb_failure_count b))"
proof -
  have count: "unat (cb_failure_count b + 1) = Suc (unat (cb_failure_count b))" by (rule unat_succ_less [OF assms(3)])
  show ?thesis
    using assms(1,2) count
    by (auto simp: record_failure_def breaker_state_def Let_def word_le_nat_alt transition_to_open_def)
qed

text \<open>
  The breaker opens exactly at its threshold: after a run of failures that each fall inside the
  failure window of the one before, a closed breaker is open if and only if the failures counted so
  far reach the configured threshold.
\<close>

theorem breaker_opens_at_threshold:
  assumes "breaker_state b = Closed" and "cb_failure_count b < cb_failure_threshold (cb_config b)"
    and "burst (cb_failure_window (cb_config b)) (cb_last_failure b) ts"
  shows "breaker_state (foldl (\<lambda>b t. record_failure t b) b ts) =
    (if unat (cb_failure_threshold (cb_config b)) \<le> unat (cb_failure_count b) + length ts then Open else Closed)"
  using assms
proof (induction ts arbitrary: b)
  case (Cons t ts)
  note step = record_failure_closed [of b t]
  show ?case
  proof (cases "unat (cb_failure_threshold (cb_config b)) \<le> Suc (unat (cb_failure_count b))")
    case True
    with step Cons.prems show ?thesis by (simp add: word_less_nat_alt failures_stay_open)
  next
    case False
    with step Cons.prems have "breaker_state (record_failure t b) = Closed" "cb_config (record_failure t b) = cb_config b"
      "cb_last_failure (record_failure t b) = t" "unat (cb_failure_count (record_failure t b)) = Suc (unat (cb_failure_count b))"
      by (simp_all add: word_less_nat_alt)
    with Cons.IH [of "record_failure t b"] Cons.prems(3) False show ?thesis by (simp add: word_less_nat_alt)
  qed
qed (simp add: word_less_nat_alt)

lemma breaker_opens_at_threshold_witness:
  "breaker_state (foldl (\<lambda>b t. record_failure t b) (with_config ''gh'' GITHUB_API) [100, 110, 120]) = Open \<and>
   breaker_state (foldl (\<lambda>b t. record_failure t b) (with_config ''gh'' GITHUB_API) [100, 110]) = Closed"
  using breaker_opens_at_threshold [of "with_config ''gh'' GITHUB_API" "[100, 110, 120]"]
    breaker_opens_at_threshold [of "with_config ''gh'' GITHUB_API" "[100, 110]"]
  by (simp add: with_config_def breaker_state_def GITHUB_API_def saturating_sub_def)

text \<open>While it is open and the timeout has not passed, the call is not made.\<close>

lemma open_breaker_refuses:
  assumes "breaker_state b = Open" and "saturating_sub now (cb_last_failure b) < cb_timeout (cb_config b)"
  shows "breaker_execute now later f b =
    (Inl (CircuitOpen (''Circuit breaker '' @ [CHR 0x27] @ cb_name b @ [CHR 0x27] @ '' is open'')), b)"
  using assms(1) assms(2) [unfolded not_le [symmetric]] by (simp add: breaker_execute_def can_execute_def)

definition after_successes :: "CircuitBreaker \<Rightarrow> u64 list \<Rightarrow> CircuitBreaker" where
  "after_successes b ts = foldl (\<lambda>b t. snd (breaker_execute t t (Inr () :: unit + unit) b)) b ts"

lemma closed_successes: "breaker_state b = Closed \<Longrightarrow> breaker_state (after_successes b ts) = Closed"
  by (induction ts arbitrary: b)
    (simp_all add: after_successes_def breaker_execute_def can_execute_def record_success_def breaker_state_def)

lemma half_open_step:
  assumes "breaker_state b = HalfOpen" and "unat (cb_success_count b) < unat (cb_success_threshold (cb_config b))"
  shows "if unat (cb_success_threshold (cb_config b)) \<le> Suc (unat (cb_success_count b)) then breaker_state (record_success b) = Closed
    else breaker_state (record_success b) = HalfOpen \<and> cb_config (record_success b) = cb_config b \<and>
      unat (cb_success_count (record_success b)) = Suc (unat (cb_success_count b))"
proof -
  have "unat (cb_success_count b + 1) = Suc (unat (cb_success_count b))" by (rule unat_succ_less [OF assms(2)])
  with assms(1) show ?thesis
    by (auto simp: record_success_def breaker_state_def Let_def word_le_nat_alt transition_to_closed_def)
qed

lemma half_open_successes:
  assumes "breaker_state b = HalfOpen" and "unat (cb_success_count b) < unat (cb_success_threshold (cb_config b))"
  shows "breaker_state (after_successes b ts) =
    (if unat (cb_success_threshold (cb_config b)) \<le> unat (cb_success_count b) + length ts then Closed else HalfOpen)"
  using assms
proof (induction ts arbitrary: b)
  case (Cons t ts)
  have first: "after_successes b (t # ts) = after_successes (record_success b) ts"
    using Cons.prems(1) by (simp add: after_successes_def breaker_execute_def can_execute_def)
  note step = half_open_step [OF Cons.prems]
  show ?case
  proof (cases "unat (cb_success_threshold (cb_config b)) \<le> Suc (unat (cb_success_count b))")
    case True
    with step first show ?thesis by (simp add: closed_successes)
  next
    case False
    with step Cons.IH [of "record_success b"] first show ?thesis by simp
  qed
qed (simp add: after_successes_def)

text \<open>
  C37. An open breaker recovers: once its timeout has passed since the last failure, as many
  successful calls as its success threshold close it again, and fewer leave it half open.
\<close>

theorem breaker_recovers:
  assumes "breaker_state b = Open" and "cb_timeout (cb_config b) \<le> saturating_sub t (cb_last_failure b)"
    and "0 < cb_success_threshold (cb_config b)"
  shows "breaker_state (after_successes b (t # ts)) =
    (if unat (cb_success_threshold (cb_config b)) \<le> Suc (length ts) then Closed else HalfOpen)"
proof -
  have "after_successes b (t # ts) = after_successes (transition_to_half_open b) (t # ts)"
    using assms(1,2) by (simp add: after_successes_def breaker_execute_def can_execute_def)
  moreover have "cb_success_count (transition_to_half_open b) = 0" by (simp add: transition_to_half_open_def)
  ultimately show ?thesis
    using half_open_successes [of "transition_to_half_open b" "t # ts"] assms(3) by (simp add: word_less_nat_alt)
qed

definition tripped :: CircuitBreaker where
  "tripped = \<lparr>cb_name = ''gh'', cb_state = 1, cb_failure_count = 3, cb_success_count = 0, cb_last_failure = 120,
     cb_config = GITHUB_API\<rparr>"

lemma breaker_recovers_witness:
  "breaker_state tripped = Open \<and> breaker_state (after_successes tripped [150]) = HalfOpen \<and>
   breaker_state (after_successes tripped [150, 151]) = Closed"
  using breaker_recovers [of tripped 150 "[]"] breaker_recovers [of tripped 150 "[151]"]
  by (simp add: tripped_def breaker_state_def GITHUB_API_def saturating_sub_def)

subsection \<open>Retries end as specified\<close>

definition stops :: "('e \<Rightarrow> bool) \<Rightarrow> 'e + 'a \<Rightarrow> bool" where
  "stops retryable r = (case r of Inr _ \<Rightarrow> True | Inl e \<Rightarrow> \<not> retryable e)"

definition retry_spec :: "nat \<Rightarrow> ('e \<Rightarrow> bool) \<Rightarrow> (nat \<Rightarrow> 'e + 'a) \<Rightarrow> (('e RetryError + 'a) \<times> nat) option" where
  "retry_spec m retryable f =
     (if m = 0 then None
      else case List.find (\<lambda>k. stops retryable (f k)) [1..<Suc m] of
             Some k \<Rightarrow> Some (map_sum Permanent id (f k), k)
           | None \<Rightarrow> Some (Inl (ExhaustedRetries (of_nat m) (projl (f m))), m))"

lemma retry_loop_find:
  assumes "1 \<le> a" and "a \<le> Suc m" and "a = Suc m \<Longrightarrow> l = Some (projl (f m))"
  shows "retry_loop m retryable f a l =
    (case List.find (\<lambda>k. stops retryable (f k)) [a..<Suc m] of
       Some k \<Rightarrow> Some (map_sum Permanent id (f k), k)
     | None \<Rightarrow> Some (Inl (ExhaustedRetries (of_nat m) (projl (f m))), m))"
  using assms
proof (induction m retryable f a l rule: retry_loop.induct)
  case (1 m retryable f a l)
  show ?case
  proof (cases "a \<le> m")
    case True
    then have range: "[a..<Suc m] = a # [Suc a..<Suc m]" by (simp add: upt_conv_Cons)
    show ?thesis
    proof (cases "f a")
      case (Inl e)
      show ?thesis
      proof (cases "retryable e")
        case True
        have "Suc a = Suc m \<Longrightarrow> Some e = Some (projl (f m))" using Inl by auto
        with "1.IH" [OF \<open>a \<le> m\<close> Inl] True \<open>a \<le> m\<close> show ?thesis
          by (subst retry_loop.simps) (simp add: Inl range stops_def del: upt_Suc)
      qed (subst retry_loop.simps, simp add: Inl range stops_def \<open>a \<le> m\<close> del: upt_Suc)
    qed (subst retry_loop.simps, simp add: range stops_def True del: upt_Suc)
  next
    case False
    with "1.prems" show ?thesis by (subst retry_loop.simps) simp
  qed
qed

text \<open>
  The retry loop is its specification: the outcome and the number of calls are those of the
  first attempt, within the configured maximum, that succeeds or fails for good; if there is none,
  the last error is reported after exactly the maximum number of calls. A policy of zero attempts
  has no outcome: the code panics.
\<close>

theorem retry_execute_spec: "retry_execute max_attempts retryable f = retry_spec (unat max_attempts) retryable f"
proof (cases "unat max_attempts = 0")
  case True
  then show ?thesis by (simp add: retry_execute_def retry_spec_def retry_loop.simps)
next
  case False
  then show ?thesis
    unfolding retry_execute_def retry_spec_def by (subst retry_loop_find) auto
qed

subsection \<open>Accepted timeouts\<close>

lemma digit_code: "is_ascii_digit c \<Longrightarrow> 48 \<le> (of_char c :: nat) \<and> (of_char c :: nat) \<le> 57"
  by (simp add: is_ascii_digit_def less_eq_char_def)

lemma trim_digits_unit:
  assumes "ds \<noteq> []" and "list_all is_ascii_digit ds"
  shows "trim (ds @ ''h'') = ds @ ''h''"
proof -
  obtain d ds' where ds: "ds = d # ds'" using assms(1) by (cases ds) auto
  with assms(2) have "48 \<le> (of_char d :: nat) \<and> (of_char d :: nat) \<le> 57" by (simp add: digit_code)
  then have "\<not> ascii_ws d" "\<not> ws2 d b" "\<not> ws3 d b c" for b c
    by (auto simp: ascii_ws_def ws2_def ws3_def)
  then have start: "trim_start (ds @ ''h'') = ds @ ''h''"
    unfolding ds by (cases ds' rule: remdups_adj.cases) simp_all
  have "trim_end_rev (CHR ''h'' # xs) = CHR ''h'' # xs" for xs
    by (cases xs rule: remdups_adj.cases) (simp_all add: ascii_ws_def ws2_def ws3_def)
  then show ?thesis by (simp add: trim_def start)
qed

lemma parse_u64_digits:
  assumes "n < 2 ^ 64"
  shows "parse_u64 (digits n) = Some (of_nat n)"
proof -
  obtain d ds where d: "digits n = d # ds" using digits_ok [of n] by (cases "digits n") auto
  have "d \<noteq> CHR ''+''" using digits_ok [of n] digit_code [of d] by (auto simp: d)
  then have "(case digits n of CHR ''+'' # rest \<Rightarrow> rest | _ \<Rightarrow> digits n) = digits n"
    unfolding d by (simp split: char.splits bool.splits)
  with digits_ok [of n] assms show ?thesis by (simp add: parse_u64_def Let_def)
qed

lemma scaled_range:
  fixes v :: u64
  assumes "unat v \<le> m" and "m * k \<le> 604800" and "1 \<le> unat (v * of_nat k)"
  shows "1 \<le> unat (v * of_nat k) \<and> unat (v * of_nat k) \<le> 604800"
proof -
  have "unat v * k \<le> 604800" using mult_le_mono1 [OF assms(1), of k] assms(2) by (rule order_trans)
  moreover have "unat (v * of_nat k) \<le> unat v * k"
    by (simp add: unat_word_ariths unat_of_nat mod_mult_right_eq)
  ultimately show ?thesis using assms(3) by linarith
qed

text \<open>
  Timeouts are between one second and seven days: every duration the parser accepts is in that
  range, the multiplication does not wrap, and a number of hours up to 168 is accepted as written.
\<close>

theorem parse_duration_range:
  "(\<forall>s d. parse_duration s = Some (Some d) \<longrightarrow> 1 \<le> unat d \<and> unat d \<le> 7 * 24 * 3600) \<and>
   (\<forall>n. 1 \<le> n \<longrightarrow> n \<le> 168 \<longrightarrow> parse_duration (digits n @ ''h'') = Some (Some (of_nat (n * 3600))))"
proof (intro conjI allI impI)
  fix n :: nat assume n: "1 \<le> n" "n \<le> 168"
  have small: "unat (of_nat n :: u64) = n" using n by (simp add: unat_of_nat)
  have "length (digits n) \<ge> 1" using digits_ok [of n] by (cases "digits n") auto
  with n show "parse_duration (digits n @ ''h'') = Some (Some (of_nat (n * 3600)))"
    using digits_ok [of n] trim_digits_unit [of "digits n"] parse_u64_digits [of n]
    by (simp add: parse_duration_def Let_def less_eq_char_def word_less_nat_alt unat_word_ariths small)
next
  fix s d assume "parse_duration s = Some (Some d)"
  then obtain v k where d: "d = v * of_nat k" "1 \<le> unat d"
    and k: "k = 3600 \<and> unat v \<le> 168 \<or> k = 60 \<and> unat v \<le> 10080 \<or> k = 1 \<and> unat v \<le> 604800"
    by (auto simp: parse_duration_def Let_def bind_eq_Some_conv word_less_nat_alt not_less split: if_splits option.splits)
      force+
  then have "1 \<le> unat d \<and> unat d \<le> 604800"
    using scaled_range [of v 168 3600] scaled_range [of v 10080 60] scaled_range [of v 604800 1] by auto
  then show "1 \<le> unat d" "unat d \<le> 7 * 24 * 3600" by simp_all
qed

lemma parse_duration_range_witness:
  "parse_duration ''24h'' = Some (Some 86400) \<and> 1 \<le> unat (86400 :: u64) \<and> unat (86400 :: u64) \<le> 7 * 24 * 3600"
proof -
  have "digits 24 = ''24''" by (simp add: digits.simps char_of_def bit_0)
  then have "parse_duration ''24h'' = Some (Some 86400)"
    using conjunct2 [OF parse_duration_range, rule_format, of 24] by simp
  then show ?thesis using conjunct1 [OF parse_duration_range, rule_format, of "''24h''" 86400] by blast
qed

end
