(* ===== verification/Vm_Pool.thy ===== *)
theory Vm_Pool
  imports Orchestrator_Task
begin

section \<open>The VM pool (\<open>orchestrator/vm_pool.rs\<close>)\<close>

text \<open>
  A queue of ready machines and the machines in use by task id, with the quotas checked on
  acquisition. Provisioning and destruction are the stubs of the code and always succeed. Every
  operation runs alone: the locks the code takes one after another inside an operation are not
  interleaved. A clock reading is an argument, in nanoseconds.
\<close>

subsection \<open>State\<close>

record PoolConfig =
  pl_min_ready :: usize
  pl_max_size :: usize
  pl_idle_timeout :: u64
  pl_max_per_user :: usize
  pl_max_concurrent :: usize

definition default_pool_config :: PoolConfig where
  "default_pool_config =
     \<lparr>pl_min_ready = 2, pl_max_size = 10, pl_idle_timeout = 3600, pl_max_per_user = 3, pl_max_concurrent = 0\<rparr>"

record PooledVm =
  pv_name :: string
  pv_ip :: string
  pv_created_at :: timestamp
  pv_last_used :: timestamp
  pv_assigned_task :: "string option"

record PoolMetrics =
  pm_total_acquisitions :: u64
  pm_total_releases :: u64
  pm_total_provisioned :: u64
  pm_total_destroyed :: u64
  pm_cache_hits :: u64
  pm_cache_misses :: u64

record VmPool =
  vp_available :: "PooledVm list"
  vp_in_use :: "(string \<times> PooledVm) list"
  vp_config :: PoolConfig
  vp_metrics :: PoolMetrics

datatype QuotaError =
  UserQuotaExceeded string usize usize | ConcurrentQuotaExceeded usize usize

datatype PoolError =
  PoolExhausted usize | TaskNotFound string | NoAvailableVms | ProvisioningFailed string
| DestructionFailed string | QuotaExceeded string

fun quota_error_text :: "QuotaError \<Rightarrow> string" where
  "quota_error_text (UserQuotaExceeded user current m) =
     ''User '' @ user @ '' has '' @ digits (unat current) @ ''/'' @ digits (unat m) @ '' VMs (max per user exceeded)''"
| "quota_error_text (ConcurrentQuotaExceeded current m) =
     ''Pool has '' @ digits (unat current) @ ''/'' @ digits (unat m) @ '' concurrent tasks (max concurrent exceeded)''"

definition new_pool :: "PoolConfig \<Rightarrow> VmPool" where
  "new_pool config =
     \<lparr>vp_available = [], vp_in_use = [], vp_config = config,
      vp_metrics = \<lparr>pm_total_acquisitions = 0, pm_total_releases = 0, pm_total_provisioned = 0,
        pm_total_destroyed = 0, pm_cache_hits = 0, pm_cache_misses = 0\<rparr>\<rparr>"

subsection \<open>Machines\<close>

definition new_vm :: "timestamp \<Rightarrow> string \<Rightarrow> string \<Rightarrow> PooledVm" where
  "new_vm now name ip =
     \<lparr>pv_name = name, pv_ip = ip, pv_created_at = now, pv_last_used = now, pv_assigned_task = None\<rparr>"

text \<open>\<open>num_seconds\<close> rounds towards zero; \<open>as i64\<close> reinterprets the bits.\<close>

definition num_seconds :: "int \<Rightarrow> int" where
  "num_seconds d = sgn d * (\<bar>d\<bar> div 1000000000)"

definition is_idle :: "timestamp \<Rightarrow> u64 \<Rightarrow> PooledVm \<Rightarrow> bool" where
  "is_idle now timeout vm \<longleftrightarrow> num_seconds (now - pv_last_used vm) \<ge> sint timeout"

definition assign :: "timestamp \<Rightarrow> string \<Rightarrow> PooledVm \<Rightarrow> PooledVm" where
  "assign now task_id vm = vm\<lparr>pv_assigned_task := Some task_id, pv_last_used := now\<rparr>"

definition release_vm :: "timestamp \<Rightarrow> PooledVm \<Rightarrow> PooledVm" where
  "release_vm now vm = vm\<lparr>pv_assigned_task := None, pv_last_used := now\<rparr>"

subsection \<open>Quotas\<close>

definition total_count :: "VmPool \<Rightarrow> nat" where
  "total_count p = length (vp_available p) + length (vp_in_use p)"

text \<open>The code returns an empty map here.\<close>

definition per_user_counts :: "VmPool \<Rightarrow> string \<rightharpoonup> usize" where
  "per_user_counts p = Map.empty"

definition check_quota :: "PoolConfig \<Rightarrow> Task \<Rightarrow> (string \<rightharpoonup> usize) \<Rightarrow> usize \<Rightarrow> QuotaError + unit" where
  "check_quota config t counts in_use_count =
     (let user = (case tk_labels t ''user'' of Some u \<Rightarrow> u | None \<Rightarrow> ''unknown'');
          user_count = (case counts user of Some n \<Rightarrow> n | None \<Rightarrow> 0)
      in if 0 < pl_max_per_user config \<and> pl_max_per_user config \<le> user_count
         then Inl (UserQuotaExceeded user user_count (pl_max_per_user config))
         else if 0 < pl_max_concurrent config \<and> pl_max_concurrent config \<le> in_use_count
         then Inl (ConcurrentQuotaExceeded in_use_count (pl_max_concurrent config))
         else Inr ())"

definition pool_check_quota :: "VmPool \<Rightarrow> Task \<Rightarrow> QuotaError + unit" where
  "pool_check_quota p t = check_quota (vp_config p) t (per_user_counts p) (of_nat (length (vp_in_use p)))"

subsection \<open>Operations\<close>

text \<open>\<open>{:02}\<close>: at least two digits.\<close>

definition two_digits :: "nat \<Rightarrow> string" where
  "two_digits n = (if n < 10 then ''0'' else []) @ digits n"

definition pool_provision_vm :: "timestamp \<Rightarrow> VmPool \<Rightarrow> PooledVm" where
  "pool_provision_vm now p =
     (let vm_count = total_count p
      in new_vm now (''agent-pool-'' @ two_digits (vm_count + 1)) (''192.168.122.'' @ digits (100 + vm_count)))"

text \<open>\<open>HashMap::insert\<close> of a task that already has a machine replaces it.\<close>

definition insert_in_use :: "string \<Rightarrow> PooledVm \<Rightarrow> (string \<times> PooledVm) list \<Rightarrow> (string \<times> PooledVm) list" where
  "insert_in_use k v m = (k, v) # filter (\<lambda>(k', v'). k' \<noteq> k) m"

definition acquire :: "timestamp \<Rightarrow> Task \<Rightarrow> VmPool \<Rightarrow> (PoolError + PooledVm) \<times> VmPool" where
  "acquire now t p =
     (case pool_check_quota p t of
        Inl e \<Rightarrow> (Inl (QuotaExceeded (quota_error_text e)), p)
      | Inr _ \<Rightarrow>
          (case (case vp_available p of
                   v # rest \<Rightarrow>
                     Inr (assign now (tk_id t) v,
                          p\<lparr>vp_available := rest,
                            vp_metrics := (vp_metrics p)\<lparr>pm_cache_hits := pm_cache_hits (vp_metrics p) + 1\<rparr>\<rparr>)
                 | [] \<Rightarrow>
                     if unat (pl_max_size (vp_config p)) \<le> total_count p then Inl (PoolExhausted (pl_max_size (vp_config p)))
                     else Inr (assign now (tk_id t) (pool_provision_vm now p),
                               p\<lparr>vp_metrics := (vp_metrics p)
                                    \<lparr>pm_cache_misses := pm_cache_misses (vp_metrics p) + 1,
                                     pm_total_provisioned := pm_total_provisioned (vp_metrics p) + 1\<rparr>\<rparr>)) of
             Inl e \<Rightarrow> (Inl e, p)
           | Inr (vm, p') \<Rightarrow>
               (Inr vm,
                p'\<lparr>vp_in_use := insert_in_use (tk_id t) vm (vp_in_use p'),
                   vp_metrics := (vp_metrics p')\<lparr>pm_total_acquisitions := pm_total_acquisitions (vp_metrics p') + 1\<rparr>\<rparr>)))"

definition release :: "timestamp \<Rightarrow> string \<Rightarrow> VmPool \<Rightarrow> (PoolError + unit) \<times> VmPool" where
  "release now task_id p =
     (case map_of (vp_in_use p) task_id of
        None \<Rightarrow> (Inl (TaskNotFound task_id), p)
      | Some vm0 \<Rightarrow>
          let vm = release_vm now vm0; m = vp_metrics p;
              p1 = p\<lparr>vp_in_use := filter (\<lambda>(k, v). k \<noteq> task_id) (vp_in_use p),
                     vp_metrics := m\<lparr>pm_total_releases := pm_total_releases m + 1\<rparr>\<rparr>
          in if length (vp_available p1) < unat (pl_min_ready (vp_config p))
             then (Inr (), p1\<lparr>vp_available := vp_available p1 @ [vm]\<rparr>)
             else (Inr (), p1\<lparr>vp_metrics := (vp_metrics p1)\<lparr>pm_total_destroyed := pm_total_destroyed (vp_metrics p1) + 1\<rparr>\<rparr>))"

definition cleanup_idle_vms :: "timestamp \<Rightarrow> VmPool \<Rightarrow> VmPool" where
  "cleanup_idle_vms now p =
     (let idle = filter (is_idle now (pl_idle_timeout (vp_config p))) (vp_available p); m = vp_metrics p
      in p\<lparr>vp_available := filter (\<lambda>vm. \<not> is_idle now (pl_idle_timeout (vp_config p)) vm) (vp_available p),
           vp_metrics := m\<lparr>pm_total_destroyed := pm_total_destroyed m + of_nat (length idle)\<rparr>\<rparr>)"

text \<open>At most \<open>needed\<close> machines, as long as the pool is below its size.\<close>

fun provision_up_to :: "nat \<Rightarrow> timestamp \<Rightarrow> VmPool \<Rightarrow> VmPool" where
  "provision_up_to 0 now p = p"
| "provision_up_to (Suc n) now p =
     (if unat (pl_max_size (vp_config p)) \<le> total_count p then p
      else provision_up_to n now
             (p\<lparr>vp_available := vp_available p @ [pool_provision_vm now p],
                vp_metrics := (vp_metrics p)\<lparr>pm_total_provisioned := pm_total_provisioned (vp_metrics p) + 1\<rparr>\<rparr>))"

definition maintain :: "timestamp \<Rightarrow> VmPool \<Rightarrow> (PoolError + unit) \<times> VmPool" where
  "maintain now p =
     (let p1 = cleanup_idle_vms now p
      in (Inr (), provision_up_to (unat (pl_min_ready (vp_config p)) - length (vp_available p1)) now p1))"

record PoolStatus =
  ps_available_count :: nat
  ps_in_use_count :: nat
  ps_total_count :: nat
  ps_config :: PoolConfig
  ps_per_user_counts :: "string \<rightharpoonup> usize"

definition pool_status :: "VmPool \<Rightarrow> PoolStatus" where
  "pool_status p =
     \<lparr>ps_available_count = length (vp_available p), ps_in_use_count = length (vp_in_use p),
      ps_total_count = length (vp_available p) + length (vp_in_use p), ps_config = vp_config p,
      ps_per_user_counts = per_user_counts p\<rparr>"


subsection \<open>The pool stays within its limits\<close>

datatype pool_op = OpAcquire timestamp Task | OpRelease timestamp string | OpMaintain timestamp

fun pool_step :: "VmPool \<Rightarrow> pool_op \<Rightarrow> VmPool" where
  "pool_step p (OpAcquire now t) = snd (acquire now t p)"
| "pool_step p (OpRelease now task_id) = snd (release now task_id p)"
| "pool_step p (OpMaintain now) = snd (maintain now p)"

definition pool_inv :: "PoolConfig \<Rightarrow> VmPool \<Rightarrow> bool" where
  "pool_inv config p \<longleftrightarrow> vp_config p = config \<and> total_count p \<le> unat (pl_max_size config) \<and>
     (pl_max_concurrent config = 0 \<or> length (vp_in_use p) \<le> unat (pl_max_concurrent config)) \<and>
     distinct (map fst (vp_in_use p)) \<and>
     (\<forall>(k, v) \<in> set (vp_in_use p). pv_assigned_task v = Some k) \<and>
     (\<forall>v \<in> set (vp_available p). pv_assigned_task v = None)"

lemma length_filter_fst_remove:
  assumes "distinct (map fst m)" and "map_of m k = Some v"
  shows "Suc (length (filter (\<lambda>(k', v'). k' \<noteq> k) m)) = length m"
  using assms
proof (induction m)
  case (Cons kv m)
  obtain k1 v1 where kv: "kv = (k1, v1)" by (cases kv)
  show ?case
  proof (cases "k1 = k")
    case True
    then have "filter (\<lambda>(k', v'). k' \<noteq> k) m = m"
      using Cons.prems(1) by (auto simp: kv filter_id_conv image_iff)
    with True show ?thesis by (simp add: kv)
  qed (use Cons in \<open>simp add: kv\<close>)
qed simp

lemma insert_in_use_facts:
  "length (insert_in_use k v m) \<le> Suc (length m)"
  "distinct (map fst m) \<Longrightarrow> distinct (map fst (insert_in_use k v m))"
  "set (insert_in_use k v m) \<subseteq> insert (k, v) (set m)"
  by (auto simp: insert_in_use_def le_imp_less_Suc distinct_map inj_on_def)

lemma quota_ok:
  "pool_check_quota p t = Inr () \<Longrightarrow> length (vp_in_use p) < 2 ^ 64 \<Longrightarrow>
   pl_max_concurrent (vp_config p) = 0 \<or> length (vp_in_use p) < unat (pl_max_concurrent (vp_config p))"
  by (auto simp: pool_check_quota_def check_quota_def Let_def not_le word_less_nat_alt unat_of_nat unsigned_eq_0_iff split: if_splits)

lemma inv_small: "pool_inv config p \<Longrightarrow> length (vp_in_use p) < 2 ^ 64"
proof -
  assume "pool_inv config p"
  moreover have "unat (pl_max_size config) < 2 ^ LENGTH(64)" by (rule unsigned_less)
  ultimately show ?thesis by (simp add: pool_inv_def total_count_def)
qed

lemma inv_acquire:
  assumes "pool_inv config p"
  shows "pool_inv config (snd (acquire now t p))"
proof (cases "pool_check_quota p t")
  case (Inr u)
  then have q: "pl_max_concurrent config = 0 \<or> length (vp_in_use p) < unat (pl_max_concurrent config)"
    using quota_ok [of p t] inv_small [OF assms] assms by (simp add: pool_inv_def)
  show ?thesis
  proof (cases "vp_available p")
    case Nil
    with assms Inr q insert_in_use_facts [where k = "tk_id t" and v = "assign now (tk_id t) (pool_provision_vm now p)" and m = "vp_in_use p"]
    show ?thesis
      by (auto simp: acquire_def pool_inv_def total_count_def assign_def split: if_splits)
  next
    case (Cons v rest)
    with assms Inr q insert_in_use_facts [where k = "tk_id t" and v = "assign now (tk_id t) v" and m = "vp_in_use p"]
    show ?thesis
      by (auto simp: acquire_def pool_inv_def total_count_def assign_def)
  qed
qed (simp add: acquire_def assms)

lemma inv_release:
  assumes "pool_inv config p"
  shows "pool_inv config (snd (release now task_id p))"
proof (cases "map_of (vp_in_use p) task_id")
  case (Some vm)
  then have "Suc (length (filter (\<lambda>(k, v). k \<noteq> task_id) (vp_in_use p))) = length (vp_in_use p)"
    using length_filter_fst_remove [OF _ Some] assms unfolding pool_inv_def by blast
  with assms Some show ?thesis
    by (auto simp: release_def pool_inv_def total_count_def release_vm_def Let_def distinct_map inj_on_def)
qed (simp add: release_def assms)

lemma inv_provision_one:
  assumes "pool_inv config p" and "\<not> unat (pl_max_size (vp_config p)) \<le> total_count p"
  shows "pool_inv config (p\<lparr>vp_available := vp_available p @ [pool_provision_vm now p], vp_metrics := m\<rparr>)"
proof -
  have "pv_assigned_task (pool_provision_vm now p) = None" by (simp add: pool_provision_vm_def new_vm_def Let_def)
  with assms show ?thesis by (simp add: pool_inv_def total_count_def)
qed

lemma inv_provision: "pool_inv config p \<Longrightarrow> pool_inv config (provision_up_to n now p)"
  by (induction n arbitrary: p) (simp_all add: inv_provision_one)

lemma inv_cleanup:
  assumes "pool_inv config p"
  shows "pool_inv config (cleanup_idle_vms now p)"
proof -
  have "length (filter q (vp_available p)) + length (vp_in_use p) \<le> unat (pl_max_size config)" for q
    using assms order_trans [OF add_le_mono1 [OF length_filter_le]] unfolding pool_inv_def total_count_def by blast
  with assms show ?thesis by (simp add: cleanup_idle_vms_def pool_inv_def total_count_def Let_def)
qed

lemma inv_pool_step: "pool_inv config p \<Longrightarrow> pool_inv config (pool_step p op)"
  by (cases op) (simp_all add: inv_acquire inv_release maintain_def Let_def inv_provision inv_cleanup)

interpretation vm_pool: op_system pool_step "pool_inv config" for config
  by unfold_locales (rule inv_pool_step)


text \<open>Machines are named by the number of machines there are, so a name can be given twice.\<close>

lemma vm_names_repeat:
  assumes "vp_available p = []" and "vp_in_use p = [(''a'', vm)]"
  shows "pv_name (pool_provision_vm now p) = ''agent-pool-'' @ two_digits 2"
  using assms by (simp add: pool_provision_vm_def total_count_def new_vm_def Let_def numeral_eq_Suc)

text \<open>The per-user quota never refuses a task.\<close>

lemma user_quota_unused: "pool_check_quota p t \<noteq> Inl (UserQuotaExceeded u c m)"
  by (auto simp: pool_check_quota_def check_quota_def per_user_counts_def Let_def)

end
