(* ===== verification/Multi_Agent.thy ===== *)
theory Multi_Agent
  imports Task_Executor
begin

section \<open>Parent and child tasks (\<open>orchestrator/multi_agent.rs\<close>)\<close>

text \<open>
  The tracker of parent-child relations, the status of a parent's children and the wait for them,
  and the aggregation of their artifacts. Children are read from their checkpoints; a wait polls
  the checkpoint store, one file system state per poll, and is \<open>None\<close> when it has not ended with
  the given polls.
\<close>

subsection \<open>The tracker\<close>

record ParentChildTracker =
  tr_children_map :: "string \<rightharpoonup> string list"
  tr_parent_map :: "string \<rightharpoonup> string"

datatype MultiAgentError =
  Checkpoint CheckpointError | Io string | TaskNotFound string | ParentNotFound string
| ArtifactError string | InvalidRelationship string

definition new_tracker :: ParentChildTracker where
  "new_tracker = \<lparr>tr_children_map = Map.empty, tr_parent_map = Map.empty\<rparr>"

definition get_children :: "string \<Rightarrow> ParentChildTracker \<Rightarrow> string list" where
  "get_children parent_id tr = (case tr_children_map tr parent_id of Some cs \<Rightarrow> cs | None \<Rightarrow> [])"

definition get_parent :: "string \<Rightarrow> ParentChildTracker \<Rightarrow> string option" where
  "get_parent child_id tr = tr_parent_map tr child_id"

definition register_child :: "string \<Rightarrow> string \<Rightarrow> ParentChildTracker \<Rightarrow> (MultiAgentError + unit) \<times> ParentChildTracker" where
  "register_child parent_id child_id tr =
     (Inr (), tr\<lparr>tr_children_map := (tr_children_map tr)(parent_id \<mapsto> get_children parent_id tr @ [child_id]),
                 tr_parent_map := (tr_parent_map tr)(child_id \<mapsto> parent_id)\<rparr>)"

definition unregister_child :: "string \<Rightarrow> ParentChildTracker \<Rightarrow> (MultiAgentError + unit) \<times> ParentChildTracker" where
  "unregister_child child_id tr =
     (case tr_parent_map tr child_id of
        None \<Rightarrow> (Inr (), tr)
      | Some parent_id \<Rightarrow>
          let tr1 = tr\<lparr>tr_parent_map := (tr_parent_map tr)(child_id := None)\<rparr>
          in (Inr (),
              case tr_children_map tr1 parent_id of
                None \<Rightarrow> tr1
              | Some cs \<Rightarrow>
                  let cs' = filter (\<lambda>c. c \<noteq> child_id) cs
                  in tr1\<lparr>tr_children_map := (tr_children_map tr1)(parent_id := (if cs' = [] then None else Some cs'))\<rparr>))"

text \<open>The code loads every checkpoint and restores no relation.\<close>

fun scan_checkpoints :: "io_env \<Rightarrow> task_codec \<Rightarrow> string \<Rightarrow> string list \<Rightarrow> fs \<Rightarrow> MultiAgentError + unit" where
  "scan_checkpoints io cd dir [] s = Inr ()"
| "scan_checkpoints io cd dir (task_id # rest) s =
     (case load io cd dir task_id s of
        Inl e \<Rightarrow> Inl (Checkpoint e)
      | Inr _ \<Rightarrow> scan_checkpoints io cd dir rest s)"

definition rebuild_from_checkpoints ::
  "io_env \<Rightarrow> task_codec \<Rightarrow> string \<Rightarrow> fs \<Rightarrow> ParentChildTracker \<Rightarrow> (MultiAgentError + nat) \<times> ParentChildTracker" where
  "rebuild_from_checkpoints io cd dir s tr =
     (case list_checkpoints io dir s of
        Inl e \<Rightarrow> (Inl (Checkpoint e), tr)
      | Inr task_ids \<Rightarrow> (map_sum id (\<lambda>_. 0) (scan_checkpoints io cd dir task_ids s), tr))"

subsection \<open>Children of a parent\<close>

text \<open>One poll: the finished children in order, and whether all are finished.\<close>

fun poll_children :: "io_env \<Rightarrow> task_codec \<Rightarrow> string \<Rightarrow> string list \<Rightarrow> fs \<Rightarrow> MultiAgentError + Task list \<times> bool" where
  "poll_children io cd dir [] s = Inr ([], True)"
| "poll_children io cd dir (child_id # rest) s =
     (case load io cd dir child_id s of
        Inl e \<Rightarrow> Inl (Checkpoint e)
      | Inr loaded \<Rightarrow>
          and_then (poll_children io cd dir rest s) (\<lambda>(ts, all).
            Inr (case loaded of
                   Some t \<Rightarrow> if is_terminal (tk_state t) then (t # ts, all) else (ts, False)
                 | None \<Rightarrow> (ts, False))))"

fun poll_until ::
  "task_codec \<Rightarrow> string \<Rightarrow> string list \<Rightarrow> (io_env \<times> fs) list \<Rightarrow> (MultiAgentError + Task list) option" where
  "poll_until cd dir child_ids [] = None"
| "poll_until cd dir child_ids ((io, s) # polls) =
     (case poll_children io cd dir child_ids s of
        Inl e \<Rightarrow> Some (Inl e)
      | Inr (ts, all) \<Rightarrow> if all then Some (Inr ts) else poll_until cd dir child_ids polls)"

definition wait_for_children ::
  "task_codec \<Rightarrow> string \<Rightarrow> string \<Rightarrow> ParentChildTracker \<Rightarrow> (io_env \<times> fs) list \<Rightarrow> (MultiAgentError + Task list) option" where
  "wait_for_children cd dir parent_id tr polls =
     (let child_ids = get_children parent_id tr
      in if child_ids = [] then Some (Inr []) else poll_until cd dir child_ids polls)"

record ChildrenStatus =
  cs_total :: nat
  cs_pending :: nat
  cs_running :: nat
  cs_completed :: nat
  cs_failed :: nat
  cs_cancelled :: nat

definition default_status :: ChildrenStatus where
  "default_status =
     \<lparr>cs_total = 0, cs_pending = 0, cs_running = 0, cs_completed = 0, cs_failed = 0, cs_cancelled = 0\<rparr>"

definition count_child :: "TaskState \<Rightarrow> ChildrenStatus \<Rightarrow> ChildrenStatus" where
  "count_child st status =
     (if st \<in> {Pending, Staging, Provisioning, Ready} then status\<lparr>cs_pending := cs_pending status + 1\<rparr>
      else if st \<in> {Running, Completing} then status\<lparr>cs_running := cs_running status + 1\<rparr>
      else if st = Completed then status\<lparr>cs_completed := cs_completed status + 1\<rparr>
      else if st \<in> {Failed, FailedPreserved} then status\<lparr>cs_failed := cs_failed status + 1\<rparr>
      else status\<lparr>cs_cancelled := cs_cancelled status + 1\<rparr>)"

fun count_children ::
  "io_env \<Rightarrow> task_codec \<Rightarrow> string \<Rightarrow> fs \<Rightarrow> string list \<Rightarrow> ChildrenStatus \<Rightarrow> MultiAgentError + ChildrenStatus" where
  "count_children io cd dir s [] status = Inr status"
| "count_children io cd dir s (child_id # rest) status =
     (case load io cd dir child_id s of
        Inl e \<Rightarrow> Inl (Checkpoint e)
      | Inr loaded \<Rightarrow>
          count_children io cd dir s rest (case loaded of Some t \<Rightarrow> count_child (tk_state t) status | None \<Rightarrow> status))"

definition get_children_status ::
  "io_env \<Rightarrow> task_codec \<Rightarrow> string \<Rightarrow> fs \<Rightarrow> string \<Rightarrow> ParentChildTracker \<Rightarrow> MultiAgentError + ChildrenStatus" where
  "get_children_status io cd dir s parent_id tr =
     (let child_ids = get_children parent_id tr
      in if child_ids = [] then Inr default_status
         else count_children io cd dir s child_ids (default_status\<lparr>cs_total := length child_ids\<rparr>))"

definition all_terminal :: "ChildrenStatus \<Rightarrow> bool" where
  "all_terminal st \<longleftrightarrow> cs_pending st = 0 \<and> cs_running st = 0"

definition has_failures :: "ChildrenStatus \<Rightarrow> bool" where
  "has_failures st \<longleftrightarrow> 0 < cs_failed st"

subsection \<open>Aggregation of artifacts\<close>

record AggregationResult =
  ag_parent_id :: string
  ag_children_processed :: nat
  ag_artifacts_collected :: nat
  ag_bytes_collected :: u64
  ag_errors :: "string list"

text \<open>Each regular file is copied and its bytes counted; a failing copy is skipped.\<close>

fun copy_entries ::
  "io_env \<Rightarrow> string \<Rightarrow> string \<Rightarrow> string list \<Rightarrow> nat \<times> u64 \<Rightarrow> fs \<Rightarrow> (MultiAgentError + nat \<times> u64) \<times> fs" where
  "copy_entries io src dst [] acc s = (Inr acc, s)"
| "copy_entries io src dst (name # rest) (n, bytes) s =
     (case io_fail io ''entry'' (path_join src name) of
        Some e \<Rightarrow> (Inl (ArtifactError (''Failed to read entry: '' @ e)), s)
      | None \<Rightarrow>
          let path = path_join src name
          in (case map_of (fs_files s) path of
                None \<Rightarrow> copy_entries io src dst rest (n, bytes) s
              | Some content \<Rightarrow>
                  (case sys_copy io path (path_join dst name) s of
                     (Inr _, s') \<Rightarrow> copy_entries io src dst rest (n + 1, bytes + of_nat (length content)) s'
                   | (Inl _, s') \<Rightarrow> copy_entries io src dst rest (n, bytes) s')))"

definition collect_from_child ::
  "io_env \<Rightarrow> string \<Rightarrow> string \<Rightarrow> string \<Rightarrow> fs \<Rightarrow> (MultiAgentError + nat \<times> u64) \<times> fs" where
  "collect_from_child io tasks_root child_id parent_outbox s =
     (let child_artifacts = path_join (path_join (path_join tasks_root child_id) ''outbox'') ''artifacts''
      in if \<not> path_exists s child_artifacts then (Inr (0, 0), s)
         else
           let child_dir = path_join parent_outbox child_id
           in try_io (sys_mkdir_all io child_dir s) (\<lambda>e. ArtifactError (''Failed to create child dir: '' @ e)) (\<lambda>_ s.
                case io_fail io ''readdir'' child_artifacts of
                  Some e \<Rightarrow> (Inl (ArtifactError (''Failed to read child artifacts: '' @ e)), s)
                | None \<Rightarrow> copy_entries io child_artifacts child_dir (dir_entries child_artifacts s) (0, 0) s))"

fun multi_agent_error_text :: "MultiAgentError \<Rightarrow> string" where
  "multi_agent_error_text (ArtifactError e) = ''Artifact aggregation error: '' @ e"
| "multi_agent_error_text (Io e) = ''IO error: '' @ e"
| "multi_agent_error_text (TaskNotFound e) = ''Task not found: '' @ e"
| "multi_agent_error_text (ParentNotFound e) = ''Parent task not found: '' @ e"
| "multi_agent_error_text (InvalidRelationship e) = ''Invalid parent-child relationship: '' @ e"
| "multi_agent_error_text (Checkpoint e) =
     ''Checkpoint error: '' @ checkpoint_error_text e"

fun aggregate_each ::
  "io_env \<Rightarrow> string \<Rightarrow> string \<Rightarrow> string list \<Rightarrow> AggregationResult \<Rightarrow> fs \<Rightarrow> AggregationResult \<times> fs" where
  "aggregate_each io tasks_root parent_outbox [] result s = (result, s)"
| "aggregate_each io tasks_root parent_outbox (child_id # rest) result s =
     (case collect_from_child io tasks_root child_id parent_outbox s of
        (Inr (n, bytes), s') \<Rightarrow>
          aggregate_each io tasks_root parent_outbox rest
            (result\<lparr>ag_children_processed := ag_children_processed result + 1,
                    ag_artifacts_collected := ag_artifacts_collected result + n,
                    ag_bytes_collected := ag_bytes_collected result + bytes\<rparr>) s'
      | (Inl e, s') \<Rightarrow>
          aggregate_each io tasks_root parent_outbox rest
            (result\<lparr>ag_errors := ag_errors result @ [child_id @ '': '' @ multi_agent_error_text e]\<rparr>) s')"

definition aggregate_child_artifacts ::
  "io_env \<Rightarrow> string \<Rightarrow> string \<Rightarrow> string list \<Rightarrow> fs \<Rightarrow> (MultiAgentError + AggregationResult) \<times> fs" where
  "aggregate_child_artifacts io tasks_root parent_id child_ids s =
     (let parent_outbox = path_join (path_join (path_join tasks_root parent_id) ''outbox'') ''child-artifacts''
      in try_io (sys_mkdir_all io parent_outbox s) (\<lambda>e. ArtifactError (''Failed to create parent outbox: '' @ e)) (\<lambda>_ s.
           map_prod Inr id
             (aggregate_each io tasks_root parent_outbox child_ids
               \<lparr>ag_parent_id = parent_id, ag_children_processed = 0, ag_artifacts_collected = 0,
                ag_bytes_collected = 0, ag_errors = []\<rparr> s)))"


subsection \<open>The tracker's maps\<close>

datatype tracker_op = OpRegister string string | OpUnregister string

fun tracker_step :: "ParentChildTracker \<Rightarrow> tracker_op \<Rightarrow> ParentChildTracker" where
  "tracker_step tr (OpRegister p c) = snd (register_child p c tr)"
| "tracker_step tr (OpUnregister c) = snd (unregister_child c tr)"

definition tracker_inv :: "ParentChildTracker \<Rightarrow> bool" where
  "tracker_inv tr \<longleftrightarrow> (\<forall>c p. tr_parent_map tr c = Some p \<longrightarrow> c \<in> set (get_children p tr)) \<and>
     (\<forall>p. tr_children_map tr p \<noteq> Some [])"

lemma unregister_children:
  "get_children q (snd (unregister_child c tr)) =
     (if tr_parent_map tr c = Some q then filter (\<lambda>x. x \<noteq> c) (get_children q tr) else get_children q tr)"
  "tr_parent_map (snd (unregister_child c tr)) = (tr_parent_map tr)(c := None)"
  by (cases "tr_parent_map tr c"; simp add: unregister_child_def get_children_def Let_def split: option.splits; auto)+

lemma unregister_nonempty:
  "\<forall>p. tr_children_map tr p \<noteq> Some [] \<Longrightarrow> tr_children_map (snd (unregister_child c tr)) q \<noteq> Some []"
  by (simp add: unregister_child_def Let_def split: option.splits)

interpretation tracker: op_system tracker_step tracker_inv
proof unfold_locales
  fix tr op
  assume inv: "tracker_inv tr"
  show "tracker_inv (tracker_step tr op)"
  proof (cases op)
    case (OpRegister p c)
    with inv show ?thesis by (simp add: tracker_inv_def register_child_def get_children_def)
  next
    case (OpUnregister c)
    with inv show ?thesis by (simp add: tracker_inv_def unregister_children unregister_nonempty)
  qed
qed

text \<open>Registering a child again under another parent leaves it with both.\<close>

lemma child_of_two_parents:
  assumes "p \<noteq> q"
  shows "c \<in> set (get_children p (run tracker_step new_tracker [OpRegister p c, OpRegister q c]))"
    and "c \<in> set (get_children q (run tracker_step new_tracker [OpRegister p c, OpRegister q c]))"
  using assms by (simp_all add: register_child_def get_children_def new_tracker_def)

subsection \<open>Waiting for children\<close>

definition finished :: "io_env \<Rightarrow> task_codec \<Rightarrow> string \<Rightarrow> fs \<Rightarrow> string \<Rightarrow> Task \<Rightarrow> bool" where
  "finished io cd dir s c t \<longleftrightarrow> load io cd dir c s = Inr (Some t) \<and> is_terminal (tk_state t)"

lemma poll_children_finished:
  "poll_children io cd dir cs s = Inr (ts, True) \<longleftrightarrow> list_all2 (finished io cd dir s) cs ts"
proof (induction cs arbitrary: ts)
  case (Cons c cs)
  show ?case
  proof (cases "load io cd dir c s")
    case (Inl e)
    then show ?thesis by (auto simp: finished_def list_all2_Cons1)
  next
    case (Inr loaded)
    then show ?thesis
      by (cases loaded; cases "poll_children io cd dir cs s"; cases ts)
        (auto simp: finished_def [of io cd dir s c] list_all2_Cons1 Cons.IH [symmetric] split: if_splits)
  qed
qed auto

lemma poll_children_loads:
  "(\<And>c. c \<in> set cs \<Longrightarrow> \<not> isl (load io cd dir c s)) \<Longrightarrow> \<not> isl (poll_children io cd dir cs s)"
proof (induction cs)
  case (Cons c cs)
  then have "\<not> isl (load io cd dir c s)" and "\<not> isl (poll_children io cd dir cs s)" by simp_all
  then show ?case
    by (cases "load io cd dir c s"; cases "poll_children io cd dir cs s") (auto split: prod.splits)
qed simp

text \<open>
  C36. Waiting for children ends: if every poll can read the checkpoints and at one of them every
  child is in a terminal state, the wait returns, and it returns one terminal task per child, in
  the order of registration, as loaded by a single poll.
\<close>

theorem wait_for_children_ends:
  assumes "get_children parent_id tr \<noteq> []"
    and "\<forall>(io, s) \<in> set polls. \<forall>c \<in> set (get_children parent_id tr). \<not> isl (load io cd dir c s)"
    and "(io0, s0) \<in> set polls" and "list_all2 (finished io0 cd dir s0) (get_children parent_id tr) ts0"
  shows "\<exists>ts io s. wait_for_children cd dir parent_id tr polls = Some (Inr ts) \<and> (io, s) \<in> set polls \<and>
    list_all2 (finished io cd dir s) (get_children parent_id tr) ts"
proof -
  have "\<exists>ts io s. poll_until cd dir (get_children parent_id tr) polls = Some (Inr ts) \<and> (io, s) \<in> set polls \<and>
    list_all2 (finished io cd dir s) (get_children parent_id tr) ts"
    using assms(2,3)
  proof (induction polls)
    case (Cons poll polls)
    obtain io s where poll: "poll = (io, s)" by (cases poll)
    have "\<not> isl (poll_children io cd dir (get_children parent_id tr) s)"
      using Cons.prems(1) by (intro poll_children_loads) (auto simp: poll)
    then obtain ts all where res: "poll_children io cd dir (get_children parent_id tr) s = Inr (ts, all)"
      by (cases "poll_children io cd dir (get_children parent_id tr) s") auto
    show ?case
    proof (cases all)
      case True
      with res poll_children_finished [of io cd dir "get_children parent_id tr" s ts] show ?thesis
        by (auto simp: poll)
    next
      case False
      have "poll \<noteq> (io0, s0)"
        using False res assms(4) poll_children_finished [of io0 cd dir "get_children parent_id tr" s0 ts0] by (auto simp: poll)
      with Cons.IH Cons.prems False res show ?thesis by (auto simp: poll)
    qed
  qed simp
  with assms(1) show ?thesis by (simp add: wait_for_children_def)
qed

definition done_task :: Task where
  "done_task = demo_task\<lparr>tk_state := Completed\<rparr>"

definition done_disk :: fs where
  "done_disk = \<lparr>fs_files = [(''/c/kid.checkpoint.json'', ''x'')], fs_dirs = [''/c'']\<rparr>"

lemma wait_for_children_ends_witness:
  "let tr = snd (register_child ''mum'' ''kid'' new_tracker)
   in \<exists>ts io s. wait_for_children (one_task_codec done_task) ''/c'' ''mum'' tr [(io_ok, empty_fs), (io_ok, done_disk)] = Some (Inr ts) \<and>
        (io, s) \<in> set [(io_ok, empty_fs), (io_ok, done_disk)] \<and>
        list_all2 (finished io (one_task_codec done_task) ''/c'' s) (get_children ''mum'' tr) ts"
proof -
  let ?tr = "snd (register_child ''mum'' ''kid'' new_tracker)"
  have kids: "get_children ''mum'' ?tr = [''kid'']" by (simp add: register_child_def get_children_def new_tracker_def)
  note evals = load_def path_exists_def sys_read_def checkpoint_path_def path_join_def starts_with_def ends_with_def
    done_disk_def empty_fs_def io_ok_def one_task_codec_def Let_def
  have "load io_ok (one_task_codec done_task) ''/c'' ''kid'' done_disk = Inr (Some done_task)" by (simp add: evals)
  moreover have "load io_ok (one_task_codec done_task) ''/c'' ''kid'' empty_fs = Inr None" by (simp add: evals)
  ultimately show ?thesis
    unfolding Let_def
    by (intro wait_for_children_ends [of _ _ _ _ _ io_ok done_disk "[done_task]"])
      (simp_all add: kids finished_def is_terminal_def, simp add: done_task_def)
qed

subsection \<open>Status of the children\<close>

definition counted :: "ChildrenStatus \<Rightarrow> nat" where
  "counted st = cs_pending st + cs_running st + cs_completed st + cs_failed st + cs_cancelled st"

lemma count_child_counted: "counted (count_child st status) = Suc (counted status) \<and> cs_total (count_child st status) = cs_total status"
  by (simp add: count_child_def counted_def)

lemma count_children_counted:
  "count_children io cd dir s cs status = Inr st \<Longrightarrow>
   counted st + length (filter (\<lambda>c. load io cd dir c s = Inr None) cs) = counted status + length cs \<and> cs_total st = cs_total status"
  by (induction cs arbitrary: status) (auto simp: count_child_counted split: sum.splits option.splits)

text \<open>Every child is counted once, except those without a checkpoint, which only the total counts.\<close>

lemma children_status_total:
  "get_children_status io cd dir s p tr = Inr st \<Longrightarrow>
   cs_total st = length (get_children p tr) \<and>
   counted st + length (filter (\<lambda>c. load io cd dir c s = Inr None) (get_children p tr)) = cs_total st"
  by (auto simp: get_children_status_def counted_def default_status_def Let_def dest: count_children_counted split: if_splits)

text \<open>A child without a checkpoint keeps the wait going while the status calls it terminal.\<close>

lemma missing_child_disagreement:
  assumes "get_children p tr = [c]" and "load io cd dir c s = Inr None"
  shows "wait_for_children cd dir p tr [(io, s)] = None"
    and "\<exists>st. get_children_status io cd dir s p tr = Inr st \<and> all_terminal st"
  using assms by (simp_all add: wait_for_children_def get_children_status_def all_terminal_def default_status_def Let_def)

end
