(* ===== verification/Reconciliation.thy ===== *)
theory Reconciliation
  imports Task_Executor
begin

section \<open>Reconciliation of tasks and machines (\<open>orchestrator/reconciliation.rs\<close>)\<close>

text \<open>
  The periodic pass that compares the checkpoints with the machines libvirt lists: it destroys
  machines no active task claims, fails tasks whose machine is gone and deletes old checkpoints.
  The clock readings are arguments: \<open>now\<close> for the ages, \<open>clock\<close> for the moment a task is failed.
\<close>

subsection \<open>Findings, actions and the report\<close>

datatype ReconciliationFinding =
  OrphanedVm string
| OrphanedTask string string
| StaleCheckpoint string u64

datatype ReconciliationAction =
  CleanupVm string
| FailTask string string
| DeleteCheckpoint string

record ActionResult =
  ar_action :: ReconciliationAction
  ar_success :: bool
  ar_error :: "string option"

record ReconciliationReport =
  rr_run_at :: timestamp
  rr_findings :: "ReconciliationFinding list"
  rr_actions_taken :: "ActionResult list"
  rr_dry_run :: bool

definition orphaned_vm_count :: "ReconciliationReport \<Rightarrow> nat" where
  "orphaned_vm_count r = length (filter (\<lambda>f. case f of OrphanedVm _ \<Rightarrow> True | _ \<Rightarrow> False) (rr_findings r))"

definition orphaned_task_count :: "ReconciliationReport \<Rightarrow> nat" where
  "orphaned_task_count r = length (filter (\<lambda>f. case f of OrphanedTask _ _ \<Rightarrow> True | _ \<Rightarrow> False) (rr_findings r))"

definition stale_checkpoint_count :: "ReconciliationReport \<Rightarrow> nat" where
  "stale_checkpoint_count r = length (filter (\<lambda>f. case f of StaleCheckpoint _ _ \<Rightarrow> True | _ \<Rightarrow> False) (rr_findings r))"

definition successful_actions :: "ReconciliationReport \<Rightarrow> nat" where
  "successful_actions r = length (filter ar_success (rr_actions_taken r))"

definition failed_actions :: "ReconciliationReport \<Rightarrow> nat" where
  "failed_actions r = length (filter (\<lambda>a. \<not> ar_success a) (rr_actions_taken r))"

record ReconciliationConfig =
  rc_interval :: u64
  rc_checkpoint_retention_days :: u64
  rc_managed_vm_prefix :: string
  rc_virsh_path :: string
  rc_destroy_script_path :: string

definition default_reconciliation_config :: ReconciliationConfig where
  "default_reconciliation_config =
     \<lparr>rc_interval = 300, rc_checkpoint_retention_days = 7, rc_managed_vm_prefix = ''task-'',
      rc_virsh_path = ''virsh'',
      rc_destroy_script_path = ''/opt/agentic-sandbox/scripts/destroy-vm.sh''\<rparr>"

datatype ReconciliationError =
  Checkpoint CheckpointError | Io string | VirshFailed string | CleanupFailed string string
| TaskNotFound string | StateTransition string

fun reconciliation_error_text :: "ReconciliationError \<Rightarrow> string" where
  "reconciliation_error_text (Checkpoint e) = ''Checkpoint error: '' @ checkpoint_error_text e"
| "reconciliation_error_text (Io e) = ''IO error: '' @ e"
| "reconciliation_error_text (VirshFailed e) = ''virsh command failed: '' @ e"
| "reconciliation_error_text (CleanupFailed vm e) = ''VM cleanup failed for '' @ vm @ '': '' @ e"
| "reconciliation_error_text (TaskNotFound i) = ''Task not found: '' @ i"
| "reconciliation_error_text (StateTransition e) = ''State transition error: '' @ e"

text \<open>The reconciler: the checkpoint store is its codec and directory.\<close>

record Reconciler =
  rec_codec :: task_codec
  rec_dir :: string
  rec_config :: ReconciliationConfig

subsection \<open>Reading both sides\<close>

fun load_each :: "io_env \<Rightarrow> Reconciler \<Rightarrow> fs \<Rightarrow> string list \<Rightarrow> CheckpointError + Task list" where
  "load_each io rc s [] = Inr []"
| "load_each io rc s (task_id # rest) =
     (case load io (rec_codec rc) (rec_dir rc) task_id s of
        Inl e \<Rightarrow> Inl e
      | Inr found \<Rightarrow>
          (case load_each io rc s rest of
             Inl e \<Rightarrow> Inl e
           | Inr tasks \<Rightarrow> Inr (case found of Some t \<Rightarrow> t # tasks | None \<Rightarrow> tasks)))"

definition load_all_tasks :: "io_env \<Rightarrow> Reconciler \<Rightarrow> fs \<Rightarrow> ReconciliationError + Task list" where
  "load_all_tasks io rc s =
     (case list_checkpoints io (rec_dir rc) s of
        Inl e \<Rightarrow> Inl (Checkpoint e)
      | Inr task_ids \<Rightarrow> map_sum Checkpoint id (load_each io rc s task_ids))"

definition virsh_args :: "string list" where
  "virsh_args = [''list'', ''--all'', ''--name'']"

definition list_managed_vms :: "exec_env \<Rightarrow> Reconciler \<Rightarrow> world \<Rightarrow> (ReconciliationError + string list) \<times> world" where
  "list_managed_vms env rc w =
     (case run_command env (rc_virsh_path (rec_config rc)) virsh_args w of
        (Inl e, w) \<Rightarrow> (Inl (Io e), w)
      | (Inr output, w) \<Rightarrow>
          if \<not> success output then (Inl (VirshFailed (out_stderr output)), w)
          else let prefix = trim (rc_managed_vm_prefix (rec_config rc))
               in if prefix = [] then (Inr [], w)
                  else (Inr (filter (starts_with prefix) (filter (\<lambda>s. s \<noteq> []) (map trim (str_lines (out_stdout output))))), w))"

subsection \<open>Findings\<close>

definition expects_vm :: "TaskState \<Rightarrow> bool" where
  "expects_vm st \<longleftrightarrow> st \<in> {Ready, Running, FailedPreserved}"

definition expected_vms :: "Task list \<Rightarrow> string set" where
  "expected_vms tasks = set (List.map_filter (\<lambda>t. if expects_vm (tk_state t) then tk_vm_name t else None) tasks)"

definition orphaned_vms :: "Task list \<Rightarrow> string list \<Rightarrow> ReconciliationFinding list" where
  "orphaned_vms tasks vms = map OrphanedVm (filter (\<lambda>vm. vm \<notin> expected_vms tasks) vms)"

definition orphaned_task :: "string list \<Rightarrow> Task \<Rightarrow> ReconciliationFinding option" where
  "orphaned_task vms t =
     (case tk_vm_name t of
        Some expected_vm \<Rightarrow>
          if tk_state t \<in> {Ready, Running} \<and> expected_vm \<notin> set vms
          then Some (OrphanedTask (tk_id t) expected_vm) else None
      | None \<Rightarrow> None)"

text \<open>Timestamps count nanoseconds; \<open>num_days\<close> rounds towards zero and \<open>as u64\<close> reinterprets the bits.\<close>

definition num_days :: "int \<Rightarrow> int" where
  "num_days d = sgn d * (\<bar>d\<bar> div (86400 * 1000000000))"

definition age_days :: "timestamp \<Rightarrow> Task \<Rightarrow> u64" where
  "age_days now t = word_of_int (num_days (now - tk_state_changed_at t))"

definition stale_checkpoint :: "Reconciler \<Rightarrow> timestamp \<Rightarrow> Task \<Rightarrow> ReconciliationFinding option" where
  "stale_checkpoint rc now t =
     (if is_terminal (tk_state t) \<and> rc_checkpoint_retention_days (rec_config rc) < age_days now t
      then Some (StaleCheckpoint (tk_id t) (age_days now t)) else None)"

definition find_all :: "Reconciler \<Rightarrow> timestamp \<Rightarrow> Task list \<Rightarrow> string list \<Rightarrow> ReconciliationFinding list" where
  "find_all rc now tasks vms =
     orphaned_vms tasks vms @ List.map_filter (orphaned_task vms) tasks @ List.map_filter (stale_checkpoint rc now) tasks"

fun plan_action :: "ReconciliationFinding \<Rightarrow> ReconciliationAction" where
  "plan_action (OrphanedVm vm_name) = CleanupVm vm_name"
| "plan_action (OrphanedTask task_id expected_vm) = FailTask task_id (''VM '' @ expected_vm @ '' not found'')"
| "plan_action (StaleCheckpoint task_id age) = DeleteCheckpoint task_id"

definition plan_actions :: "ReconciliationFinding list \<Rightarrow> ReconciliationAction list" where
  "plan_actions findings = map plan_action findings"

subsection \<open>Actions\<close>

definition reconciler_cleanup_vm :: "exec_env \<Rightarrow> Reconciler \<Rightarrow> string \<Rightarrow> world \<Rightarrow> (ReconciliationError + unit) \<times> world" where
  "reconciler_cleanup_vm env rc vm_name w =
     (case run_command env (rc_destroy_script_path (rec_config rc)) [vm_name, ''--force''] w of
        (Inl e, w) \<Rightarrow> (Inl (Io e), w)
      | (Inr output, w) \<Rightarrow>
          if \<not> success output then (Inl (CleanupFailed vm_name (out_stderr output)), w) else (Inr (), w))"

definition fail_task ::
  "exec_env \<Rightarrow> Reconciler \<Rightarrow> timestamp \<Rightarrow> string \<Rightarrow> string \<Rightarrow> world \<Rightarrow> (ReconciliationError + unit) \<times> world" where
  "fail_task env rc now task_id reason w =
     (case load (ee_io env) (rec_codec rc) (rec_dir rc) task_id (w_fs w) of
        Inl e \<Rightarrow> (Inl (Checkpoint e), w)
      | Inr None \<Rightarrow> (Inl (TaskNotFound task_id), w)
      | Inr (Some t) \<Rightarrow>
          (case transition_to now Failed (t\<lparr>tk_error := Some (''Reconciliation: '' @ reason)\<rparr>) of
             Inl e \<Rightarrow> (Inl (StateTransition (orchestrator_error_text e)), w)
           | Inr t' \<Rightarrow>
               try_io (lift_fs (save (ee_io env) (rec_codec rc) (rec_dir rc) t') w) Checkpoint (\<lambda>_ w. (Inr (), w))))"

definition delete_checkpoint :: "exec_env \<Rightarrow> Reconciler \<Rightarrow> string \<Rightarrow> world \<Rightarrow> (ReconciliationError + unit) \<times> world" where
  "delete_checkpoint env rc task_id w =
     try_io (lift_fs (delete (ee_io env) (rec_dir rc) task_id) w) Checkpoint (\<lambda>_ w. (Inr (), w))"

fun execute_action ::
  "exec_env \<Rightarrow> Reconciler \<Rightarrow> (string \<Rightarrow> timestamp) \<Rightarrow> ReconciliationAction \<Rightarrow> world \<Rightarrow> (ReconciliationError + unit) \<times> world" where
  "execute_action env rc clock (CleanupVm vm_name) w = reconciler_cleanup_vm env rc vm_name w"
| "execute_action env rc clock (FailTask task_id reason) w = fail_task env rc (clock task_id) task_id reason w"
| "execute_action env rc clock (DeleteCheckpoint task_id) w = delete_checkpoint env rc task_id w"

definition action_result :: "ReconciliationAction \<Rightarrow> ReconciliationError + unit \<Rightarrow> ActionResult" where
  "action_result action r =
     (case r of
        Inr _ \<Rightarrow> \<lparr>ar_action = action, ar_success = True, ar_error = None\<rparr>
      | Inl e \<Rightarrow> \<lparr>ar_action = action, ar_success = False, ar_error = Some (reconciliation_error_text e)\<rparr>)"

fun execute_actions ::
  "exec_env \<Rightarrow> Reconciler \<Rightarrow> (string \<Rightarrow> timestamp) \<Rightarrow> ReconciliationAction list \<Rightarrow> world \<Rightarrow> ActionResult list \<times> world" where
  "execute_actions env rc clock [] w = ([], w)"
| "execute_actions env rc clock (action # rest) w =
     (case execute_action env rc clock action w of
        (r, w1) \<Rightarrow>
          (case execute_actions env rc clock rest w1 of
             (results, w2) \<Rightarrow> (action_result action r # results, w2)))"

definition reconcile ::
  "exec_env \<Rightarrow> Reconciler \<Rightarrow> timestamp \<Rightarrow> (string \<Rightarrow> timestamp) \<Rightarrow> timestamp \<Rightarrow> bool \<Rightarrow> world
     \<Rightarrow> (ReconciliationError + ReconciliationReport) \<times> world" where
  "reconcile env rc now clock run_at dry_run w =
     (case load_all_tasks (ee_io env) rc (w_fs w) of
        Inl e \<Rightarrow> (Inl e, w)
      | Inr tasks \<Rightarrow>
          (case list_managed_vms env rc w of
             (Inl e, w) \<Rightarrow> (Inl e, w)
           | (Inr vms, w) \<Rightarrow>
               let findings = find_all rc now tasks vms; actions = plan_actions findings
               in case (if dry_run then (map (\<lambda>a. action_result a (Inr ())) actions, w)
                        else execute_actions env rc clock actions w) of
                    (results, w) \<Rightarrow>
                      (Inr \<lparr>rr_run_at = run_at, rr_findings = findings, rr_actions_taken = results, rr_dry_run = dry_run\<rparr>, w)))"



subsection \<open>What a pass touches\<close>

text \<open>
  Every checkpoint holds the task it is named after, as \<open>save\<close> writes it, and programs leave the
  checkpoints alone.
\<close>

definition own_checkpoints :: "io_env \<Rightarrow> Reconciler \<Rightarrow> fs \<Rightarrow> bool" where
  "own_checkpoints io rc s \<longleftrightarrow>
     (\<forall>i t. relative i \<longrightarrow> load io (rec_codec rc) (rec_dir rc) i s = Inr (Some t) \<longrightarrow> tk_id t = i \<and> serializable t)"

definition keeps_checkpoints :: "exec_env \<Rightarrow> Reconciler \<Rightarrow> bool" where
  "keeps_checkpoints env rc \<longleftrightarrow>
     (\<forall>prog args s i. load (ee_io env) (rec_codec rc) (rec_dir rc) i (ee_effect env prog args s) =
        load (ee_io env) (rec_codec rc) (rec_dir rc) i s)"

lemma trim_end_str_take: "\<exists>n. trim_end_str p s = take n s"
proof (induction p s rule: trim_end_str.induct)
  case (1 p s)
  show ?case
  proof (cases "p \<noteq> [] \<and> ends_with p s")
    case True
    with 1 obtain n where "trim_end_str p (take (length s - length p) s) = take n (take (length s - length p) s)" by blast
    with True show ?thesis by (subst trim_end_str.simps) (auto simp: take_take)
  next
    case False
    then show ?thesis by (subst trim_end_str.simps) (metis take_all_iff order_refl)
  qed
qed

lemma listed_relative:
  assumes "list_checkpoints io d s = Inr ids" and "i \<in> set ids"
  shows "relative i"
proof -
  obtain e where e: "e \<in> set (dir_entries d s)" "i = trim_end_str ''.checkpoint.json'' e"
    using assms by (auto simp: list_checkpoints_def split: if_splits option.splits)
  then have "CHR ''/'' \<notin> set e"
    by (auto simp: dir_entries_def List.map_filter_def entry_name_def Let_def split: if_splits)
  then have "CHR ''/'' \<notin> set i" using trim_end_str_take [of "''.checkpoint.json''" e] e(2) in_set_takeD by metis
  then show ?thesis by (auto simp: relative_def starts_with_slash)
qed

lemma load_each_tasks:
  "load_each io rc s ids = Inr tasks \<Longrightarrow> t \<in> set tasks \<Longrightarrow>
   \<exists>i \<in> set ids. load io (rec_codec rc) (rec_dir rc) i s = Inr (Some t)"
  by (induction ids arbitrary: tasks) (auto split: sum.splits option.splits)

lemma loaded_task:
  assumes "load_all_tasks io rc s = Inr tasks" and "t \<in> set tasks" and "own_checkpoints io rc s"
  shows "relative (tk_id t)" and "load io (rec_codec rc) (rec_dir rc) (tk_id t) s = Inr (Some t)"
proof -
  obtain ids where ids: "list_checkpoints io (rec_dir rc) s = Inr ids" "load_each io rc s ids = Inr tasks"
    using assms(1) by (auto simp: load_all_tasks_def map_sum_Inr split: sum.splits)
  obtain i where i: "i \<in> set ids" "load io (rec_codec rc) (rec_dir rc) i s = Inr (Some t)"
    using load_each_tasks [OF ids(2) assms(2)] by blast
  with listed_relative [OF ids(1) i(1)] assms(3) show "relative (tk_id t)"
    and "load io (rec_codec rc) (rec_dir rc) (tk_id t) s = Inr (Some t)"
    by (auto simp: own_checkpoints_def)
qed

lemma relative_checkpoint_inject:
  "relative i \<Longrightarrow> relative j \<Longrightarrow> checkpoint_path d i = checkpoint_path d j \<longleftrightarrow> i = j"
  using path_join_inject [of "i @ ''.checkpoint.json''" "j @ ''.checkpoint.json''" d]
  by (cases i; cases j) (simp_all add: checkpoint_path_def relative_def starts_with_def)

lemma own_save:
  assumes "save io cd d t s = (r, s')" and "task_roundtrip cd" and "serializable t" and "relative (tk_id t)"
    and "io_fail io ''read'' (checkpoint_path d (tk_id t)) = None"
    and "relative i" and "load io cd d i s' \<noteq> load io cd d i s"
  shows "i = tk_id t \<and> load io cd d i s' = Inr (Some t)"
proof -
  have "i = tk_id t" "r = Inr ()"
    using load_cong [of s' d i s io cd] save_files [OF assms(1) temp_not_checkpoint [symmetric], of i] assms(4,6,7)
    by (auto simp: relative_checkpoint_inject split: if_splits)
  with load_saved [OF _ assms(2,3,5), of io s s'] assms(1) show ?thesis by simp
qed

lemma own_delete:
  assumes "delete io d j s = (r, s')" and "relative j" and "relative i" and "load io cd d i s' \<noteq> load io cd d i s"
  shows "i = j \<and> (\<forall>t'. load io cd d i s' \<noteq> Inr (Some t'))"
proof -
  have files: "map_of (fs_files s') (checkpoint_path d i) =
      (if i = j \<and> r = Inr () then None else map_of (fs_files s) (checkpoint_path d i)) \<and> fs_dirs s' = fs_dirs s"
    using assms(1-3)
    by (auto simp: delete_def Let_def sys_remove_def relative_checkpoint_inject path_exists_def
        temp_not_checkpoint [symmetric] split: if_splits option.splits)
  then have "i = j" "r = Inr ()" using load_cong [of s' d i s io cd] assms(4) by (auto split: if_splits)
  with files show ?thesis by (auto simp: load_def Let_def sys_read_def split: option.splits if_splits sum.splits)
qed

lemma load_Some_read: "load io cd d i s = Inr (Some t) \<Longrightarrow> io_fail io ''read'' (checkpoint_path d i) = None"
  by (auto simp: load_def Let_def sys_read_def split: if_splits sum.splits option.splits)

fun touches :: "ReconciliationAction \<Rightarrow> string \<Rightarrow> CheckpointError + Task option \<Rightarrow> bool" where
  "touches (CleanupVm vm) i r = False"
| "touches (FailTask j reason) i r = (i = j \<and> (\<exists>t. r = Inr (Some t) \<and> tk_state t = Failed))"
| "touches (DeleteCheckpoint j) i r = (i = j \<and> (\<forall>t. r \<noteq> Inr (Some t)))"

fun target_relative :: "ReconciliationAction \<Rightarrow> bool" where
  "target_relative (CleanupVm vm) = True"
| "target_relative (FailTask j reason) = relative j"
| "target_relative (DeleteCheckpoint j) = relative j"

abbreviation checkpoint_of where
  "checkpoint_of env rc i w \<equiv> load (ee_io env) (rec_codec rc) (rec_dir rc) i (w_fs w)"

lemma run_command_checkpoints:
  "keeps_checkpoints env rc \<Longrightarrow> run_command env prog args w = (r, w1) \<Longrightarrow> checkpoint_of env rc i w1 = checkpoint_of env rc i w"
  by (auto simp: run_command_def started_def keeps_checkpoints_def split: sum.splits)

lemma lift_fs_eq: "lift_fs f w = (r, w1) \<longleftrightarrow> (\<exists>s. f (w_fs w) = (r, s) \<and> w1 = w\<lparr>w_fs := s\<rparr>)"
  by (auto simp: lift_fs_def split: prod.splits)

lemma fail_task_touches:
  assumes "fail_task env rc now j reason w = (r, w1)" and "task_roundtrip (rec_codec rc)"
    and "own_checkpoints (ee_io env) rc (w_fs w)" and "relative j" and "relative i"
    and "checkpoint_of env rc i w1 \<noteq> checkpoint_of env rc i w"
  shows "\<exists>t. checkpoint_of env rc i w1 = Inr (Some t) \<and> tk_state t = Failed \<and> i = j \<and> tk_id t = j \<and> serializable t"
proof -
  obtain t0 where t0: "checkpoint_of env rc j w = Inr (Some t0)"
    using assms(1,6) by (auto simp: fail_task_def split: sum.splits option.splits)
  obtain t where t: "transition_to now Failed (t0\<lparr>tk_error := Some (''Reconciliation: '' @ reason)\<rparr>) = Inr t"
    using assms(1,6) t0 by (auto simp: fail_task_def split: sum.splits)
  then have same: "tk_id t = tk_id t0" "tk_state t = Failed" "serializable t = serializable t0"
    by (auto simp: transition_to_def serializable_def split: if_splits)
  obtain r' s where s: "save (ee_io env) (rec_codec rc) (rec_dir rc) t (w_fs w) = (r', s)" by fastforce
  have w1: "w_fs w1 = s" using assms(1) t0 t s by (auto simp: fail_task_def lift_fs_def try_io_def split: sum.splits)
  have "tk_id t0 = j" "serializable t0" using assms(3,4) t0 by (auto simp: own_checkpoints_def)
  with own_save [OF s assms(2), of i] load_Some_read [OF t0] same assms(4-6) w1 show ?thesis by auto
qed

lemma own_step:
  assumes "own_checkpoints io rc s"
    and "\<And>i t. relative i \<Longrightarrow> load io (rec_codec rc) (rec_dir rc) i s1 \<noteq> load io (rec_codec rc) (rec_dir rc) i s \<Longrightarrow>
      load io (rec_codec rc) (rec_dir rc) i s1 = Inr (Some t) \<Longrightarrow> tk_id t = i \<and> serializable t"
  shows "own_checkpoints io rc s1"
  using assms unfolding own_checkpoints_def by metis

lemma execute_action_checkpoints:
  assumes "keeps_checkpoints env rc" and "task_roundtrip (rec_codec rc)" and "own_checkpoints (ee_io env) rc (w_fs w)"
    and "target_relative act" and "execute_action env rc clock act w = (r, w1)"
  shows "own_checkpoints (ee_io env) rc (w_fs w1) \<and>
    (\<forall>i. relative i \<longrightarrow> checkpoint_of env rc i w1 \<noteq> checkpoint_of env rc i w \<longrightarrow> touches act i (checkpoint_of env rc i w1))"
proof (cases act)
  case (CleanupVm vm)
  then have "checkpoint_of env rc i w1 = checkpoint_of env rc i w" for i
    using assms(1,5) run_command_checkpoints [OF assms(1)]
    by (auto simp: reconciler_cleanup_vm_def split: prod.splits sum.splits if_splits)
  with assms(3) show ?thesis by (simp add: own_checkpoints_def)
next
  case (FailTask j reason)
  with assms(4,5) have ft: "fail_task env rc (clock j) j reason w = (r, w1)" "relative j" by auto
  note f = fail_task_touches [OF ft(1) assms(2,3) ft(2)]
  have "own_checkpoints (ee_io env) rc (w_fs w1)"
    by (rule own_step [OF assms(3)]) (use f in fastforce)
  with f FailTask show ?thesis by fastforce
next
  case (DeleteCheckpoint j)
  with assms(5) obtain r' s where s: "delete (ee_io env) (rec_dir rc) j (w_fs w) = (r', s)" "w_fs w1 = s"
    by (auto simp: delete_checkpoint_def lift_fs_def try_io_def split: prod.splits sum.splits)
  have d: "i = j \<and> (\<forall>t'. checkpoint_of env rc i w1 \<noteq> Inr (Some t'))"
    if "relative i" "checkpoint_of env rc i w1 \<noteq> checkpoint_of env rc i w" for i
    using own_delete [OF s(1), of i "rec_codec rc"] that s(2) assms(4) DeleteCheckpoint by auto
  have "own_checkpoints (ee_io env) rc (w_fs w1)"
    by (rule own_step [OF assms(3)]) (metis d)
  with d DeleteCheckpoint show ?thesis by simp
qed

lemma execute_actions_checkpoints:
  assumes "keeps_checkpoints env rc" and "task_roundtrip (rec_codec rc)"
  shows "own_checkpoints (ee_io env) rc (w_fs w) \<Longrightarrow> list_all target_relative acts \<Longrightarrow>
    execute_actions env rc clock acts w = (results, w') \<Longrightarrow> relative i \<Longrightarrow>
    checkpoint_of env rc i w' \<noteq> checkpoint_of env rc i w \<Longrightarrow> \<exists>act \<in> set acts. touches act i (checkpoint_of env rc i w')"
proof (induction acts arbitrary: w results)
  case (Cons act acts)
  obtain r w1 where 1: "execute_action env rc clock act w = (r, w1)" by fastforce
  obtain results1 where 2: "execute_actions env rc clock acts w1 = (results1, w')"
    using Cons.prems(3) 1 by (auto split: prod.splits)
  have 3: "own_checkpoints (ee_io env) rc (w_fs w1)"
      "checkpoint_of env rc i w1 \<noteq> checkpoint_of env rc i w \<Longrightarrow> touches act i (checkpoint_of env rc i w1)"
    using execute_action_checkpoints [OF assms Cons.prems(1) _ 1] Cons.prems(2,4) by auto
  show ?case
  proof (cases "checkpoint_of env rc i w' = checkpoint_of env rc i w1")
    case True
    with 3(2) Cons.prems(5) show ?thesis by auto
  next
    case False
    with Cons.IH [OF 3(1) _ 2 Cons.prems(4)] Cons.prems(2) show ?thesis by auto
  qed
qed simp

lemma execute_actions_commands:
  "execute_actions env rc clock acts w = (results, w') \<Longrightarrow> c \<in> set (w_commands w') \<Longrightarrow>
   c \<in> set (w_commands w) \<or> (\<exists>vm. CleanupVm vm \<in> set acts \<and> c = (rc_destroy_script_path (rec_config rc), [vm, ''--force'']))"
proof (induction acts arbitrary: w results)
  case (Cons act acts)
  obtain r w1 where 1: "execute_action env rc clock act w = (r, w1)" by fastforce
  obtain results1 where 2: "execute_actions env rc clock acts w1 = (results1, w')"
    using Cons.prems(1) 1 by (auto split: prod.splits)
  have "c \<in> set (w_commands w) \<or> (\<exists>vm. act = CleanupVm vm \<and> c = (rc_destroy_script_path (rec_config rc), [vm, ''--force'']))"
    if "c \<in> set (w_commands w1)"
    using 1 that
    by (cases act)
      (auto simp: reconciler_cleanup_vm_def run_command_def started_def fail_task_def delete_checkpoint_def lift_fs_def try_io_def
        split: sum.splits if_splits prod.splits option.splits)
  with Cons.IH [OF 2 Cons.prems(2)] show ?case by auto
qed simp

lemma planned_cleanup:
  "CleanupVm vm \<in> set (plan_actions (find_all rc now tasks vms)) \<longleftrightarrow> vm \<in> set vms \<and> vm \<notin> expected_vms tasks"
  by (auto simp: plan_actions_def find_all_def orphaned_vms_def orphaned_task_def stale_checkpoint_def List.map_filter_def
      image_iff split: option.splits if_splits)

definition lost_vm :: "string list \<Rightarrow> Task \<Rightarrow> bool" where
  "lost_vm vms t \<longleftrightarrow> tk_state t \<in> {Ready, Running} \<and> (\<exists>vm. tk_vm_name t = Some vm \<and> vm \<notin> set vms)"

definition outlived :: "Reconciler \<Rightarrow> timestamp \<Rightarrow> Task \<Rightarrow> bool" where
  "outlived rc now t \<longleftrightarrow> is_terminal (tk_state t) \<and> rc_checkpoint_retention_days (rec_config rc) < age_days now t"

lemma planned_task_action:
  assumes "act \<in> set (plan_actions (find_all rc now tasks vms))"
  shows "(\<exists>vm. act = CleanupVm vm) \<or>
    (\<exists>t \<in> set tasks. lost_vm vms t \<and> (\<exists>reason. act = FailTask (tk_id t) reason)) \<or>
    (\<exists>t \<in> set tasks. outlived rc now t \<and> act = DeleteCheckpoint (tk_id t))"
proof -
  obtain f where f: "f \<in> set (find_all rc now tasks vms)" "act = plan_action f"
    using assms by (auto simp: plan_actions_def)
  then consider vm where "f = OrphanedVm vm" | t where "t \<in> set tasks" "orphaned_task vms t = Some f"
    | t where "t \<in> set tasks" "stale_checkpoint rc now t = Some f"
    by (auto simp: find_all_def orphaned_vms_def List.map_filter_def)
  then show ?thesis
    using f(2) by cases (auto simp: orphaned_task_def stale_checkpoint_def lost_vm_def outlived_def split: option.splits if_splits)
qed

lemma listed_vms:
  assumes "list_managed_vms env rc w = (Inr vms, w1)"
  shows "(\<forall>vm \<in> set vms. trim (rc_managed_vm_prefix (rec_config rc)) \<noteq> [] \<and>
      starts_with (trim (rc_managed_vm_prefix (rec_config rc))) vm) \<and>
    w1 = started env (rc_virsh_path (rec_config rc)) virsh_args w"
  using assms by (auto simp: list_managed_vms_def run_command_def Let_def split: sum.splits if_splits)

lemma expected_vms_iff: "vm \<in> expected_vms tasks \<longleftrightarrow> (\<exists>t \<in> set tasks. expects_vm (tk_state t) \<and> tk_vm_name t = Some vm)"
  by (auto simp: expected_vms_def List.map_filter_def split: if_splits) (force split: if_splits)+

lemma reconcile_result:
  assumes "reconcile env rc now clock run_at dry_run w = (Inr report, w')"
  obtains tasks vms w1 where "load_all_tasks (ee_io env) rc (w_fs w) = Inr tasks"
    and "list_managed_vms env rc w = (Inr vms, w1)" and "rr_findings report = find_all rc now tasks vms"
    and "if dry_run then w' = w1
      else execute_actions env rc clock (plan_actions (find_all rc now tasks vms)) w1 = (rr_actions_taken report, w')"
  using assms by (auto simp: reconcile_def Let_def split: sum.splits prod.splits if_splits)

text \<open>One pass, from the tasks and machines it has read to the state it leaves.\<close>

definition pass :: "exec_env \<Rightarrow> Reconciler \<Rightarrow> timestamp \<Rightarrow> bool \<Rightarrow> Task list \<Rightarrow> string list \<Rightarrow> world \<Rightarrow> world \<Rightarrow> bool" where
  "pass env rc now dry_run tasks vms w w' \<longleftrightarrow>
     (\<exists>w1 clock results. list_managed_vms env rc w = (Inr vms, w1) \<and>
        (if dry_run then w' = w1
         else execute_actions env rc clock (plan_actions (find_all rc now tasks vms)) w1 = (results, w')))"

lemma pass_command:
  assumes "pass env rc now dry_run tasks vms w w'" and "c \<in> set (w_commands w') - set (w_commands w)"
  shows "c = (rc_virsh_path (rec_config rc), virsh_args) \<or>
    (\<exists>vm \<in> set vms. \<not> dry_run \<and> c = (rc_destroy_script_path (rec_config rc), [vm, ''--force'']) \<and>
       starts_with (trim (rc_managed_vm_prefix (rec_config rc))) vm \<and> vm \<notin> expected_vms tasks)"
proof -
  obtain w1 clock results where vms: "list_managed_vms env rc w = (Inr vms, w1)"
    and acts: "if dry_run then w' = w1
      else execute_actions env rc clock (plan_actions (find_all rc now tasks vms)) w1 = (results, w')"
    using assms(1) by (auto simp: pass_def)
  note listed = listed_vms [OF vms]
  have "c \<in> set (w_commands w1) \<or> \<not> dry_run \<and> (\<exists>vm. CleanupVm vm \<in> set (plan_actions (find_all rc now tasks vms)) \<and>
      c = (rc_destroy_script_path (rec_config rc), [vm, ''--force'']))"
    using acts assms(2) execute_actions_commands [of env rc clock _ w1 results w' c] by (auto split: if_splits)
  with listed assms(2) show ?thesis by (auto simp: started_def planned_cleanup)
qed

lemma pass_checkpoint:
  assumes "pass env rc now dry_run tasks vms w w'" and "keeps_checkpoints env rc" and "task_roundtrip (rec_codec rc)"
    and "own_checkpoints (ee_io env) rc (w_fs w)" and "load_all_tasks (ee_io env) rc (w_fs w) = Inr tasks"
    and "relative i" and "checkpoint_of env rc i w' \<noteq> checkpoint_of env rc i w"
  shows "\<not> dry_run \<and> (\<exists>act \<in> set (plan_actions (find_all rc now tasks vms)). touches act i (checkpoint_of env rc i w'))"
proof -
  obtain w1 clock results where vms: "list_managed_vms env rc w = (Inr vms, w1)"
    and acts: "if dry_run then w' = w1
      else execute_actions env rc clock (plan_actions (find_all rc now tasks vms)) w1 = (results, w')"
    using assms(1) by (auto simp: pass_def)
  have same: "checkpoint_of env rc i w1 = checkpoint_of env rc i w" for i
    using listed_vms [OF vms] assms(2) by (simp add: started_def keeps_checkpoints_def)
  have own: "own_checkpoints (ee_io env) rc (w_fs w1)" using assms(4) same by (simp add: own_checkpoints_def)
  have rel: "list_all target_relative (plan_actions (find_all rc now tasks vms))"
    using planned_task_action loaded_task(1) [OF assms(5) _ assms(4)] by (fastforce simp: list_all_iff)
  show ?thesis
    using acts same execute_actions_checkpoints [OF assms(2,3) own rel, of clock results w' i] assms(6,7)
    by (auto split: if_splits)
qed


definition lost_task :: Task where
  "lost_task = demo_task\<lparr>tk_state := Running, tk_vm_name := Some ''task-gone''\<rparr>"

definition lost_disk :: fs where
  "lost_disk = \<lparr>fs_files = [(''/c/task-0001.checkpoint.json'', ''x'')], fs_dirs = [''/c'']\<rparr>"

definition lost_reconciler :: Reconciler where
  "lost_reconciler =
     \<lparr>rec_codec = one_task_codec lost_task, rec_dir = ''/c'', rec_config = default_reconciliation_config\<rparr>"

definition lost_env :: exec_env where
  "lost_env =
     \<lparr>ee_io = io_ok, ee_secret = demo_secret_env,
      ee_command = (\<lambda>prog args. Inr \<lparr>out_code = Some 0, out_stdout = ''task-spare'' @ nl @ ''web'' @ nl, out_stderr = []\<rparr>),
      ee_effect = (\<lambda>prog args s. s), ee_ssh = (\<lambda>args. Inl ''no ssh''), ee_parse_json = (\<lambda>s. Inl ''no json''),
      ee_hash_order = (\<lambda>kvs. kvs), ee_glob = (\<lambda>p. Inl ''no glob'')\<rparr>"

definition lost_world :: world where
  "lost_world = \<lparr>w_fs = lost_disk, w_secrets = new_resolver demo_secret_env, w_commands = []\<rparr>"

lemma lost_load:
  "load io_ok (one_task_codec lost_task) ''/c'' ''task-0001'' lost_disk = Inr (Some lost_task)"
  by (simp add: load_def path_exists_def sys_read_def checkpoint_path_def lost_disk_def path_join_def starts_with_def
      ends_with_def one_task_codec_def Let_def io_ok_def)

lemma lost_tasks: "load_all_tasks io_ok lost_reconciler lost_disk = Inr [lost_task]"
proof -
  have "list_checkpoints io_ok ''/c'' lost_disk = Inr [''task-0001'']"
    using trim_end_str_once [of "''.checkpoint.json''" "''task-0001''"]
    by (simp add: list_checkpoints_def path_exists_def dir_entries_def List.map_filter_def entry_name_def lost_disk_def
        path_join_def starts_with_def ends_with_def Let_def io_ok_def)
  then show ?thesis by (simp add: load_all_tasks_def lost_reconciler_def lost_load)
qed

lemma lost_vms: "fst (list_managed_vms lost_env lost_reconciler lost_world) = Inr [''task-spare'']"
proof -
  have "filter (starts_with (trim ''task-'')) (filter (\<lambda>s. s \<noteq> []) (map trim (str_lines (''task-spare'' @ nl @ ''web'' @ nl)))) =
      [''task-spare''] \<and> trim ''task-'' \<noteq> []"
    by code_simp
  then show ?thesis
    by (simp add: list_managed_vms_def run_command_def lost_env_def lost_reconciler_def success_def
        default_reconciliation_config_def Let_def del: append.simps)
qed

lemma lost_own: "own_checkpoints io_ok lost_reconciler lost_disk"
proof -
  have "checkpoint_path ''/c'' ''task-0001'' = ''/c/task-0001.checkpoint.json''"
    by (simp add: checkpoint_path_def path_join_def starts_with_def ends_with_def)
  then have "i = ''task-0001''" if "relative i" "load io_ok (one_task_codec lost_task) ''/c'' i lost_disk = Inr (Some t)" for i t
    using that relative_checkpoint_inject [of i "''task-0001''" "''/c''"]
    by (auto simp: load_def sys_read_def lost_disk_def Let_def relative_def starts_with_def ok_or_def
        split: if_splits sum.splits option.splits)
  with lost_load show ?thesis
    by (fastforce simp: own_checkpoints_def lost_reconciler_def lost_task_def demo_task_def serializable_def)
qed


subsection \<open>Machines and checkpoints that go too early\<close>

text \<open>
  A machine is spared only when a checkpoint names it in a ready, running or preserved state. The
  machine of a task that is still being provisioned is not named by any checkpoint, and that of a
  completing task is not spared either.
\<close>

lemma provisioning_vm_destroyed:
  assumes "vm \<in> set vms" and "\<forall>t \<in> set tasks. tk_vm_name t = Some vm \<longrightarrow> tk_state t = Completing"
  shows "CleanupVm vm \<in> set (plan_actions (find_all rc now tasks vms))"
  using assms by (auto simp: planned_cleanup expected_vms_iff expects_vm_def)

text \<open>A preserved machine is spared until its checkpoint is past the retention time, and then goes with it.\<close>

lemma preserved_vm_outlived:
  assumes "outlived rc now t" and "t \<in> set tasks" and "vm \<in> set vms"
    and "\<forall>t' \<in> set tasks'. tk_vm_name t' \<noteq> Some vm"
  shows "DeleteCheckpoint (tk_id t) \<in> set (plan_actions (find_all rc now tasks vms)) \<and>
    CleanupVm vm \<in> set (plan_actions (find_all rc now tasks' vms))"
  using assms by (auto simp: plan_actions_def find_all_def stale_checkpoint_def outlived_def List.map_filter_def image_iff
      orphaned_vms_def expected_vms_iff)

text \<open>The age of a task that finished a day or more after the clock reading wraps to almost \<open>2\<^sup>64\<close> days.\<close>

lemma future_checkpoint_stale:
  assumes "is_terminal (tk_state t)" and "tk_state_changed_at t = now + 86400 * 1000000000"
  shows "outlived lost_reconciler now t"
proof -
  have "age_days now t = - 1" using assms(2) by (simp add: age_days_def num_days_def)
  moreover have "(7 :: u64) < - 1" by code_simp
  ultimately show ?thesis
    using assms(1) by (simp add: outlived_def lost_reconciler_def default_reconciliation_config_def)
qed

end
