(* ===== verification/Session_Replay.thy ===== *)
theory Session_Replay
  imports Rust_Prelude
begin

section \<open>Session frames and the replay ring (\<open>session/mod.rs\<close>, \<open>session/replay.rs\<close>)\<close>

text \<open>
  The frames a terminal session emits and the bounded ring of recent frames. Raw terminal bytes are
  strings; the base64 text of a payload is the parameter \<open>encode\<close>. Sizes of data in memory are
  natural numbers, sequence numbers and counters are words.
\<close>

type_synonym SessionId = string
type_synonym ClientId = string

subsection \<open>Frames\<close>

datatype Role = Controller | Observer

fun role_text :: "Role \<Rightarrow> string" where
  "role_text Controller = ''controller''"
| "role_text Observer = ''observer''"

definition role_from_str :: "string \<Rightarrow> Role" where
  "role_from_str s = (if s = ''controller'' then Controller else Observer)"

datatype StreamKind = Stdout | Stderr | Log

fun stream_text :: "StreamKind \<Rightarrow> string" where
  "stream_text Stdout = ''stdout''"
| "stream_text Stderr = ''stderr''"
| "stream_text Log = ''log''"

datatype SessionPayload =
  Output StreamKind string
| Keyframe StreamKind string
| Resize u16 u16
| RoleAssigned Role
| MembershipChanged "ClientId list" "ClientId list"
| Closed "int option"
| Error string

record SessionFrame =
  sf_session_id :: SessionId
  sf_seq :: u64
  sf_ts :: int
  sf_payload :: SessionPayload

subsection \<open>Ring entries\<close>

datatype RingEntryKind =
  RawOutput StreamKind string
| RawKeyframe StreamKind string
| Control SessionPayload

record RingEntry =
  re_seq :: u64
  re_ts :: int
  re_kind :: RingEntryKind

definition to_wire :: "(string \<Rightarrow> string) \<Rightarrow> SessionId \<Rightarrow> RingEntry \<Rightarrow> SessionFrame" where
  "to_wire encode session_id e =
     \<lparr>sf_session_id = session_id, sf_seq = re_seq e, sf_ts = re_ts e,
      sf_payload =
        (case re_kind e of
           RawOutput stream data \<Rightarrow> Output stream (encode data)
         | RawKeyframe stream data \<Rightarrow> Keyframe stream (encode data)
         | Control p \<Rightarrow> p)\<rparr>"

definition cost_bytes :: "RingEntry \<Rightarrow> nat" where
  "cost_bytes e =
     (case re_kind e of
        RawOutput stream data \<Rightarrow> length data
      | RawKeyframe stream data \<Rightarrow> length data
      | Control p \<Rightarrow> 64)"

subsection \<open>The ring\<close>

definition DEFAULT_VISIBLE_ROWS :: nat where
  "DEFAULT_VISIBLE_ROWS = 24"

definition DEFAULT_VISIBLE_COLS :: nat where
  "DEFAULT_VISIBLE_COLS = 80"

definition DEFAULT_HOT_SCREENS :: nat where
  "DEFAULT_HOT_SCREENS = 3"

definition DEFAULT_MAX_FRAMES :: nat where
  "DEFAULT_MAX_FRAMES = DEFAULT_VISIBLE_ROWS * DEFAULT_HOT_SCREENS"

definition DEFAULT_MAX_BYTES :: nat where
  "DEFAULT_MAX_BYTES = DEFAULT_VISIBLE_ROWS * DEFAULT_VISIBLE_COLS * DEFAULT_HOT_SCREENS * 4"

record ReplayBuffer =
  rb_frames :: "RingEntry list"
  rb_max_frames :: nat
  rb_max_bytes :: nat
  rb_total_bytes :: nat
  rb_evicted_frames_total :: u64
  rb_evicted_bytes_total :: u64
  rb_last_keyframe_seq :: "u64 option"

definition with_byte_cap :: "nat \<Rightarrow> nat \<Rightarrow> ReplayBuffer" where
  "with_byte_cap max_frames max_bytes =
     \<lparr>rb_frames = [], rb_max_frames = max_frames, rb_max_bytes = max_bytes, rb_total_bytes = 0,
      rb_evicted_frames_total = 0, rb_evicted_bytes_total = 0, rb_last_keyframe_seq = None\<rparr>"

definition new_buffer :: "nat \<Rightarrow> ReplayBuffer" where
  "new_buffer max_frames = with_byte_cap max_frames DEFAULT_MAX_BYTES"

definition evict_front :: "RingEntry \<Rightarrow> RingEntry list \<Rightarrow> ReplayBuffer \<Rightarrow> ReplayBuffer" where
  "evict_front e rest b =
     b\<lparr>rb_frames := rest, rb_total_bytes := rb_total_bytes b - cost_bytes e,
       rb_evicted_frames_total := saturating_add (rb_evicted_frames_total b) 1,
       rb_evicted_bytes_total := saturating_add (rb_evicted_bytes_total b) (of_nat (cost_bytes e)),
       rb_last_keyframe_seq :=
         (if rb_last_keyframe_seq b = Some (re_seq e) then None else rb_last_keyframe_seq b)\<rparr>"

text \<open>The eviction loop of \<open>push_entry\<close>; it ends when the entry fits or the ring is empty.\<close>

function make_room :: "nat \<Rightarrow> ReplayBuffer \<Rightarrow> RingEntry list \<times> ReplayBuffer" where
  "make_room cost b =
     (if rb_max_frames b \<le> length (rb_frames b) \<or> rb_max_bytes b < rb_total_bytes b + cost \<and> rb_frames b \<noteq> []
      then case rb_frames b of
             [] \<Rightarrow> ([], b)
           | e # rest \<Rightarrow> map_prod ((#) e) id (make_room cost (evict_front e rest b))
      else ([], b))"
  by pat_completeness auto
termination
  by (relation "measure (\<lambda>(cost, b). length (rb_frames b))") (auto simp: evict_front_def)

declare make_room.simps [simp del]

definition push_entry :: "RingEntry \<Rightarrow> ReplayBuffer \<Rightarrow> RingEntry list \<times> ReplayBuffer" where
  "push_entry e b =
     (case make_room (cost_bytes e) b of
        (evicted, b) \<Rightarrow>
          (evicted, b\<lparr>rb_frames := rb_frames b @ [e], rb_total_bytes := rb_total_bytes b + cost_bytes e\<rparr>))"

definition push_output :: "u64 \<Rightarrow> int \<Rightarrow> StreamKind \<Rightarrow> string \<Rightarrow> ReplayBuffer \<Rightarrow> RingEntry list \<times> ReplayBuffer" where
  "push_output seq ts stream data = push_entry \<lparr>re_seq = seq, re_ts = ts, re_kind = RawOutput stream data\<rparr>"

definition push_keyframe :: "u64 \<Rightarrow> int \<Rightarrow> StreamKind \<Rightarrow> string \<Rightarrow> ReplayBuffer \<Rightarrow> RingEntry list \<times> ReplayBuffer" where
  "push_keyframe seq ts stream data b =
     (case push_entry \<lparr>re_seq = seq, re_ts = ts, re_kind = RawKeyframe stream data\<rparr> b of
        (evicted, b) \<Rightarrow> (evicted, b\<lparr>rb_last_keyframe_seq := Some seq\<rparr>))"

definition push_control :: "u64 \<Rightarrow> int \<Rightarrow> SessionPayload \<Rightarrow> ReplayBuffer \<Rightarrow> RingEntry list \<times> ReplayBuffer" where
  "push_control seq ts payload = push_entry \<lparr>re_seq = seq, re_ts = ts, re_kind = Control payload\<rparr>"

definition frames_from :: "u64 \<Rightarrow> ReplayBuffer \<Rightarrow> RingEntry list" where
  "frames_from from_seq b = filter (\<lambda>f. from_seq \<le> re_seq f) (rb_frames b)"

definition oldest_seq :: "ReplayBuffer \<Rightarrow> u64 option" where
  "oldest_seq b = (case rb_frames b of [] \<Rightarrow> None | e # _ \<Rightarrow> Some (re_seq e))"

definition newest_seq :: "ReplayBuffer \<Rightarrow> u64 option" where
  "newest_seq b = (if rb_frames b = [] then None else Some (re_seq (last (rb_frames b))))"


subsection \<open>The ring keeps a suffix of what was pushed\<close>

datatype ring_op =
  PushOutput u64 int StreamKind string | PushKeyframe u64 int StreamKind string | PushControl u64 int SessionPayload

fun ring_push :: "ring_op \<Rightarrow> ReplayBuffer \<Rightarrow> RingEntry list \<times> ReplayBuffer" where
  "ring_push (PushOutput seq ts stream data) b = push_output seq ts stream data b"
| "ring_push (PushKeyframe seq ts stream data) b = push_keyframe seq ts stream data b"
| "ring_push (PushControl seq ts payload) b = push_control seq ts payload b"

fun entry_of :: "ring_op \<Rightarrow> RingEntry" where
  "entry_of (PushOutput seq ts stream data) = \<lparr>re_seq = seq, re_ts = ts, re_kind = RawOutput stream data\<rparr>"
| "entry_of (PushKeyframe seq ts stream data) = \<lparr>re_seq = seq, re_ts = ts, re_kind = RawKeyframe stream data\<rparr>"
| "entry_of (PushControl seq ts payload) = \<lparr>re_seq = seq, re_ts = ts, re_kind = Control payload\<rparr>"

fun ring_pushes :: "ring_op list \<Rightarrow> ReplayBuffer \<Rightarrow> RingEntry list \<times> ReplayBuffer" where
  "ring_pushes [] b = ([], b)"
| "ring_pushes (op # ops) b =
     (case ring_push op b of (evicted, b) \<Rightarrow> map_prod ((@) evicted) id (ring_pushes ops b))"

definition is_keyframe :: "RingEntry \<Rightarrow> bool" where
  "is_keyframe e \<longleftrightarrow> (case re_kind e of RawKeyframe stream data \<Rightarrow> True | _ \<Rightarrow> False)"

fun last_keyframe :: "RingEntry list \<Rightarrow> u64 option" where
  "last_keyframe [] = None"
| "last_keyframe (e # es) =
     (case last_keyframe es of Some s \<Rightarrow> Some s | None \<Rightarrow> if is_keyframe e then Some (re_seq e) else None)"

definition ring_ok :: "ReplayBuffer \<Rightarrow> bool" where
  "ring_ok b \<longleftrightarrow>
     length (rb_frames b) \<le> max 1 (rb_max_frames b) \<and>
     rb_total_bytes b = sum_list (map cost_bytes (rb_frames b)) \<and>
     (rb_total_bytes b \<le> rb_max_bytes b \<or> length (rb_frames b) \<le> 1) \<and>
     distinct (map re_seq (rb_frames b)) \<and> rb_last_keyframe_seq b = last_keyframe (rb_frames b)"

lemma last_keyframe_in: "last_keyframe es = Some s \<Longrightarrow> s \<in> re_seq ` set es"
  by (induction es) (auto split: option.splits if_splits)

lemma last_keyframe_snoc: "last_keyframe (es @ [e]) = (if is_keyframe e then Some (re_seq e) else last_keyframe es)"
  by (induction es) (auto split: option.splits)

lemma evict_front_ok:
  assumes "ring_ok b" and "rb_frames b = e # rest"
  shows "ring_ok (evict_front e rest b)"
proof -
  have "(if last_keyframe (e # rest) = Some (re_seq e) then None else last_keyframe (e # rest)) = last_keyframe rest"
    using assms last_keyframe_in [of rest "re_seq e"] by (force simp: ring_ok_def split: option.splits if_splits)
  with assms show ?thesis by (auto simp: ring_ok_def evict_front_def simp del: last_keyframe.simps split: if_splits)
qed

lemma make_room_spec:
  "ring_ok b \<Longrightarrow> make_room cost b = (evicted, b') \<Longrightarrow>
   ring_ok b' \<and> evicted @ rb_frames b' = rb_frames b \<and> rb_max_frames b' = rb_max_frames b \<and> rb_max_bytes b' = rb_max_bytes b \<and>
   (length (rb_frames b') < rb_max_frames b' \<or> rb_frames b' = []) \<and>
   (rb_total_bytes b' + cost \<le> rb_max_bytes b' \<or> rb_frames b' = [])"
proof (induction cost b arbitrary: evicted b' rule: make_room.induct)
  case (1 cost b)
  show ?case
  proof (cases "(rb_max_frames b \<le> length (rb_frames b) \<or> rb_max_bytes b < rb_total_bytes b + cost \<and> rb_frames b \<noteq> []) \<and> rb_frames b \<noteq> []")
    case True
    then obtain e rest where e: "rb_frames b = e # rest" by (auto simp: neq_Nil_conv)
    obtain ev where ev: "make_room cost (evict_front e rest b) = (ev, b')" "evicted = e # ev"
      using True e 1(3) by (cases "make_room cost (evict_front e rest b)") (subst (asm) make_room.simps, auto)
    have "ring_ok b' \<and> ev @ rb_frames b' = rb_frames (evict_front e rest b) \<and> rb_max_frames b' = rb_max_frames (evict_front e rest b) \<and>
        rb_max_bytes b' = rb_max_bytes (evict_front e rest b) \<and>
        (length (rb_frames b') < rb_max_frames b' \<or> rb_frames b' = []) \<and>
        (rb_total_bytes b' + cost \<le> rb_max_bytes b' \<or> rb_frames b' = [])"
      using 1(1) [OF _ e evict_front_ok [OF 1(2) e] ev(1)] True by blast
    with e ev(2) show ?thesis by (auto simp: evict_front_def)
  next
    case False
    then have "evicted = [] \<and> b' = b"
      using 1(3) by (subst (asm) make_room.simps) (auto split: if_splits list.splits)
    with False 1(2) show ?thesis by auto
  qed
qed

lemma push_entry_spec:
  assumes "ring_ok b" and "re_seq e \<notin> re_seq ` set (rb_frames b)" and "push_entry e b = (evicted, b')"
  shows "evicted @ rb_frames b' = rb_frames b @ [e] \<and> rb_max_frames b' = rb_max_frames b \<and> rb_max_bytes b' = rb_max_bytes b \<and>
    ring_ok (b'\<lparr>rb_last_keyframe_seq := last_keyframe (rb_frames b')\<rparr>) \<and>
    (\<not> is_keyframe e \<longrightarrow> rb_last_keyframe_seq b' = last_keyframe (rb_frames b'))"
proof -
  obtain b1 where b1: "make_room (cost_bytes e) b = (evicted, b1)"
      "b' = b1\<lparr>rb_frames := rb_frames b1 @ [e], rb_total_bytes := rb_total_bytes b1 + cost_bytes e\<rparr>"
    using assms(3) by (auto simp: push_entry_def split: prod.splits)
  note room = make_room_spec [OF assms(1) b1(1)]
  have "re_seq e \<notin> re_seq ` set (rb_frames b1)" using assms(2) room by (metis Un_iff image_Un set_append)
  with room b1(2) show ?thesis by (auto simp: ring_ok_def last_keyframe_snoc image_iff)
qed

lemma ring_push_spec:
  assumes "ring_ok b" and "re_seq (entry_of op) \<notin> re_seq ` set (rb_frames b)" and "ring_push op b = (evicted, b')"
  shows "ring_ok b' \<and> evicted @ rb_frames b' = rb_frames b @ [entry_of op] \<and>
    rb_max_frames b' = rb_max_frames b \<and> rb_max_bytes b' = rb_max_bytes b"
proof (cases op)
  case (PushKeyframe seq ts stream data)
  then obtain b1 where b1: "push_entry (entry_of op) b = (evicted, b1)" "b' = b1\<lparr>rb_last_keyframe_seq := Some seq\<rparr>"
    using assms(3) by (auto simp: push_keyframe_def split: prod.splits)
  note spec = push_entry_spec [OF assms(1,2) b1(1)]
  have "\<exists>fs. rb_frames b1 = fs @ [entry_of op]"
    using b1(1) by (auto simp: push_entry_def split: prod.splits)
  then have "last_keyframe (rb_frames b1) = Some seq"
    using PushKeyframe by (auto simp: last_keyframe_snoc is_keyframe_def)
  with spec b1(2) show ?thesis by (auto simp: ring_ok_def)
qed (use assms push_entry_spec [OF assms(1,2), of evicted b'] in
    \<open>auto simp: push_output_def push_control_def is_keyframe_def ring_ok_def\<close>)

lemma ring_pushes_spec:
  "ring_ok b \<Longrightarrow> distinct (map re_seq (rb_frames b @ map entry_of ops)) \<Longrightarrow> ring_pushes ops b = (evicted, b') \<Longrightarrow>
   ring_ok b' \<and> evicted @ rb_frames b' = rb_frames b @ map entry_of ops \<and>
   rb_max_frames b' = rb_max_frames b \<and> rb_max_bytes b' = rb_max_bytes b"
proof (induction ops arbitrary: b evicted)
  case (Cons op ops)
  obtain ev1 b1 where 1: "ring_push op b = (ev1, b1)" by fastforce
  obtain ev2 where 2: "ring_pushes ops b1 = (ev2, b')" "evicted = ev1 @ ev2"
    using Cons.prems(3) 1 by (cases "ring_pushes ops b1") auto
  have "re_seq (entry_of op) \<notin> re_seq ` set (rb_frames b)" using Cons.prems(2) by auto
  note step = ring_push_spec [OF Cons.prems(1) this 1]
  have "distinct (map re_seq ((rb_frames b @ [entry_of op]) @ map entry_of ops))" using Cons.prems(2) by simp
  then have "distinct (map re_seq (rb_frames b1 @ map entry_of ops))"
    using step by (metis append_assoc distinct_append map_append)
  from Cons.IH [OF _ this 2(1)] step 2(2) show ?case by auto
qed auto

text \<open>
  C40. The replay ring loses nothing silently: after any pushes with distinct sequence numbers, the
  entries handed out for the archive followed by the entries in the ring are exactly the entries pushed,
  in order. The ring holds at most its number of frames and at most its number of bytes, a single frame
  excepted, its byte count is exact, and the keyframe it names is the latest one it still holds.
\<close>

theorem replay_ring_exact:
  assumes "distinct (map (re_seq \<circ> entry_of) ops)"
  shows "case ring_pushes ops (with_byte_cap max_frames max_bytes) of (evicted, b) \<Rightarrow>
    evicted @ rb_frames b = map entry_of ops \<and>
    length (rb_frames b) \<le> max 1 max_frames \<and>
    rb_total_bytes b = sum_list (map cost_bytes (rb_frames b)) \<and>
    (rb_total_bytes b \<le> max_bytes \<or> length (rb_frames b) \<le> 1) \<and>
    rb_last_keyframe_seq b = last_keyframe (rb_frames b)"
proof -
  obtain evicted b where b: "ring_pushes ops (with_byte_cap max_frames max_bytes) = (evicted, b)" by fastforce
  have "ring_ok (with_byte_cap max_frames max_bytes)" by (simp add: ring_ok_def with_byte_cap_def)
  from ring_pushes_spec [OF this _ b] assms b show ?thesis by (auto simp: ring_ok_def with_byte_cap_def comp_def)
qed

lemma replay_ring_exact_witness:
  "case ring_pushes [PushKeyframe 0 0 Stdout ''abc'', PushOutput 1 0 Stdout ''de'', PushControl 2 0 (Resize 80 24)] (with_byte_cap 2 80) of
     (evicted, b) \<Rightarrow> evicted @ rb_frames b =
       [\<lparr>re_seq = 0, re_ts = 0, re_kind = RawKeyframe Stdout ''abc''\<rparr>,
        \<lparr>re_seq = 1, re_ts = 0, re_kind = RawOutput Stdout ''de''\<rparr>,
        \<lparr>re_seq = 2, re_ts = 0, re_kind = Control (Resize 80 24)\<rparr>] \<and> length (rb_frames b) \<le> 2"
  using replay_ring_exact [of "[PushKeyframe 0 0 Stdout ''abc'', PushOutput 1 0 Stdout ''de'', PushControl 2 0 (Resize 80 24)]" 2 80]
  by (auto simp: comp_def split: prod.splits)

end
