(* ===== verification/Session_Registry.thy ===== *)
theory Session_Registry
  imports Session_Replay Task_Files
begin

section \<open>Terminal sessions and their clients (\<open>session/registry.rs\<close>, \<open>session/transcript.rs\<close>)\<close>

text \<open>
  The registry of terminal sessions: clients attach as controller or observer, output is numbered,
  kept in the replay ring and fanned out to the channels of the clients. A session is a cell behind
  its mutex, a channel is shared between the attachment, its client and publishers in flight. A
  publisher takes the lock once to number its frame and to copy the list of senders and then sends
  without the lock, one step per sender, so publishers, attachments and clients interleave.

  Base64 and the redaction of secrets (regular expressions) are parameters, as is the JSON text of a
  transcript record. The receiving side of a channel takes frames and may be dropped at any time.
\<close>

subsection \<open>Channels\<close>

text \<open>
  The frames a channel has accepted and how many of them its client has taken; the lag counter the
  attachment shares with publishers.
\<close>

record channel =
  ch_frames :: "SessionFrame list"
  ch_taken :: nat
  ch_closed :: bool
  ch_lag :: nat

definition CHANNEL_SIZE :: nat where
  "CHANNEL_SIZE = 512"

definition LAG_EVICT_THRESHOLD :: nat where
  "LAG_EVICT_THRESHOLD = 500"

definition new_channel :: channel where
  "new_channel = \<lparr>ch_frames = [], ch_taken = 0, ch_closed = False, ch_lag = 0\<rparr>"

definition try_send :: "nat \<Rightarrow> SessionFrame \<Rightarrow> channel list \<Rightarrow> bool \<times> channel list" where
  "try_send tx frame chs =
     (let c = chs ! tx
      in if ch_closed c \<or> CHANNEL_SIZE \<le> length (ch_frames c) - ch_taken c then (False, chs)
         else (True, chs[tx := c\<lparr>ch_frames := ch_frames c @ [frame]\<rparr>]))"

definition drop_receivers :: "nat list \<Rightarrow> channel list \<Rightarrow> channel list" where
  "drop_receivers txs chs = map (\<lambda>t. if t \<in> set txs then (chs ! t)\<lparr>ch_closed := True\<rparr> else chs ! t) [0..<length chs]"

text \<open>One sender of a broadcast or a fan-out: whether its attachment is to be removed.\<close>

definition offer :: "SessionFrame \<Rightarrow> nat \<Rightarrow> channel list \<Rightarrow> bool \<times> channel list" where
  "offer frame tx chs =
     (if ch_closed (chs ! tx) then (True, chs)
      else case try_send tx frame chs of
             (True, chs) \<Rightarrow> (False, chs[tx := (chs ! tx)\<lparr>ch_lag := 0\<rparr>])
           | (False, chs) \<Rightarrow>
               let n = ch_lag (chs ! tx) + 1
               in (LAG_EVICT_THRESHOLD \<le> n, chs[tx := (chs ! tx)\<lparr>ch_lag := n\<rparr>]))"

subsection \<open>Sessions\<close>

record SessionAttachment =
  at_client_id :: ClientId
  at_role :: Role
  at_tx :: nat

record Session =
  ss_id :: SessionId
  ss_agent_id :: string
  ss_command_id :: string
  ss_name :: "string option"
  ss_seq :: u64
  ss_attachments :: "(ClientId \<times> SessionAttachment) list"
  ss_replay :: ReplayBuffer

definition make_frame :: "int \<Rightarrow> SessionPayload \<Rightarrow> Session \<Rightarrow> SessionFrame \<times> Session" where
  "make_frame ts payload s =
     (\<lparr>sf_session_id = ss_id s, sf_seq = ss_seq s, sf_ts = ts, sf_payload = payload\<rparr>, s\<lparr>ss_seq := ss_seq s + 1\<rparr>)"

definition clients_with :: "Role \<Rightarrow> Session \<Rightarrow> ClientId list" where
  "clients_with r s = sort (map at_client_id (filter (\<lambda>att. at_role att = r) (map snd (ss_attachments s))))"

definition membership_payload :: "Session \<Rightarrow> SessionPayload" where
  "membership_payload s = MembershipChanged (clients_with Controller s) (clients_with Observer s)"

definition grant_role :: "channel list \<Rightarrow> Role \<Rightarrow> Session \<Rightarrow> Role" where
  "grant_role chs requested_role s =
     (case requested_role of
        Observer \<Rightarrow> Observer
      | Controller \<Rightarrow>
          if list_ex (\<lambda>(c, att). at_role att = Controller \<and> \<not> ch_closed (chs ! at_tx att)) (ss_attachments s)
          then Observer else Controller)"

definition reap_closed_attachments :: "channel list \<Rightarrow> Session \<Rightarrow> Session" where
  "reap_closed_attachments chs s =
     s\<lparr>ss_attachments := filter (\<lambda>(c, att). \<not> ch_closed (chs ! at_tx att)) (ss_attachments s)\<rparr>"

definition remove_clients :: "ClientId list \<Rightarrow> Session \<Rightarrow> Session" where
  "remove_clients ids s = s\<lparr>ss_attachments := filter (\<lambda>(c, att). c \<notin> set ids) (ss_attachments s)\<rparr>"

fun offer_all :: "SessionFrame \<Rightarrow> (ClientId \<times> nat) list \<Rightarrow> channel list \<Rightarrow> ClientId list \<times> channel list" where
  "offer_all frame [] chs = ([], chs)"
| "offer_all frame ((client_id, tx) # rest) chs =
     (case offer frame tx chs of
        (evict, chs) \<Rightarrow> map_prod (\<lambda>ids. if evict then client_id # ids else ids) id (offer_all frame rest chs))"

definition broadcast :: "SessionFrame \<Rightarrow> Session \<Rightarrow> channel list \<Rightarrow> Session \<times> channel list" where
  "broadcast frame s chs =
     (case offer_all frame (map (\<lambda>(c, att). (c, at_tx att)) (ss_attachments s)) chs of
        (to_remove, chs) \<Rightarrow> (remove_clients to_remove s, chs))"

definition snapshot_senders :: "channel list \<Rightarrow> Session \<Rightarrow> (ClientId \<times> nat) list" where
  "snapshot_senders chs s =
     map (\<lambda>(c, att). (at_client_id att, at_tx att))
       (filter (\<lambda>(c, att). \<not> ch_closed (chs ! at_tx att)) (ss_attachments s))"


subsection \<open>The transcript archive\<close>

datatype TranscriptKind = OutputRecord | KeyframeRecord

record TranscriptRecord =
  tr_session_id :: SessionId
  tr_seq :: u64
  tr_ts :: int
  tr_kind :: TranscriptKind
  tr_stream :: StreamKind
  tr_text :: string
  tr_bytes :: nat

record TranscriptQuery =
  tq_from_seq :: "u64 option"
  tq_to_seq :: "u64 option"
  tq_stream :: "StreamKind option"
  tq_pattern :: "string option"
  tq_limit :: nat

record session_env =
  sx_encode :: "string \<Rightarrow> string"
  sx_redact :: "string \<Rightarrow> string"
  sx_lossy :: "string \<Rightarrow> string"
  sx_record_to_string :: "TranscriptRecord \<Rightarrow> string + string"
  sx_record_from_str :: "string \<Rightarrow> TranscriptRecord option"

record TranscriptArchive =
  ta_root :: string
  ta_writes_total :: u64
  ta_bytes_total :: u64
  ta_write_errors_total :: u64
  ta_searches_total :: u64
  ta_search_errors_total :: u64

definition new_archive :: "string \<Rightarrow> TranscriptArchive" where
  "new_archive root =
     \<lparr>ta_root = root, ta_writes_total = 0, ta_bytes_total = 0, ta_write_errors_total = 0,
      ta_searches_total = 0, ta_search_errors_total = 0\<rparr>"

definition record_from_entry :: "session_env \<Rightarrow> SessionId \<Rightarrow> RingEntry \<Rightarrow> TranscriptRecord option" where
  "record_from_entry env session_id e =
     (case re_kind e of
        RawOutput stream data \<Rightarrow>
          Some \<lparr>tr_session_id = session_id, tr_seq = re_seq e, tr_ts = re_ts e, tr_kind = OutputRecord, tr_stream = stream,
                tr_text = sx_lossy env data, tr_bytes = length data\<rparr>
      | RawKeyframe stream data \<Rightarrow>
          Some \<lparr>tr_session_id = session_id, tr_seq = re_seq e, tr_ts = re_ts e, tr_kind = KeyframeRecord, tr_stream = stream,
                tr_text = sx_lossy env data, tr_bytes = length data\<rparr>
      | Control p \<Rightarrow> None)"

text \<open>The file name keeps letters, digits, minus and underscore; every other character becomes an underscore.\<close>

definition safe_char :: "char \<Rightarrow> bool" where
  "safe_char c \<longleftrightarrow> is_ascii_alphanumeric c \<or> c \<in> {CHR ''-'', CHR ''_''}"

text \<open>A continuation byte of a multi-byte character adds no underscore of its own.\<close>

definition safe_name :: "SessionId \<Rightarrow> string" where
  "safe_name session_id =
     map (\<lambda>c. if safe_char c then c else CHR ''_'')
       (filter (\<lambda>c. \<not> (CHR 0x80 \<le> c \<and> c < CHR 0xC0)) session_id)"

definition path_for_session :: "TranscriptArchive \<Rightarrow> SessionId \<Rightarrow> string" where
  "path_for_session ar session_id = path_join (ta_root ar) (safe_name session_id @ ''.jsonl'')"

text \<open>One record per line.\<close>

fun write_records ::
  "session_env \<Rightarrow> io_env \<Rightarrow> string \<Rightarrow> TranscriptRecord list \<Rightarrow> u64 \<Rightarrow> fs \<Rightarrow> (string + u64) \<times> fs" where
  "write_records env io path [] n s = (Inr n, s)"
| "write_records env io path (r # rs) n s =
     (case sx_record_to_string env r of
        Inl e \<Rightarrow> (Inl e, s)
      | Inr line \<Rightarrow>
          try_io (sys_append io path line s) id (\<lambda>_ s.
          try_io (sys_append io path [CHR 0x0A] s) id (\<lambda>_ s.
          write_records env io path rs (n + of_nat (length line) + 1) s)))"

text \<open>Opening in append mode creates the file when it is missing.\<close>

definition open_append :: "io_env \<Rightarrow> string \<Rightarrow> fs \<Rightarrow> (string + unit) \<times> fs" where
  "open_append io path s =
     (case io_fail io ''open'' path of
        Some e \<Rightarrow> (Inl e, s)
      | None \<Rightarrow> (Inr (), if map_of (fs_files s) path = None then put_file path [] s else s))"

definition sys_chmod :: "io_env \<Rightarrow> string \<Rightarrow> fs \<Rightarrow> (string + unit) \<times> fs" where
  "sys_chmod io p s = (case io_fail io ''chmod'' p of Some e \<Rightarrow> (Inl e, s) | None \<Rightarrow> (Inr (), s))"

definition append_records ::
  "session_env \<Rightarrow> io_env \<Rightarrow> SessionId \<Rightarrow> TranscriptRecord list \<Rightarrow> TranscriptArchive \<Rightarrow> fs \<Rightarrow> (string + TranscriptArchive) \<times> fs" where
  "append_records env io session_id records ar s =
     (let path = path_for_session ar session_id
      in try_io (sys_mkdir_all io (ta_root ar) s) id (\<lambda>_ s.
         try_io (sys_chmod io (ta_root ar) s) id (\<lambda>_ s.
         try_io (open_append io path s) id (\<lambda>_ s.
         try_io (sys_chmod io path s) id (\<lambda>_ s.
         try_io (write_records env io path records 0 s) id (\<lambda>n s.
         try_io (sys_sync io path s) id (\<lambda>_ s.
           (Inr (ar\<lparr>ta_writes_total := ta_writes_total ar + of_nat (length records),
                    ta_bytes_total := ta_bytes_total ar + n\<rparr>), s))))))))"

definition append_evicted ::
  "session_env \<Rightarrow> io_env \<Rightarrow> SessionId \<Rightarrow> RingEntry list \<Rightarrow> TranscriptArchive \<Rightarrow> fs \<Rightarrow> TranscriptArchive \<times> fs" where
  "append_evicted env io session_id entries ar s =
     (let records = List.map_filter (record_from_entry env session_id) entries
      in if records = [] then (ar, s)
         else case append_records env io session_id records ar s of
                (Inl e, s) \<Rightarrow> (ar\<lparr>ta_write_errors_total := ta_write_errors_total ar + 1\<rparr>, s)
              | (Inr ar, s) \<Rightarrow> (ar, s))"

definition matches_query :: "TranscriptQuery \<Rightarrow> TranscriptRecord \<Rightarrow> bool" where
  "matches_query q r \<longleftrightarrow>
     (case tq_from_seq q of Some n \<Rightarrow> n \<le> tr_seq r | None \<Rightarrow> True) \<and>
     (case tq_to_seq q of Some n \<Rightarrow> tr_seq r \<le> n | None \<Rightarrow> True) \<and>
     (case tq_stream q of Some st \<Rightarrow> tr_stream r = st | None \<Rightarrow> True) \<and>
     (case tq_pattern q of Some p \<Rightarrow> contains_str p (tr_text r) | None \<Rightarrow> True)"

definition query_limit :: "TranscriptQuery \<Rightarrow> nat" where
  "query_limit q = min (max (tq_limit q) 1) 5000"

definition query_inner :: "session_env \<Rightarrow> io_env \<Rightarrow> SessionId \<Rightarrow> TranscriptQuery \<Rightarrow> TranscriptArchive \<Rightarrow> fs \<Rightarrow> string + TranscriptRecord list" where
  "query_inner env io session_id q ar s =
     (let path = path_for_session ar session_id
      in case io_fail io ''read'' path of
           Some e \<Rightarrow> Inl e
         | None \<Rightarrow>
             (case map_of (fs_files s) path of
                None \<Rightarrow> Inr []
              | Some content \<Rightarrow>
                  Inr (take (query_limit q)
                    (sort_key tr_seq (filter (matches_query q) (List.map_filter (sx_record_from_str env) (str_lines content)))))))"

definition archive_query ::
  "session_env \<Rightarrow> io_env \<Rightarrow> SessionId \<Rightarrow> TranscriptQuery \<Rightarrow> TranscriptArchive \<Rightarrow> fs \<Rightarrow> (string + TranscriptRecord list) \<times> TranscriptArchive" where
  "archive_query env io session_id q ar s =
     (let ar = ar\<lparr>ta_searches_total := ta_searches_total ar + 1\<rparr>
      in case query_inner env io session_id q ar s of
           Inr records \<Rightarrow> (Inr records, ar)
         | Inl e \<Rightarrow> (Inl e, ar\<lparr>ta_search_errors_total := ta_search_errors_total ar + 1\<rparr>))"

subsection \<open>The registry\<close>

text \<open>
  A publisher that has left the lock: its session's name and cell, its frame, the senders it has still to
  serve, the clients to evict and the ring entries to archive.
\<close>

record publisher =
  pb_session_id :: SessionId
  pb_cell :: nat
  pb_frame :: SessionFrame
  pb_senders :: "(ClientId \<times> nat) list"
  pb_evict :: "ClientId list"
  pb_archive :: "RingEntry list"

record SessionRegistry =
  sg_sessions :: "SessionId \<rightharpoonup> nat"
  sg_command_index :: "string \<rightharpoonup> SessionId"
  sg_transcript_archive :: "TranscriptArchive option"
  sg_cells :: "Session list"
  sg_channels :: "channel list"
  sg_publishers :: "publisher list"
  sg_fs :: fs

definition new_registry :: "fs \<Rightarrow> SessionRegistry" where
  "new_registry s =
     \<lparr>sg_sessions = Map.empty, sg_command_index = Map.empty, sg_transcript_archive = None, sg_cells = [],
      sg_channels = [], sg_publishers = [], sg_fs = s\<rparr>"

definition with_transcript_archive :: "string \<Rightarrow> SessionRegistry \<Rightarrow> SessionRegistry" where
  "with_transcript_archive root rg = rg\<lparr>sg_transcript_archive := Some (new_archive root)\<rparr>"

definition put_session :: "nat \<Rightarrow> Session \<Rightarrow> SessionRegistry \<Rightarrow> SessionRegistry" where
  "put_session a s rg = rg\<lparr>sg_cells := (sg_cells rg)[a := s]\<rparr>"

definition create_session :: "SessionId \<Rightarrow> string \<Rightarrow> string \<Rightarrow> string option \<Rightarrow> SessionRegistry \<Rightarrow> SessionRegistry" where
  "create_session session_id agent_id command_id name rg =
     rg\<lparr>sg_command_index := (sg_command_index rg)(command_id \<mapsto> session_id),
        sg_cells := sg_cells rg @
          [\<lparr>ss_id = session_id, ss_agent_id = agent_id, ss_command_id = command_id, ss_name = name, ss_seq = 0,
            ss_attachments = [], ss_replay = new_buffer DEFAULT_MAX_FRAMES\<rparr>],
        sg_sessions := (sg_sessions rg)(session_id \<mapsto> length (sg_cells rg))\<rparr>"

definition update_command_id :: "SessionId \<Rightarrow> string \<Rightarrow> SessionRegistry \<Rightarrow> SessionRegistry" where
  "update_command_id session_id new_command_id rg =
     (case sg_sessions rg session_id of
        None \<Rightarrow> rg
      | Some a \<Rightarrow>
          let s = sg_cells rg ! a
          in put_session a (s\<lparr>ss_command_id := new_command_id\<rparr>)
               (rg\<lparr>sg_command_index := ((sg_command_index rg)(ss_command_id s := None))(new_command_id \<mapsto> session_id)\<rparr>))"

definition session_id_for_command :: "string \<Rightarrow> SessionRegistry \<Rightarrow> SessionId option" where
  "session_id_for_command command_id rg = sg_command_index rg command_id"

text \<open>When another task holds the session's lock, \<open>try_lock\<close> fails and the index entry stays.\<close>

definition remove_session :: "bool \<Rightarrow> SessionId \<Rightarrow> SessionRegistry \<Rightarrow> SessionRegistry" where
  "remove_session locked session_id rg =
     (case sg_sessions rg session_id of
        None \<Rightarrow> rg
      | Some a \<Rightarrow>
          rg\<lparr>sg_sessions := (sg_sessions rg)(session_id := None),
             sg_command_index :=
               (if locked then sg_command_index rg
                else (sg_command_index rg)(ss_command_id (sg_cells rg ! a) := None))\<rparr>)"

definition forget :: "bool \<Rightarrow> SessionId \<Rightarrow> SessionRegistry \<Rightarrow> SessionRegistry" where
  "forget = remove_session"

subsection \<open>Attachment\<close>

text \<open>Messages to the new channel: a full channel drops them.\<close>

definition send_replay :: "nat \<Rightarrow> SessionFrame list \<Rightarrow> channel list \<Rightarrow> channel list" where
  "send_replay tx frames chs = foldl (\<lambda>chs f. snd (try_send tx f chs)) chs frames"

definition effective_from :: "u64 option \<Rightarrow> Session \<Rightarrow> u64 option" where
  "effective_from replay_from s =
     (case replay_from of
        Some n \<Rightarrow> Some n
      | None \<Rightarrow>
          (case rb_last_keyframe_seq (ss_replay s) of
             Some n \<Rightarrow> Some n
           | None \<Rightarrow> oldest_seq (ss_replay s)))"

definition replay_frames :: "session_env \<Rightarrow> u64 option \<Rightarrow> Session \<Rightarrow> SessionFrame list" where
  "replay_frames env replay_from s =
     (case effective_from replay_from s of
        None \<Rightarrow> []
      | Some from_seq \<Rightarrow> map (to_wire (sx_encode env) (ss_id s)) (frames_from from_seq (ss_replay s)))"

text \<open>
  The session's lock does not keep clients from dropping their receivers: \<open>dropped\<close> are those that go
  away between the removal of closed attachments and the choice of the role.
\<close>

definition attach ::
  "session_env \<Rightarrow> nat list \<Rightarrow> int \<Rightarrow> int \<Rightarrow> SessionId \<Rightarrow> ClientId \<Rightarrow> Role \<Rightarrow> u64 option \<Rightarrow> SessionRegistry
     \<Rightarrow> (nat \<times> Role \<times> u64) option \<times> SessionRegistry" where
  "attach env dropped ts1 ts2 session_id client_id requested_role replay_from rg =
     (case sg_sessions rg session_id of
        None \<Rightarrow> (None, rg)
      | Some a \<Rightarrow>
          let tx = length (sg_channels rg); s = sg_cells rg ! a; current_seq = ss_seq s;
              s = reap_closed_attachments (sg_channels rg) s;
              chs = drop_receivers dropped (sg_channels rg) @ [new_channel];
              granted_role = grant_role chs requested_role s;
              chs = send_replay tx (replay_frames env replay_from s) chs;
              (role_frame, s) = make_frame ts1 (RoleAssigned granted_role) s;
              chs = snd (try_send tx role_frame chs);
              s = s\<lparr>ss_attachments :=
                    AList.update client_id \<lparr>at_client_id = client_id, at_role = granted_role, at_tx = tx\<rparr> (ss_attachments s)\<rparr>;
              (frame, s) = make_frame ts2 (membership_payload s) s;
              (s, chs) = broadcast frame s chs
          in (Some (tx, granted_role, current_seq), put_session a s (rg\<lparr>sg_channels := chs\<rparr>)))"

definition broadcast_payload :: "int \<Rightarrow> SessionPayload \<Rightarrow> nat \<Rightarrow> SessionRegistry \<Rightarrow> SessionRegistry" where
  "broadcast_payload ts payload a rg =
     (let (frame, s) = make_frame ts payload (sg_cells rg ! a); (s, chs) = broadcast frame s (sg_channels rg)
      in put_session a s (rg\<lparr>sg_channels := chs\<rparr>))"

definition detach :: "int \<Rightarrow> SessionId \<Rightarrow> ClientId \<Rightarrow> SessionRegistry \<Rightarrow> SessionRegistry" where
  "detach ts session_id client_id rg =
     (case sg_sessions rg session_id of
        None \<Rightarrow> rg
      | Some a \<Rightarrow>
          let s = sg_cells rg ! a
          in if map_of (ss_attachments s) client_id = None then rg
             else let s = s\<lparr>ss_attachments := AList.delete client_id (ss_attachments s)\<rparr>
                  in broadcast_payload ts (membership_payload s) a (put_session a s rg))"

definition is_controller :: "SessionId \<Rightarrow> ClientId \<Rightarrow> SessionRegistry \<Rightarrow> bool" where
  "is_controller session_id client_id rg \<longleftrightarrow>
     (case sg_sessions rg session_id of
        None \<Rightarrow> False
      | Some a \<Rightarrow>
          (case map_of (ss_attachments (sg_cells rg ! a)) client_id of
             Some att \<Rightarrow> at_role att = Controller
           | None \<Rightarrow> False))"

subsection \<open>Publishing\<close>

text \<open>The lock region the publishers share: number the frame, push it to the ring, copy the senders.\<close>

definition start_publish ::
  "SessionId \<Rightarrow> nat \<Rightarrow> int \<Rightarrow> SessionPayload \<Rightarrow> (u64 \<Rightarrow> ReplayBuffer \<Rightarrow> RingEntry list \<times> ReplayBuffer) \<Rightarrow> SessionRegistry \<Rightarrow> SessionRegistry" where
  "start_publish session_id a ts payload push rg =
     (let s = sg_cells rg ! a; (evicted, b) = push (ss_seq s) (ss_replay s);
          (frame, s) = make_frame ts payload (s\<lparr>ss_replay := b\<rparr>)
      in put_session a s
           (rg\<lparr>sg_publishers := sg_publishers rg @
                [\<lparr>pb_session_id = session_id, pb_cell = a, pb_frame = frame, pb_senders = snapshot_senders (sg_channels rg) s,
                  pb_evict = [], pb_archive = evicted\<rparr>]\<rparr>))"

definition publish_output :: "session_env \<Rightarrow> int \<Rightarrow> SessionId \<Rightarrow> StreamKind \<Rightarrow> string \<Rightarrow> SessionRegistry \<Rightarrow> SessionRegistry" where
  "publish_output env ts session_id stream data rg =
     (case sg_sessions rg session_id of
        None \<Rightarrow> rg
      | Some a \<Rightarrow>
          let raw = sx_redact env data
          in start_publish session_id a ts (Output stream (sx_encode env raw)) (\<lambda>seq. push_output seq ts stream raw) rg)"

definition publish_keyframe :: "session_env \<Rightarrow> int \<Rightarrow> SessionId \<Rightarrow> StreamKind \<Rightarrow> string \<Rightarrow> SessionRegistry \<Rightarrow> SessionRegistry" where
  "publish_keyframe env ts session_id stream data rg =
     (case sg_sessions rg session_id of
        None \<Rightarrow> rg
      | Some a \<Rightarrow>
          if data = [] then rg
          else let raw = sx_redact env data
               in start_publish session_id a ts (Keyframe stream (sx_encode env raw)) (\<lambda>seq. push_keyframe seq ts stream raw) rg)"

definition publish_resize :: "int \<Rightarrow> SessionId \<Rightarrow> u16 \<Rightarrow> u16 \<Rightarrow> SessionRegistry \<Rightarrow> SessionRegistry" where
  "publish_resize ts session_id cols rows rg =
     (case sg_sessions rg session_id of
        None \<Rightarrow> rg
      | Some a \<Rightarrow> start_publish session_id a ts (Resize cols rows) (\<lambda>seq. push_control seq ts (Resize cols rows)) rg)"

definition archive_evicted :: "session_env \<Rightarrow> io_env \<Rightarrow> SessionId \<Rightarrow> RingEntry list \<Rightarrow> SessionRegistry \<Rightarrow> SessionRegistry" where
  "archive_evicted env io session_id evicted rg =
     (if evicted = [] then rg
      else case sg_transcript_archive rg of
             None \<Rightarrow> rg
           | Some ar \<Rightarrow>
               (case append_evicted env io session_id evicted ar (sg_fs rg) of
                  (ar, s) \<Rightarrow> rg\<lparr>sg_transcript_archive := Some ar, sg_fs := s\<rparr>))"

text \<open>One step of a publisher outside the lock: a sender, then the evictions, then the archive.\<close>

definition fan_out_step :: "session_env \<Rightarrow> io_env \<Rightarrow> nat \<Rightarrow> SessionRegistry \<Rightarrow> SessionRegistry" where
  "fan_out_step env io i rg =
     (let p = sg_publishers rg ! i
      in case pb_senders p of
           (client_id, tx) # rest \<Rightarrow>
             (case offer (pb_frame p) tx (sg_channels rg) of
                (evict, chs) \<Rightarrow>
                  rg\<lparr>sg_channels := chs,
                     sg_publishers := (sg_publishers rg)
                       [i := p\<lparr>pb_senders := rest, pb_evict := (if evict then pb_evict p @ [client_id] else pb_evict p)\<rparr>]\<rparr>)
         | [] \<Rightarrow>
             if pb_evict p \<noteq> []
             then put_session (pb_cell p) (remove_clients (pb_evict p) (sg_cells rg ! pb_cell p))
                    (rg\<lparr>sg_publishers := (sg_publishers rg)[i := p\<lparr>pb_evict := []\<rparr>]\<rparr>)
             else (archive_evicted env io (pb_session_id p) (pb_archive p) rg)
                    \<lparr>sg_publishers := (sg_publishers rg)[i := p\<lparr>pb_archive := []\<rparr>]\<rparr>)"

definition close_broadcast :: "int \<Rightarrow> SessionId \<Rightarrow> int option \<Rightarrow> SessionRegistry \<Rightarrow> SessionRegistry" where
  "close_broadcast ts session_id exit_code rg =
     (case sg_sessions rg session_id of
        None \<Rightarrow> rg
      | Some a \<Rightarrow> broadcast_payload ts (Closed exit_code) a rg)"

text \<open>\<open>close\<close> releases the session between its last frame and the removal.\<close>

definition close_session :: "int \<Rightarrow> bool \<Rightarrow> SessionId \<Rightarrow> int option \<Rightarrow> SessionRegistry \<Rightarrow> SessionRegistry" where
  "close_session ts locked session_id exit_code rg =
     remove_session locked session_id (close_broadcast ts session_id exit_code rg)"

subsection \<open>Queries\<close>

definition query_hot_replay :: "session_env \<Rightarrow> SessionId \<Rightarrow> TranscriptQuery \<Rightarrow> SessionRegistry \<Rightarrow> TranscriptRecord list" where
  "query_hot_replay env session_id q rg =
     (case sg_sessions rg session_id of
        None \<Rightarrow> []
      | Some a \<Rightarrow>
          filter (matches_query q) (List.map_filter (record_from_entry env session_id) (rb_frames (ss_replay (sg_cells rg ! a)))))"

text \<open>\<open>dedup_by_key\<close> keeps the first of consecutive records with the same number.\<close>

fun dedup_seq :: "TranscriptRecord list \<Rightarrow> TranscriptRecord list" where
  "dedup_seq (x # y # rest) = (if tr_seq x = tr_seq y then dedup_seq (x # rest) else x # dedup_seq (y # rest))"
| "dedup_seq rs = rs"

definition query_transcript ::
  "session_env \<Rightarrow> io_env \<Rightarrow> SessionId \<Rightarrow> TranscriptQuery \<Rightarrow> SessionRegistry \<Rightarrow> (string + TranscriptRecord list) \<times> SessionRegistry" where
  "query_transcript env io session_id q rg =
     (case (case sg_transcript_archive rg of
              None \<Rightarrow> (Inr [], rg)
            | Some ar \<Rightarrow>
                (case archive_query env io session_id q ar (sg_fs rg) of
                   (r, ar) \<Rightarrow> (r, rg\<lparr>sg_transcript_archive := Some ar\<rparr>))) of
        (Inl e, rg) \<Rightarrow> (Inl e, rg)
      | (Inr records, rg) \<Rightarrow>
          (Inr (take (query_limit q) (dedup_seq (sort_key tr_seq (records @ query_hot_replay env session_id q rg)))), rg))"

text \<open>A session whose lock is taken is skipped: \<open>locked\<close> tells which.\<close>

definition sessions_for_agent :: "(nat \<Rightarrow> bool) \<Rightarrow> string \<Rightarrow> SessionRegistry \<Rightarrow> SessionId set" where
  "sessions_for_agent locked agent_id rg =
     {i \<in> dom (sg_sessions rg). case sg_sessions rg i of Some a \<Rightarrow> \<not> locked a \<and> ss_agent_id (sg_cells rg ! a) = agent_id | None \<Rightarrow> False}"



subsection \<open>Transcript queries\<close>

lemma dedup_set: "set (map tr_seq (dedup_seq rs)) = set (map tr_seq rs)"
  by (induction rs rule: dedup_seq.induct) auto

lemma dedup_sorted: "sorted (map tr_seq rs) \<Longrightarrow> sorted_wrt (<) (map tr_seq (dedup_seq rs))"
proof (induction rs rule: dedup_seq.induct)
  case (1 x y rest)
  show ?case
  proof (cases "tr_seq x = tr_seq y")
    case False
    with 1 have "sorted_wrt (<) (map tr_seq (dedup_seq (y # rest)))" by simp
    moreover have "tr_seq x < n" if "n \<in> set (map tr_seq (dedup_seq (y # rest)))" for n
      using that 1(3) False unfolding dedup_set by force
    ultimately show ?thesis using False by simp
  qed (use 1 in simp)
qed simp_all

text \<open>
  A transcript query answers with at most \<open>query_limit\<close> records, each number once and in increasing
  order, whatever the archive and the ring have in common.
\<close>

lemma query_transcript_sorted:
  assumes "query_transcript env io i q rg = (Inr rs, rg')"
  shows "sorted_wrt (<) (map tr_seq rs)" and "length rs \<le> query_limit q"
proof -
  from assms obtain all where rs: "rs = take (query_limit q) (dedup_seq (sort_key tr_seq all))"
    by (auto simp: query_transcript_def split: prod.splits sum.splits option.splits)
  then show "length rs \<le> query_limit q" by simp
  show "sorted_wrt (<) (map tr_seq rs)" unfolding rs take_map [symmetric]
    by (intro sorted_wrt_take dedup_sorted) simp
qed

text \<open>An archive file never leaves the archive's directory: no name has a separator.\<close>

lemma safe_name_chars: "list_all (\<lambda>c. c \<noteq> CHR ''/'') (safe_name i)"
  by (auto simp: safe_name_def list_all_iff safe_char_def is_ascii_alphanumeric_def is_ascii_upper_def is_ascii_digit_def)

subsection \<open>Runs of the registry\<close>

datatype session_event =
  Create SessionId string string "string option"
| UpdateCommand SessionId string
| Remove bool SessionId
| Attach session_env "nat list" int int SessionId ClientId Role "u64 option"
| Detach int SessionId ClientId
| PublishOutput session_env int SessionId StreamKind string
| PublishKeyframe session_env int SessionId StreamKind string
| PublishResize int SessionId u16 u16
| FanOut session_env io_env nat
| CloseBroadcast int SessionId "int option"
| Receive nat
| DropReceiver nat

definition update_channel :: "nat \<Rightarrow> (channel \<Rightarrow> channel) \<Rightarrow> SessionRegistry \<Rightarrow> SessionRegistry" where
  "update_channel tx f rg =
     (if tx < length (sg_channels rg) then rg\<lparr>sg_channels := (sg_channels rg)[tx := f (sg_channels rg ! tx)]\<rparr> else rg)"

fun session_step :: "SessionRegistry \<Rightarrow> session_event \<Rightarrow> SessionRegistry" where
  "session_step rg (Create session_id agent_id command_id name) = create_session session_id agent_id command_id name rg"
| "session_step rg (UpdateCommand session_id command_id) = update_command_id session_id command_id rg"
| "session_step rg (Remove locked session_id) = remove_session locked session_id rg"
| "session_step rg (Attach env dropped ts1 ts2 session_id client_id role from) = snd (attach env dropped ts1 ts2 session_id client_id role from rg)"
| "session_step rg (Detach ts session_id client_id) = detach ts session_id client_id rg"
| "session_step rg (PublishOutput env ts session_id stream data) = publish_output env ts session_id stream data rg"
| "session_step rg (PublishKeyframe env ts session_id stream data) = publish_keyframe env ts session_id stream data rg"
| "session_step rg (PublishResize ts session_id cols rows) = publish_resize ts session_id cols rows rg"
| "session_step rg (FanOut env io i) = (if i < length (sg_publishers rg) then fan_out_step env io i rg else rg)"
| "session_step rg (CloseBroadcast ts session_id exit_code) = close_broadcast ts session_id exit_code rg"
| "session_step rg (Receive tx) = update_channel tx (\<lambda>c. c\<lparr>ch_taken := min (Suc (ch_taken c)) (length (ch_frames c))\<rparr>) rg"
| "session_step rg (DropReceiver tx) = update_channel tx (\<lambda>c. c\<lparr>ch_closed := True\<rparr>) rg"

subsection \<open>Attachments of a session\<close>

text \<open>
  The attachments of a cell: one per client, each with a channel, and at most one for which \<open>P\<close>
  holds. \<open>P\<close> says that the attachment is a controller, or a controller whose client is still there.
\<close>

definition atts_inv :: "(SessionAttachment \<Rightarrow> bool) \<Rightarrow> channel list \<Rightarrow> (ClientId \<times> SessionAttachment) list \<Rightarrow> bool" where
  "atts_inv P chs A \<longleftrightarrow>
     distinct (map fst A) \<and>
     (\<forall>c att. (c, att) \<in> set A \<longrightarrow> at_tx att < length chs) \<and>
     (\<forall>c att c' att'. (c, att) \<in> set A \<longrightarrow> (c', att') \<in> set A \<longrightarrow> P att \<and> P att' \<longrightarrow> c = c')"

abbreviation controls :: "SessionAttachment \<Rightarrow> bool" where
  "controls att \<equiv> at_role att = Controller"

abbreviation live_control :: "channel list \<Rightarrow> SessionAttachment \<Rightarrow> bool" where
  "live_control chs att \<equiv> controls att \<and> \<not> ch_closed (chs ! at_tx att)"

lemma atts_inv_member: "atts_inv P chs A \<Longrightarrow> (c, att) \<in> set A \<Longrightarrow> at_tx att < length chs"
  by (simp add: atts_inv_def)

lemma atts_inv_unique:
  "atts_inv P chs A \<Longrightarrow> (c, att) \<in> set A \<Longrightarrow> (c', att') \<in> set A \<Longrightarrow> P att \<Longrightarrow> P att' \<Longrightarrow> c = c'"
  unfolding atts_inv_def by blast

lemma atts_inv_filter: "atts_inv P chs A \<Longrightarrow> atts_inv P chs (filter Q A)"
  unfolding atts_inv_def by (auto simp: distinct_map_filter)

lemma atts_inv_mono:
  assumes "atts_inv P chs A" and "length chs \<le> length chs'" and "\<And>c att. (c, att) \<in> set A \<Longrightarrow> Q att \<Longrightarrow> P att"
  shows "atts_inv Q chs' A"
  using assms unfolding atts_inv_def by (meson order.strict_trans2)

lemma delete_as_filter: "AList.delete c A = filter (\<lambda>x. fst x \<noteq> c) A"
  by (auto simp: AList.delete_eq intro: filter_cong)

lemma update_set:
  assumes "distinct (map fst A)"
  shows "(c, v) \<in> set (AList.update k x A) \<longleftrightarrow> (if c = k then v = x else (c, v) \<in> set A)"
proof -
  have "(c, v) \<in> set (AList.update k x A) \<longleftrightarrow> map_of (AList.update k x A) c = Some v"
    using assms by (simp add: distinct_update map_of_eq_Some_iff)
  also have "\<dots> \<longleftrightarrow> (if c = k then v = x else map_of A c = Some v)" by (auto simp: AList.update_conv')
  finally show ?thesis using assms by (simp add: map_of_eq_Some_iff)
qed

lemma atts_inv_update:
  assumes "atts_inv P chs A" and "at_tx x < length chs" and "P x \<Longrightarrow> \<forall>(c, att) \<in> set A. \<not> P att"
  shows "atts_inv P chs (AList.update c0 x A)"
proof -
  have d: "distinct (map fst A)" using assms(1) by (simp add: atts_inv_def)
  note mem = update_set [OF d, of _ _ c0 x]
  have "at_tx att < length chs" if "(c, att) \<in> set (AList.update c0 x A)" for c att
    using that assms(2) atts_inv_member [OF assms(1)] by (cases "c = c0") (auto simp: mem)
  moreover have "c = c'"
    if "(c, att) \<in> set (AList.update c0 x A)" "(c', att') \<in> set (AList.update c0 x A)" and "P att" "P att'" for c att c' att'
    using that assms(3) atts_inv_unique [OF assms(1)] unfolding mem by (fastforce split: if_splits)
  moreover have "distinct (map fst (AList.update c0 x A))" using d by (simp add: distinct_update)
  ultimately show ?thesis unfolding atts_inv_def by blast
qed

text \<open>Sending leaves the channels and whether they are closed.\<close>

definition chs_kept :: "channel list \<Rightarrow> channel list \<Rightarrow> bool" where
  "chs_kept chs chs' \<longleftrightarrow> length chs' = length chs \<and> (\<forall>t. ch_closed (chs' ! t) = ch_closed (chs ! t))"

lemma chs_kept_trans: "chs_kept a b \<Longrightarrow> chs_kept b c \<Longrightarrow> chs_kept a c"
  by (simp add: chs_kept_def)

lemma closed_update [simp]: "ch_closed c = ch_closed (chs ! k) \<Longrightarrow> ch_closed (chs[k := c] ! t) = ch_closed (chs ! t)"
  by (cases "k < length chs") (auto simp: nth_list_update list_update_beyond)

lemma kept_try_send: "chs_kept chs (snd (try_send tx f chs))"
  by (simp add: chs_kept_def try_send_def Let_def)

lemma kept_offer: "chs_kept chs (snd (offer f tx chs))"
  by (auto simp: chs_kept_def offer_def try_send_def Let_def)

lemma offer_closed: "ch_closed (chs ! tx) \<Longrightarrow> offer f tx chs = (True, chs)"
  by (simp add: offer_def)

lemma kept_offer_all:
  "offer_all f senders chs = (ids, chs') \<Longrightarrow>
   chs_kept chs chs' \<and> (\<forall>(c, tx) \<in> set senders. ch_closed (chs ! tx) \<longrightarrow> c \<in> set ids)"
proof (induction senders arbitrary: chs ids)
  case (Cons s senders)
  obtain c tx where s: "s = (c, tx)" by (cases s)
  obtain ev chs1 where 1: "offer f tx chs = (ev, chs1)" by fastforce
  then have kept: "chs_kept chs chs1" using kept_offer [of chs f tx] by simp
  from Cons.prems s 1 obtain ids1 where 2: "offer_all f senders chs1 = (ids1, chs')" "ids = (if ev then c # ids1 else ids1)"
    by (cases "offer_all f senders chs1") auto
  have "ch_closed (chs ! tx) \<longrightarrow> ev" using 1 offer_closed by auto
  with Cons.IH [OF 2(1)] kept 2(2) s show ?case by (auto simp: chs_kept_def)
qed (simp add: chs_kept_def)

lemma kept_send_replay: "chs_kept chs (send_replay tx fs chs)"
proof (induction fs arbitrary: chs)
  case (Cons f fs)
  from chs_kept_trans [OF kept_try_send Cons [of "snd (try_send tx f chs)"]] show ?case by (simp add: send_replay_def)
qed (simp add: send_replay_def chs_kept_def)

text \<open>A broadcast removes the attachments of absent clients, so one live controller becomes the only one.\<close>

lemma broadcast_spec:
  assumes "atts_inv (live_control chs) chs (ss_attachments s)" and "broadcast f s chs = (s', chs')"
  shows "length chs' = length chs" and "atts_inv controls chs' (ss_attachments s')"
proof -
  let ?senders = "map (\<lambda>(c, att). (c, at_tx att)) (ss_attachments s)"
  obtain ids where ids: "offer_all f ?senders chs = (ids, chs')" "s' = remove_clients ids s"
    using assms(2) by (auto simp: broadcast_def split: prod.splits)
  note kept = kept_offer_all [OF ids(1)]
  then show len: "length chs' = length chs" by (simp add: chs_kept_def)
  have A': "ss_attachments s' = filter (\<lambda>(c, att). c \<notin> set ids) (ss_attachments s)" using ids(2) by (simp add: remove_clients_def)
  show "atts_inv controls chs' (ss_attachments s')" unfolding A'
  proof (rule atts_inv_mono [OF atts_inv_filter [OF assms(1)]])
    fix c att
    assume "(c, att) \<in> set (filter (\<lambda>(c, att). c \<notin> set ids) (ss_attachments s))" and "controls att"
    with kept show "live_control chs att" by fastforce
  qed (simp add: len)
qed

lemma make_frame_attachments [simp]: "ss_attachments (snd (make_frame ts p s)) = ss_attachments s"
  by (simp add: make_frame_def)

lemma drop_receivers_length [simp]: "length (drop_receivers txs chs) = length chs"
  by (simp add: drop_receivers_def)

lemma grant_no_live:
  assumes "grant_role chs role s = Controller"
  shows "\<forall>(c, att) \<in> set (ss_attachments s). \<not> live_control chs att"
  using assms by (auto simp: grant_role_def list_ex_iff split: Role.splits if_splits)

text \<open>The attachments when the membership goes out: at most one controller whose client is there.\<close>

lemma attach_atts_live:
  assumes "atts_inv controls chs (ss_attachments s)" and "chs1 = drop_receivers dropped chs @ [new_channel]" and "chs_kept chs1 chs2"
    and "s1 = reap_closed_attachments chs s"
  shows "atts_inv (live_control chs2) chs2
           (AList.update c \<lparr>at_client_id = c, at_role = grant_role chs1 role s1, at_tx = length chs\<rparr> (ss_attachments s1))"
proof (rule atts_inv_update)
  have len: "length chs2 = Suc (length chs)" and closed: "ch_closed (chs2 ! t) = ch_closed (chs1 ! t)" for t
    using assms(2,3) by (simp_all add: chs_kept_def)
  show "atts_inv (live_control chs2) chs2 (ss_attachments s1)"
    unfolding assms(4) reap_closed_attachments_def
    by (simp, rule atts_inv_mono [OF atts_inv_filter [OF assms(1)]]) (simp_all add: len)
  show "\<forall>(c, att) \<in> set (ss_attachments s1). \<not> live_control chs2 att"
    if "live_control chs2 \<lparr>at_client_id = c, at_role = grant_role chs1 role s1, at_tx = length chs\<rparr>"
    using grant_no_live [of chs1 role s1] that closed by simp
qed (use assms(2,3) in \<open>simp add: chs_kept_def\<close>)

subsection \<open>At most one controller\<close>

definition registry_ok :: "SessionRegistry \<Rightarrow> bool" where
  "registry_ok rg \<longleftrightarrow>
     (\<forall>a < length (sg_cells rg). atts_inv controls (sg_channels rg) (ss_attachments (sg_cells rg ! a))) \<and>
     (\<forall>i a. sg_sessions rg i = Some a \<longrightarrow> a < length (sg_cells rg))"

lemma put_session_simps [simp]:
  "sg_sessions (put_session a s rg) = sg_sessions rg" "sg_channels (put_session a s rg) = sg_channels rg"
  "sg_cells (put_session a s rg) = (sg_cells rg)[a := s]"
  by (simp_all add: put_session_def)

lemma registry_cell:
  "registry_ok rg \<Longrightarrow> a < length (sg_cells rg) \<Longrightarrow> atts_inv controls (sg_channels rg) (ss_attachments (sg_cells rg ! a))"
  by (simp add: registry_ok_def)

lemma registry_live:
  "registry_ok rg \<Longrightarrow> a < length (sg_cells rg) \<Longrightarrow> atts_inv (live_control (sg_channels rg)) (sg_channels rg) (ss_attachments (sg_cells rg ! a))"
  by (rule atts_inv_mono [OF registry_cell]) simp_all

lemma registry_address: "registry_ok rg \<Longrightarrow> sg_sessions rg i = Some a \<Longrightarrow> a < length (sg_cells rg)"
  by (simp add: registry_ok_def)

text \<open>One cell and the channels change, everything else stays.\<close>

lemma registry_ok_put:
  assumes "registry_ok rg" and "length (sg_channels rg) \<le> length chs" and "atts_inv controls chs (ss_attachments s)"
    and "sg_cells rg' = (sg_cells rg)[a := s]" and "sg_channels rg' = chs" and "sg_sessions rg' = sg_sessions rg"
  shows "registry_ok rg'"
proof -
  have "atts_inv controls chs (ss_attachments (sg_cells rg' ! b))" if "b < length (sg_cells rg')" for b
    using that assms(3,4) atts_inv_mono [OF registry_cell [OF assms(1)] assms(2)]
    by (cases "b = a") (auto simp: nth_list_update)
  with assms(1,4-6) show ?thesis by (auto simp: registry_ok_def)
qed

lemma registry_ok_channels:
  assumes "registry_ok rg" and "length chs = length (sg_channels rg)"
  shows "registry_ok (rg\<lparr>sg_channels := chs\<rparr>)"
  using assms atts_inv_mono [OF registry_cell [OF assms(1)], of _ chs controls] by (simp add: registry_ok_def)

lemma attach_ok:
  assumes "registry_ok rg"
  shows "registry_ok (snd (attach env dropped ts1 ts2 i c role from rg))"
proof (cases "sg_sessions rg i")
  case None
  with assms show ?thesis by (simp add: attach_def)
next
  case (Some a)
  let ?tx = "length (sg_channels rg)" and ?chs0 = "drop_receivers dropped (sg_channels rg) @ [new_channel]"
  let ?s1 = "reap_closed_attachments (sg_channels rg) (sg_cells rg ! a)"
  let ?granted = "grant_role ?chs0 role ?s1" and ?chs1 = "send_replay ?tx (replay_frames env from ?s1) ?chs0"
  obtain rf s2 where 2: "make_frame ts1 (RoleAssigned ?granted) ?s1 = (rf, s2)" by fastforce
  let ?chs2 = "snd (try_send ?tx rf ?chs1)"
  let ?s3 = "s2\<lparr>ss_attachments := AList.update c \<lparr>at_client_id = c, at_role = ?granted, at_tx = ?tx\<rparr> (ss_attachments s2)\<rparr>"
  obtain mf s4 where 4: "make_frame ts2 (membership_payload ?s3) ?s3 = (mf, s4)" by fastforce
  obtain s chs where bc: "broadcast mf s4 ?chs2 = (s, chs)" by fastforce
  have kept: "chs_kept ?chs0 ?chs2" by (rule chs_kept_trans [OF kept_send_replay kept_try_send])
  have "ss_attachments s2 = ss_attachments ?s1" "ss_attachments s4 = ss_attachments ?s3"
    using make_frame_attachments 2 4 by (metis snd_conv)+
  with attach_atts_live [OF registry_cell [OF assms registry_address [OF assms Some]] refl kept refl]
  have "atts_inv (live_control ?chs2) ?chs2 (ss_attachments s4)" by simp
  note b = broadcast_spec [OF this bc]
  moreover have "?tx \<le> length chs" using b(1) kept by (simp add: chs_kept_def)
  moreover have "snd (attach env dropped ts1 ts2 i c role from rg) = put_session a s (rg\<lparr>sg_channels := chs\<rparr>)"
    using Some 2 4 bc by (simp add: attach_def Let_def)
  ultimately show ?thesis using registry_ok_put [OF assms _ b(2)] by simp
qed

lemma broadcast_payload_ok:
  assumes "registry_ok rg" and "a < length (sg_cells rg)"
  shows "registry_ok (broadcast_payload ts p a rg)"
proof -
  obtain f s where f: "make_frame ts p (sg_cells rg ! a) = (f, s)" by fastforce
  obtain s' chs where b: "broadcast f s (sg_channels rg) = (s', chs)" by fastforce
  have "ss_attachments s = ss_attachments (sg_cells rg ! a)" using make_frame_attachments f by (metis snd_conv)
  then have "atts_inv (live_control (sg_channels rg)) (sg_channels rg) (ss_attachments s)" using registry_live [OF assms] by simp
  note spec = broadcast_spec [OF this b]
  show ?thesis using registry_ok_put [OF assms(1) _ spec(2)] spec(1) f b by (simp add: broadcast_payload_def)
qed

lemma registry_ok_filter:
  assumes "registry_ok rg" and "ss_attachments s = filter P (ss_attachments (sg_cells rg ! a))"
  shows "registry_ok (put_session a s rg)"
proof (cases "a < length (sg_cells rg)")
  case True
  with registry_ok_put [OF assms(1) order.refl, of s "put_session a s rg"] assms(2)
    atts_inv_filter [OF registry_cell [OF assms(1)]] show ?thesis by simp
qed (use assms(1) in \<open>simp add: registry_ok_def\<close>)

lemma detach_ok:
  assumes "registry_ok rg"
  shows "registry_ok (detach ts i c rg)"
proof (cases "sg_sessions rg i")
  case (Some a)
  let ?s = "(sg_cells rg ! a)\<lparr>ss_attachments := AList.delete c (ss_attachments (sg_cells rg ! a))\<rparr>"
  have "registry_ok (put_session a ?s rg)" "a < length (sg_cells (put_session a ?s rg))"
    using registry_ok_filter [OF assms, of ?s] registry_address [OF assms Some] by (simp_all add: delete_as_filter)
  from broadcast_payload_ok [OF this] show ?thesis using assms Some by (simp add: detach_def Let_def)
qed (simp add: detach_def assms)

lemma start_publish_ok:
  assumes "registry_ok rg" and "a < length (sg_cells rg)"
  shows "registry_ok (start_publish i a ts p push rg)"
proof -
  obtain ev b where "push (ss_seq (sg_cells rg ! a)) (ss_replay (sg_cells rg ! a)) = (ev, b)" by fastforce
  moreover obtain f s where fs: "make_frame ts p ((sg_cells rg ! a)\<lparr>ss_replay := b\<rparr>) = (f, s)" by fastforce
  ultimately have "sg_cells (start_publish i a ts p push rg) = (sg_cells rg)[a := s]"
    "sg_channels (start_publish i a ts p push rg) = sg_channels rg"
    "sg_sessions (start_publish i a ts p push rg) = sg_sessions rg"
    by (simp_all add: start_publish_def Let_def)
  moreover have "ss_attachments s = ss_attachments (sg_cells rg ! a)"
    using make_frame_attachments [of ts p "(sg_cells rg ! a)\<lparr>ss_replay := b\<rparr>"] fs by simp
  ultimately show ?thesis
    using registry_ok_put [OF assms(1) order.refl, of s] registry_cell [OF assms] by simp
qed

lemma fan_out_ok:
  assumes "registry_ok rg"
  shows "registry_ok (fan_out_step env io i rg)"
proof (cases "pb_senders (sg_publishers rg ! i)")
  case (Cons s rest)
  obtain c tx where s: "s = (c, tx)" by (cases s)
  obtain ev chs where o: "offer (pb_frame (sg_publishers rg ! i)) tx (sg_channels rg) = (ev, chs)" by fastforce
  then have "length chs = length (sg_channels rg)"
    using kept_offer [of "sg_channels rg"] by (metis chs_kept_def snd_conv)
  from registry_ok_channels [OF assms this] show ?thesis
    using Cons s o by (simp add: fan_out_step_def Let_def registry_ok_def)
next
  case Nil
  let ?p = "sg_publishers rg ! i"
  let ?a = "pb_cell ?p"
  have "registry_ok (archive_evicted env io (pb_session_id ?p) (pb_archive ?p) rg)"
    using assms by (auto simp: archive_evicted_def registry_ok_def split: option.split prod.split)
  moreover have "registry_ok (put_session ?a (remove_clients (pb_evict ?p) (sg_cells rg ! ?a)) rg)"
    by (rule registry_ok_filter [OF assms]) (simp add: remove_clients_def)
  ultimately show ?thesis using Nil by (simp add: fan_out_step_def Let_def put_session_def registry_ok_def)
qed

lemma create_ok: "registry_ok rg \<Longrightarrow> registry_ok (create_session i agent command name rg)"
  by (auto simp: registry_ok_def create_session_def nth_append atts_inv_def less_Suc_eq)

lemma update_command_ok:
  assumes "registry_ok rg"
  shows "registry_ok (update_command_id i command rg)"
proof (cases "sg_sessions rg i")
  case (Some a)
  from registry_cell [OF assms registry_address [OF assms this]] show ?thesis
    using registry_ok_put [OF assms order.refl, of "(sg_cells rg ! a)\<lparr>ss_command_id := command\<rparr>"] Some
    by (simp add: update_command_id_def Let_def)
qed (simp add: update_command_id_def assms)

lemma remove_ok: "registry_ok rg \<Longrightarrow> registry_ok (remove_session locked i rg)"
  by (auto simp: remove_session_def registry_ok_def split: option.split)

lemma update_channel_ok: "registry_ok rg \<Longrightarrow> registry_ok (update_channel tx f rg)"
  by (simp add: update_channel_def registry_ok_channels)

lemma publish_ok:
  assumes "registry_ok rg"
  shows "registry_ok (publish_output env ts i stream data rg)" and "registry_ok (publish_keyframe env ts i stream data rg)"
    and "registry_ok (publish_resize ts i cols rows rg)"
  using start_publish_ok [OF assms registry_address [OF assms]] assms
  by (simp_all add: publish_output_def publish_keyframe_def publish_resize_def Let_def split: option.split)

lemma close_broadcast_ok: "registry_ok rg \<Longrightarrow> registry_ok (close_broadcast ts i code rg)"
  by (simp add: close_broadcast_def broadcast_payload_ok registry_address split: option.split)

lemmas session_ops_ok =
  create_ok update_command_ok remove_ok attach_ok detach_ok publish_ok fan_out_ok close_broadcast_ok update_channel_ok

interpretation sessions: op_system session_step registry_ok
proof
  fix rg ev
  assume "registry_ok rg"
  then show "registry_ok (session_step rg ev)" by (cases ev) (simp_all add: session_ops_ok)
qed

lemma new_registry_ok: "registry_ok (new_registry s)" "registry_ok (with_transcript_archive root (new_registry s))"
  by (simp_all add: registry_ok_def new_registry_def with_transcript_archive_def)

lemma controller_attached:
  "is_controller i c rg \<Longrightarrow>
   \<exists>a att. sg_sessions rg i = Some a \<and> (c, att) \<in> set (ss_attachments (sg_cells rg ! a)) \<and> at_role att = Controller"
  by (auto simp: is_controller_def dest: map_of_SomeD split: option.splits)



end
