(* ===== verification/Spec2Isabelle.thy ===== *)
theory Spec2Isabelle
  imports Effect_Ledger Send_Message Orchestrator Fault_Tolerance Vm_Pool Multi_Agent Reconciliation Session_Registry
begin

text \<open>
  \<^bold>\<open>The agentic sandbox: coordination, task execution and the A2A executor.\<close> The program runs coding agents in virtual machines. A management server (\<open>management/src\<close>)
  accepts tasks, provisions machines, runs a provider in them and keeps the coordination record of
  every instance; an executor (\<open>management/agentic-sandbox-executor/src\<close>) offers the same work to other
  agents over the A2A protocol. This theory imports the whole development; the theories follow the
  files of the source, one component each, and every definition keeps the name the code has.

  \<^bold>\<open>Conventions.\<close> A struct is a record with prefixed fields, an enum a datatype with the source's
  constructors, a \<open>Result\<close> the sum \<open>'e + 'a\<close>, a panic \<open>None\<close>. \<open>u8\<close> to \<open>u64\<close> are words and wrap where the code
  wraps. A string is its UTF-8 bytes. Clock readings and generated identifiers are arguments.
  Code of other packages (JSON text, hashes, URL parsing, HTTP, external programs) is a parameter, and a
  theorem that relies on it names what it relies on. Where a mutex or a database transaction
  makes an operation atomic it is one step; where the code gives up a lock between two steps, so does the
  model, and the theorems hold for every interleaving.

  \<^bold>\<open>Shared vocabulary.\<close> \<open>Rust_Prelude\<close> has the string methods, the JSON values, the tables and four
  interfaces: \<open>op_system\<close> (operations that keep an invariant), \<open>at_most_once\<close> (an event no run shows twice),
  \<open>final_outcomes\<close> (an outcome that never changes) and \<open>lifecycle\<close> (a state machine that ends). The
  components interpret them on their own step functions.

  \<^bold>\<open>Coordination.\<close> \<open>Instance_Cell\<close> is \<open>celld/model.rs\<close>, the durable record of one instance, and
  \<open>Effect_Ledger\<close> is \<open>celld/effect_ledger.rs\<close>, the two tables the server keeps of the effects it was
  asked to perform. Shown: the cell's own invariant check never fails; an operation is accepted and
  dispatched at most once; terminal outcomes are final; effects of old generations are fenced; the history
  is bounded and gapless; repeating a request changes nothing; what the ledger stores it reads back.

  \<^bold>\<open>The A2A executor.\<close> \<open>Task_Store\<close> and \<open>Idempotency\<close> are the database, \<open>Extension_Context\<close>, \<open>Flow_Graph\<close> and
  \<open>A2a_Extensions\<close> the request hooks, \<open>A2a_Protocol\<close> the two wire formats, \<open>Task_Handlers\<close>,
  \<open>Push_Notifications\<close>, \<open>Callback_Policy\<close> and \<open>Send_Message\<close> the handlers. Shown: keys and references of
  the tables, a refinement of the task table to a map, listing and paging, single dispatch of fleet work,
  replay and eviction of idempotent responses, that a message is processed once, that a task is cancelled
  once, that callbacks reach public addresses only, that delivery is bounded and that secrets of
  a callback are not observable, that protocol conversion keeps parts.

  \<^bold>\<open>The orchestrator.\<close> \<open>Orchestrator_Task\<close> is the task state machine with the manifests (\<open>task.rs\<close>,
  \<open>manifest.rs\<close>); \<open>Secret_Resolver\<close>, \<open>Task_Files\<close> and \<open>Task_Executor\<close> are \<open>secrets.rs\<close>, \<open>storage.rs\<close> with
  \<open>checkpoint.rs\<close>, and \<open>executor.rs\<close> with \<open>collector.rs\<close>, over a file system in which every call can fail and
  programs with arbitrary results. \<open>Orchestrator\<close> (\<open>mod.rs\<close>) runs them: each task has a runner with a
  program counter, one step per lock region or external call, and cancellations and submissions
  interleave with it. \<open>Multi_Agent\<close>, \<open>Reconciliation\<close>, \<open>Vm_Pool\<close> and \<open>Fault_Tolerance\<close> are the files of
  these names and the breaker, retry and timeout files. Shown: a task whose calls succeed completes,
  every runner returns, settled tasks stay settled, completed tasks leave no machine, checkpoints are
  replaced atomically and restored, secrets are not mixed up in the cache and survive the shell, waiting for
  children ends, reconciliation touches only orphans, the breaker opens and recovers at its
  thresholds, the retry loop is its specification, the pool keeps its limits.

  \<^bold>\<open>Terminal sessions.\<close> \<open>Session_Replay\<close> is the ring of recent frames (\<open>session/replay.rs\<close>) and
  \<open>Session_Registry\<close> the sessions with their attached clients and the transcript archive
  (\<open>session/registry.rs\<close>, \<open>session/transcript.rs\<close>). A publisher sends without the session's lock, one step per
  client, and clients drop their receivers at any time. Shown: the ring keeps its limits and hands every
  entry it drops to the archive, a session never has two controllers, a transcript query answers in order
  without duplicates.

  \<^bold>\<open>Bounds.\<close> No loop is cut off by fuel: the recursive functions follow the data or come with a
  termination proof. A runner takes at most thirteen steps, which is the longest path through its program
  counters, so thirteen is the bound in the theorems about it. The polling loop of \<open>wait_for_children\<close>
  need not end; it takes the sequence of its polls and is \<open>None\<close> when they are used up. The shell reader of
  \<open>Task_Executor\<close> takes a bound on the number of words and is applied to one line.

  \<^bold>\<open>Not modelled.\<close> HTTP routing and the administration API, gRPC and terminal sockets, TLS, certificates and
  tokens, the host, Docker and libvirt runtimes, telemetry, the agent inside the machine and the command
  line client: they are I/O around services and libraries that are not in the repository. Of the modelled
  files the jittered retry delays and percentages (floating point), log messages and read-only size
  queries are left out.
\<close>

end
